theory Spec2Isabelle
  imports Main "HOL-Library.Multiset" "HOL-Library.Char_ord" "HOL-Library.List_Lexorder"
begin

section \<open>Paths, layers, layer stacks and sites\<close>

text \<open>
  Modelled from the spec: \<open>SdfPath\<close> belongs to the scene-description library, not to
  the indexer. An absolute prim path is the list of its elements from the pseudo-root
  down, the pseudo-root \<open>/\<close> being the empty list; a variant selection \<open>{set=sel}\<close> is
  a path element of its own. \<open>HasPrefix\<close> is component-wise,
  \<open>StripAllVariantSelections\<close> removes every \<open>{set=sel}\<close> element, and paths are
  ordered element by element, a path coming before the paths it is a prefix of.
\<close>

datatype PathElem = PrimChild string | VariantSelection string string

fun elemKey :: "PathElem \<Rightarrow> string list" where
  "elemKey (PrimChild n) = [''p'', n]"
| "elemKey (VariantSelection s v) = [''v'', s, v]"

instantiation PathElem :: linorder
begin

definition less_eq_PathElem :: "PathElem \<Rightarrow> PathElem \<Rightarrow> bool" where
  "less_eq_PathElem a b = (elemKey a \<le> elemKey b)"

definition less_PathElem :: "PathElem \<Rightarrow> PathElem \<Rightarrow> bool" where
  "less_PathElem a b = (elemKey a < elemKey b)"

instance
proof
  fix x y z :: PathElem
  show "(x < y) = (x \<le> y \<and> \<not> y \<le> x)"
    unfolding less_eq_PathElem_def less_PathElem_def by auto
  show "x \<le> x"
    unfolding less_eq_PathElem_def by simp
  show "x \<le> y \<Longrightarrow> y \<le> z \<Longrightarrow> x \<le> z"
    unfolding less_eq_PathElem_def by simp
  show "x \<le> y \<Longrightarrow> y \<le> x \<Longrightarrow> x = y"
    unfolding less_eq_PathElem_def by (cases x; cases y) auto
  show "x \<le> y \<or> y \<le> x"
    unfolding less_eq_PathElem_def by auto
qed

end

type_synonym SdfPath = "PathElem list"

definition AbsoluteRootPath :: SdfPath where
  "AbsoluteRootPath = []"

definition HasPrefix :: "SdfPath \<Rightarrow> SdfPath \<Rightarrow> bool" where
  "HasPrefix p pre = (take (length pre) p = pre)"

definition ReplacePrefix :: "SdfPath \<Rightarrow> SdfPath \<Rightarrow> SdfPath \<Rightarrow> SdfPath" where
  "ReplacePrefix p oldPrefix newPrefix =
     (if HasPrefix p oldPrefix then newPrefix @ drop (length oldPrefix) p else p)"

definition IsRootPrimPath :: "SdfPath \<Rightarrow> bool" where
  "IsRootPrimPath p = (case p of [PrimChild n] \<Rightarrow> True | _ \<Rightarrow> False)"

definition isVariantSelectionElem :: "PathElem \<Rightarrow> bool" where
  "isVariantSelectionElem e = (case e of VariantSelection s v \<Rightarrow> True | PrimChild n \<Rightarrow> False)"

definition IsPrimVariantSelectionPath :: "SdfPath \<Rightarrow> bool" where
  "IsPrimVariantSelectionPath p = (p \<noteq> [] \<and> isVariantSelectionElem (last p))"

definition ContainsPrimVariantSelection :: "SdfPath \<Rightarrow> bool" where
  "ContainsPrimVariantSelection p = list_ex isVariantSelectionElem p"

definition GetVariantSelection :: "SdfPath \<Rightarrow> string \<times> string" where
  "GetVariantSelection p =
     (if p = [] then ('''', '''')
      else (case last p of VariantSelection s v \<Rightarrow> (s, v) | PrimChild n \<Rightarrow> ('''', '''')))"

definition StripAllVariantSelections :: "SdfPath \<Rightarrow> SdfPath" where
  "StripAllVariantSelections p = filter (\<lambda>e. \<not> isVariantSelectionElem e) p"

definition AppendVariantSelection :: "SdfPath \<Rightarrow> string \<Rightarrow> string \<Rightarrow> SdfPath" where
  "AppendVariantSelection p vset vsel = p @ [VariantSelection vset vsel]"

definition PcpNode_GetNonVariantPathElementCount :: "SdfPath \<Rightarrow> int" where
  "PcpNode_GetNonVariantPathElementCount p = int (length (StripAllVariantSelections p))"

text \<open>
  A prim path as the indexer receives it from a reference, a payload or a class arc:
  the empty path, an absolute path of prim and variant-selection elements, or any other
  path (relative, or naming a property), of which only whether it is absolute and whether
  it names a prim matter here. The pseudo-root is absolute but not a prim path; neither
  is a path that ends in a variant selection.
\<close>

datatype AuthoredPath = EmptyPath | AbsolutePath SdfPath | OtherPath bool bool string

definition IsEmpty :: "AuthoredPath \<Rightarrow> bool" where
  "IsEmpty a = (a = EmptyPath)"

definition IsAbsolutePath :: "AuthoredPath \<Rightarrow> bool" where
  "IsAbsolutePath a =
     (case a of EmptyPath \<Rightarrow> False | AbsolutePath p \<Rightarrow> True | OtherPath isAbs isPrim s \<Rightarrow> isAbs)"

definition IsPrimPath :: "AuthoredPath \<Rightarrow> bool" where
  "IsPrimPath a =
     (case a of
        EmptyPath \<Rightarrow> False
      | AbsolutePath p \<Rightarrow> p \<noteq> [] \<and> \<not> isVariantSelectionElem (last p)
      | OtherPath isAbs isPrim s \<Rightarrow> isPrim)"

definition AuthoredContainsPrimVariantSelection :: "AuthoredPath \<Rightarrow> bool" where
  "AuthoredContainsPrimVariantSelection a =
     (case a of AbsolutePath p \<Rightarrow> ContainsPrimVariantSelection p | _ \<Rightarrow> False)"

text \<open>
  A layer is known to the indexer through \<open>HasSpec\<close>, the \<open>variantSelection\<close> field of
  a prim and the default prim (the empty string when none is authored); a layer stack
  through its layers (strongest first, session layers before the root layer), its root
  layer and its relocation table, a \<open>std::map\<close> kept in the order of its source paths.
\<close>

record SdfLayer =
  layerId :: string
  primSpecs :: "SdfPath list"
  variantSelectionField :: "(SdfPath \<times> (string \<times> string) list) list"
  defaultPrim :: string

definition HasSpec :: "SdfLayer \<Rightarrow> SdfPath \<Rightarrow> bool" where
  "HasSpec layer p = (p \<in> set (primSpecs layer))"

record PcpLayerStack =
  rootLayer :: SdfLayer
  layers :: "SdfLayer list"
  relocatesSourceToTarget :: "(SdfPath \<times> SdfPath) list"

record PcpLayerStackSite =
  layerStack :: PcpLayerStack
  path :: SdfPath

datatype PcpArcType =
  PcpArcTypeRoot | PcpArcTypeInherit | PcpArcTypeVariant | PcpArcTypeRelocate
  | PcpArcTypeReference | PcpArcTypePayload | PcpArcTypeSpecialize

text \<open>Modelled from the spec: \<open>PcpIsClassBasedArc\<close> is declared with the arc types; the
  class-based arcs are Inherit and Specialize.\<close>

definition PcpIsClassBasedArc :: "PcpArcType \<Rightarrow> bool" where
  "PcpIsClassBasedArc t = (t = PcpArcTypeInherit \<or> t = PcpArcTypeSpecialize)"

definition PcpIsSpecializeArc :: "PcpArcType \<Rightarrow> bool" where
  "PcpIsSpecializeArc t = (t = PcpArcTypeSpecialize)"

datatype SdfPermission = SdfPermissionPublic | SdfPermissionPrivate

section \<open>Composition errors\<close>

datatype PcpErrorType =
  PcpErrorType_ArcCycle
  | PcpErrorType_ArcPermissionDenied
  | PcpErrorType_PrimPermissionDenied
  | PcpErrorType_InvalidPrimPath
  | PcpErrorType_InvalidReferenceOffset
  | PcpErrorType_UnresolvedPrimPath
  | PcpErrorType_InvalidAssetPath
  | PcpErrorType_MutedAssetPath
  | PcpErrorType_OpinionAtRelocationSource
  | PcpErrorType_IndexCapacityExceeded
  | PcpErrorType_ArcCapacityExceeded
  | PcpErrorType_ArcNamespaceDepthCapacityExceeded

type_synonym PcpSiteTrackerSegment = "PcpLayerStackSite \<times> PcpArcType"

text \<open>The fields that the error classes add to the base class: the cycle of an
  \<open>ArcCycle\<close>; site and private site of the permission errors; site and authored path
  of an invalid prim path; the source path of an invalid offset; site and unresolved
  path (\<open>None\<close> for the \<open>defaultPrim\<close> hint); site and asset path.\<close>

datatype PcpErrorDetails =
  NoDetails
  | ArcCycleDetails "PcpSiteTrackerSegment list"
  | ArcPermissionDeniedDetails PcpLayerStackSite PcpLayerStackSite PcpArcType
  | PrimPermissionDeniedDetails PcpLayerStackSite PcpLayerStackSite
  | InvalidPrimPathDetails PcpLayerStackSite AuthoredPath PcpArcType
  | InvalidReferenceOffsetDetails SdfPath string PcpArcType
  | UnresolvedPrimPathDetails PcpLayerStackSite "SdfPath option" PcpArcType
  | AssetPathDetails PcpLayerStackSite string PcpArcType

record PcpErrorBase =
  errorType :: PcpErrorType
  err_rootSite :: "PcpLayerStackSite option"
  details :: PcpErrorDetails

type_synonym PcpErrorVector = "PcpErrorBase list"

text \<open>
  \<open>Pcp_PrimIndexer::RecordError\<close> (static form). The prim index keeps its local errors
  behind a pointer that is null until the first error: \<open>None\<close> here.
\<close>

definition RecordError ::
  "PcpErrorBase \<Rightarrow> PcpErrorVector option \<Rightarrow> PcpErrorVector
     \<Rightarrow> PcpErrorVector option \<times> PcpErrorVector" where
  "RecordError err localErrors allErrors =
     (if (errorType err = PcpErrorType_IndexCapacityExceeded
          \<or> errorType err = PcpErrorType_ArcCapacityExceeded
          \<or> errorType err = PcpErrorType_ArcNamespaceDepthCapacityExceeded)
         \<and> list_ex (\<lambda>e. errorType e = errorType err) allErrors
      then (localErrors, allErrors)
      else (Some ((case localErrors of None \<Rightarrow> [] | Some l \<Rightarrow> l) @ [err]),
            allErrors @ [err]))"


definition isCapacityError :: "PcpErrorBase \<Rightarrow> bool" where
  "isCapacityError e =
     (errorType e = PcpErrorType_IndexCapacityExceeded
      \<or> errorType e = PcpErrorType_ArcCapacityExceeded
      \<or> errorType e = PcpErrorType_ArcNamespaceDepthCapacityExceeded)"

text \<open>What a run of \<open>RecordError\<close> calls appends, given the errors already in the
  global list.\<close>

fun recorded :: "PcpErrorVector \<Rightarrow> PcpErrorBase list \<Rightarrow> PcpErrorBase list" where
  "recorded a0 [] = []"
| "recorded a0 (e # es) =
     (if isCapacityError e \<and> list_ex (\<lambda>x. errorType x = errorType e) a0
      then recorded a0 es
      else e # recorded (a0 @ [e]) es)"

definition extendLocal :: "PcpErrorVector option \<Rightarrow> PcpErrorBase list \<Rightarrow> PcpErrorVector option" where
  "extendLocal loc new =
     (if new = [] then loc else Some ((case loc of None \<Rightarrow> [] | Some l \<Rightarrow> l) @ new))"

section \<open>Tasks\<close>

datatype TaskType =
  EvalNodeRelocations
  | EvalImpliedRelocations
  | EvalNodeReferences
  | EvalNodePayload
  | EvalNodeInherits
  | EvalImpliedClasses
  | EvalNodeSpecializes
  | EvalImpliedSpecializes
  | EvalNodeVariantSets
  | EvalNodeVariantAuthored
  | EvalNodeVariantFallback
  | EvalNodeVariantNoneFound
  | None_Type

fun typeRank :: "TaskType \<Rightarrow> nat" where
  "typeRank EvalNodeRelocations = 0"
| "typeRank EvalImpliedRelocations = 1"
| "typeRank EvalNodeReferences = 2"
| "typeRank EvalNodePayload = 3"
| "typeRank EvalNodeInherits = 4"
| "typeRank EvalImpliedClasses = 5"
| "typeRank EvalNodeSpecializes = 6"
| "typeRank EvalImpliedSpecializes = 7"
| "typeRank EvalNodeVariantSets = 8"
| "typeRank EvalNodeVariantAuthored = 9"
| "typeRank EvalNodeVariantFallback = 10"
| "typeRank EvalNodeVariantNoneFound = 11"
| "typeRank None_Type = 12"

record Task =
  task_type :: TaskType
  task_vsetNum :: int
  task_node :: nat
  task_vsetName :: string

text \<open>
  \<open>Task::PriorityOrder\<close>, the comparison of the task heap: the greatest task is the one
  popped first. Nodes are compared by their index in the node pool;
  \<open>PcpCompareNodeStrength\<close> is taken as a parameter.
\<close>

definition PriorityOrder :: "(nat \<Rightarrow> nat \<Rightarrow> int) \<Rightarrow> Task \<Rightarrow> Task \<Rightarrow> bool" where
  "PriorityOrder PcpCompareNodeStrength a b =
     (if task_type a \<noteq> task_type b then typeRank (task_type a) > typeRank (task_type b)
      else (case task_type a of
          EvalNodePayload \<Rightarrow> PcpCompareNodeStrength (task_node a) (task_node b) = 1
        | EvalNodeVariantAuthored \<Rightarrow>
            (if task_node a \<noteq> task_node b then PcpCompareNodeStrength (task_node a) (task_node b) = 1
             else task_vsetNum a > task_vsetNum b)
        | EvalNodeVariantFallback \<Rightarrow>
            (if task_node a \<noteq> task_node b then PcpCompareNodeStrength (task_node a) (task_node b) = 1
             else task_vsetNum a > task_vsetNum b)
        | EvalNodeVariantNoneFound \<Rightarrow>
            (if task_node a \<noteq> task_node b then task_node a > task_node b else task_vsetNum a > task_vsetNum b)
        | EvalImpliedClasses \<Rightarrow> task_node b > task_node a
        | _ \<Rightarrow> task_node a > task_node b))"

text \<open>
  \<open>std::push_heap\<close> on the range \<open>[0, n)\<close> of a vector: the last element of the range
  is sifted up through a hole.
\<close>

function push_heap_aux :: "('a \<Rightarrow> 'a \<Rightarrow> bool) \<Rightarrow> 'a list \<Rightarrow> nat \<Rightarrow> 'a \<Rightarrow> 'a list" where
  "push_heap_aux lt xs holeIndex v =
     (if holeIndex > 0 \<and> lt (xs ! ((holeIndex - 1) div 2)) v
      then push_heap_aux lt (xs[holeIndex := xs ! ((holeIndex - 1) div 2)])
             ((holeIndex - 1) div 2) v
      else xs[holeIndex := v])"
  by pat_completeness auto
termination
  by (relation "measure (\<lambda>(lt, xs, h, v). h)") auto

definition push_heap :: "('a \<Rightarrow> 'a \<Rightarrow> bool) \<Rightarrow> 'a list \<Rightarrow> nat \<Rightarrow> 'a list" where
  "push_heap lt xs n = push_heap_aux lt xs (n - 1) (xs ! (n - 1))"

text \<open>\<open>Pcp_PrimIndexer::RetryVariantTasks\<close>: one round of the loop, and the loop over
  all positions of the task vector.\<close>

definition RetryVariantTasks_step :: "(nat \<Rightarrow> nat \<Rightarrow> int) \<Rightarrow> nat \<Rightarrow> Task list \<Rightarrow> Task list" where
  "RetryVariantTasks_step cmp i tasks =
     (if task_type (tasks ! i) = EvalNodeVariantFallback \<or> task_type (tasks ! i) = EvalNodeVariantNoneFound
      then push_heap (PriorityOrder cmp)
             (tasks[i := (tasks ! i)\<lparr>task_type := EvalNodeVariantAuthored\<rparr>]) (i + 1)
      else tasks)"

definition RetryVariantTasks :: "(nat \<Rightarrow> nat \<Rightarrow> int) \<Rightarrow> Task list \<Rightarrow> Task list" where
  "RetryVariantTasks cmp tasks = fold (RetryVariantTasks_step cmp) [0..<length tasks] tasks"

definition is_heap :: "('a \<Rightarrow> 'a \<Rightarrow> bool) \<Rightarrow> 'a list \<Rightarrow> bool" where
  "is_heap lt xs = (\<forall>i. 0 < i \<and> i < length xs \<longrightarrow> \<not> lt (xs ! ((i - 1) div 2)) (xs ! i))"

declare push_heap_aux.simps [simp del]

text \<open>The sift-up invariant: a heap but for the hole, whose children are below both the
  value being placed and the hole's parent.\<close>

definition heap_hole :: "('a \<Rightarrow> 'a \<Rightarrow> bool) \<Rightarrow> 'a list \<Rightarrow> nat \<Rightarrow> 'a \<Rightarrow> bool" where
  "heap_hole lt xs h v =
     (h < length xs
      \<and> (\<forall>i. 0 < i \<and> i < length xs \<and> i \<noteq> h \<and> (i - 1) div 2 \<noteq> h
             \<longrightarrow> \<not> lt (xs ! ((i - 1) div 2)) (xs ! i))
      \<and> (\<forall>c. 0 < c \<and> c < length xs \<and> (c - 1) div 2 = h \<longrightarrow> \<not> lt v (xs ! c))
      \<and> (0 < h \<longrightarrow> (\<forall>c. 0 < c \<and> c < length xs \<and> (c - 1) div 2 = h
             \<longrightarrow> \<not> lt (xs ! ((h - 1) div 2)) (xs ! c))))"

definition strict_weak :: "('a \<Rightarrow> 'a \<Rightarrow> bool) \<Rightarrow> bool" where
  "strict_weak lt = ((\<forall>a b. lt a b \<longrightarrow> \<not> lt b a)
                     \<and> (\<forall>a b c. \<not> lt a b \<and> \<not> lt b c \<longrightarrow> \<not> lt a c))"

definition strengthOrder :: "(nat \<Rightarrow> nat \<Rightarrow> int) \<Rightarrow> bool" where
  "strengthOrder cmp =
     ((\<forall>a b. cmp a b = 1 \<longrightarrow> cmp b a \<noteq> 1)
      \<and> (\<forall>a b c. cmp a b \<noteq> 1 \<and> cmp b c \<noteq> 1 \<longrightarrow> cmp a c \<noteq> 1)
      \<and> (\<forall>a b. a \<noteq> b \<longrightarrow> cmp a b = 1 \<or> cmp b a = 1))"

definition promote :: "Task \<Rightarrow> Task" where
  "promote t =
     (if task_type t = EvalNodeVariantFallback \<or> task_type t = EvalNodeVariantNoneFound
      then t\<lparr>task_type := EvalNodeVariantAuthored\<rparr> else t)"

definition strengthCmp :: "nat \<Rightarrow> nat \<Rightarrow> int" where
  "strengthCmp a b = (if a < b then -1 else if a = b then 0 else 1)"

section \<open>Nodes and the graph\<close>

text \<open>
  A layer offset is a pair of floating-point numbers; the indexer only asks whether it
  and its inverse are valid, and hands it on.
\<close>

record SdfLayerOffset =
  IsValid :: bool
  InverseIsValid :: bool
  offsetLabel :: string

definition identityLayerOffset :: SdfLayerOffset where
  "identityLayerOffset = \<lparr>IsValid = True, InverseIsValid = True, offsetLabel = ''''\<rparr>"

datatype PcpMapExpression =
  NullExpression
  | Identity
  | Constant "(AuthoredPath \<times> SdfPath) list" SdfLayerOffset
  | RelocatesAtPath PcpLayerStack SdfPath
  | Compose PcpMapExpression PcpMapExpression
  | AddRootIdentity PcpMapExpression

definition IsNull :: "PcpMapExpression \<Rightarrow> bool" where
  "IsNull e = (e = NullExpression)"

record PcpArc =
  arc_type :: PcpArcType
  arc_mapToParent :: PcpMapExpression
  arc_parent :: nat
  arc_origin :: nat
  arc_namespaceDepth :: int
  arc_siblingNumAtOrigin :: int

text \<open>
  Modelled from the spec: \<open>PcpPrimIndex_Graph\<close> and \<open>PcpNodeRef\<close> are declared outside
  the indexer. Nodes are stored in a flat pool indexed by increasing integers, a node
  reference is an index into the pool of its graph, the root node has index 0, a child
  always has a higher index than its parent, and the children of a node are listed in
  strength order. Each node carries its arc type, its site, parent and origin, and the
  flags inert, culled, restricted, has-specs, has-symmetry and permission.
\<close>

record PcpNode =
  node_arcType :: PcpArcType
  node_site :: PcpLayerStackSite
  parentIndex :: "nat option"
  originIndex :: "nat option"
  childIndices :: "nat list"
  nodeMapToParent :: PcpMapExpression
  inert :: bool
  culled :: bool
  restricted :: bool
  hasSpecs :: bool
  hasSymmetry :: bool
  permission :: SdfPermission

record PcpPrimIndex_Graph =
  nodes :: "PcpNode list"
  hasPayloads :: bool

definition GetRootNode :: "PcpPrimIndex_Graph \<Rightarrow> nat" where
  "GetRootNode g = 0"

definition GetParentNode :: "PcpPrimIndex_Graph \<Rightarrow> nat \<Rightarrow> nat option" where
  "GetParentNode g n =
     (case parentIndex (nodes g ! n) of
        None \<Rightarrow> None
      | Some p \<Rightarrow> if p < n then Some p else None)"

definition GetOriginNode :: "PcpPrimIndex_Graph \<Rightarrow> nat \<Rightarrow> nat option" where
  "GetOriginNode g n = originIndex (nodes g ! n)"

definition IsRootNode :: "PcpPrimIndex_Graph \<Rightarrow> nat \<Rightarrow> bool" where
  "IsRootNode g n = (GetParentNode g n = None)"

definition Pcp_GetChildrenRange :: "PcpPrimIndex_Graph \<Rightarrow> nat \<Rightarrow> nat list" where
  "Pcp_GetChildrenRange g n =
     filter (\<lambda>c. n < c \<and> c < length (nodes g)) (childIndices (nodes g ! n))"

definition GetSite :: "PcpPrimIndex_Graph \<Rightarrow> nat \<Rightarrow> PcpLayerStackSite" where
  "GetSite g n = node_site (nodes g ! n)"

definition GetPath :: "PcpPrimIndex_Graph \<Rightarrow> nat \<Rightarrow> SdfPath" where
  "GetPath g n = path (node_site (nodes g ! n))"

definition GetLayerStack :: "PcpPrimIndex_Graph \<Rightarrow> nat \<Rightarrow> PcpLayerStack" where
  "GetLayerStack g n = layerStack (node_site (nodes g ! n))"

definition GetArcType :: "PcpPrimIndex_Graph \<Rightarrow> nat \<Rightarrow> PcpArcType" where
  "GetArcType g n = node_arcType (nodes g ! n)"

definition IsInert :: "PcpPrimIndex_Graph \<Rightarrow> nat \<Rightarrow> bool" where
  "IsInert g n = inert (nodes g ! n)"

definition IsCulled :: "PcpPrimIndex_Graph \<Rightarrow> nat \<Rightarrow> bool" where
  "IsCulled g n = culled (nodes g ! n)"

definition HasSpecs :: "PcpPrimIndex_Graph \<Rightarrow> nat \<Rightarrow> bool" where
  "HasSpecs g n = hasSpecs (nodes g ! n)"

definition HasSymmetry :: "PcpPrimIndex_Graph \<Rightarrow> nat \<Rightarrow> bool" where
  "HasSymmetry g n = hasSymmetry (nodes g ! n)"

definition GetPermission :: "PcpPrimIndex_Graph \<Rightarrow> nat \<Rightarrow> SdfPermission" where
  "GetPermission g n = permission (nodes g ! n)"

definition SetInert :: "PcpPrimIndex_Graph \<Rightarrow> nat \<Rightarrow> bool \<Rightarrow> PcpPrimIndex_Graph" where
  "SetInert g n b = g\<lparr>nodes := (nodes g)[n := (nodes g ! n)\<lparr>inert := b\<rparr>]\<rparr>"

definition SetCulled :: "PcpPrimIndex_Graph \<Rightarrow> nat \<Rightarrow> bool \<Rightarrow> PcpPrimIndex_Graph" where
  "SetCulled g n b = g\<lparr>nodes := (nodes g)[n := (nodes g ! n)\<lparr>culled := b\<rparr>]\<rparr>"

definition SetRestricted :: "PcpPrimIndex_Graph \<Rightarrow> nat \<Rightarrow> bool \<Rightarrow> PcpPrimIndex_Graph" where
  "SetRestricted g n b = g\<lparr>nodes := (nodes g)[n := (nodes g ! n)\<lparr>restricted := b\<rparr>]\<rparr>"

definition SetHasSpecs :: "PcpPrimIndex_Graph \<Rightarrow> nat \<Rightarrow> bool \<Rightarrow> PcpPrimIndex_Graph" where
  "SetHasSpecs g n b = g\<lparr>nodes := (nodes g)[n := (nodes g ! n)\<lparr>hasSpecs := b\<rparr>]\<rparr>"

definition SetHasSymmetry :: "PcpPrimIndex_Graph \<Rightarrow> nat \<Rightarrow> bool \<Rightarrow> PcpPrimIndex_Graph" where
  "SetHasSymmetry g n b = g\<lparr>nodes := (nodes g)[n := (nodes g ! n)\<lparr>hasSymmetry := b\<rparr>]\<rparr>"

definition SetPermission :: "PcpPrimIndex_Graph \<Rightarrow> nat \<Rightarrow> SdfPermission \<Rightarrow> PcpPrimIndex_Graph" where
  "SetPermission g n p = g\<lparr>nodes := (nodes g)[n := (nodes g ! n)\<lparr>permission := p\<rparr>]\<rparr>"

definition SetHasPayloads :: "PcpPrimIndex_Graph \<Rightarrow> bool \<Rightarrow> PcpPrimIndex_Graph" where
  "SetHasPayloads g b = g\<lparr>hasPayloads := b\<rparr>"

text \<open>\<open>_GatherNodesRecursively\<close>: the nodes of a sub-tree, strongest first.\<close>

function GatherNodesRecursively :: "PcpPrimIndex_Graph \<Rightarrow> nat \<Rightarrow> nat list" where
  "GatherNodesRecursively g n =
     n # concat (map (GatherNodesRecursively g) (Pcp_GetChildrenRange g n))"
  by pat_completeness auto
termination
  by (relation "measure (\<lambda>(g, n). length (nodes g) - n)")
     (auto simp add: Pcp_GetChildrenRange_def)

declare GatherNodesRecursively.simps [simp del]

text \<open>
  \<open>_InertSubtree\<close> marks a node and, child by child, its whole sub-tree inert. Setting the
  flag leaves the shape of the graph alone, so the nodes it visits are those of
  \<open>GatherNodesRecursively\<close>, in that order.
\<close>

definition InertSubtree :: "PcpPrimIndex_Graph \<Rightarrow> nat \<Rightarrow> PcpPrimIndex_Graph" where
  "InertSubtree g n = fold (\<lambda>k g'. SetInert g' k True) (GatherNodesRecursively g n) g"

text \<open>The nodes from a node up to the root of its graph.\<close>

function parentChain :: "PcpPrimIndex_Graph \<Rightarrow> nat \<Rightarrow> nat list" where
  "parentChain g n =
     n # (case GetParentNode g n of None \<Rightarrow> [] | Some p \<Rightarrow> parentChain g p)"
  by pat_completeness auto
termination
  by (relation "measure (\<lambda>(g, n). n)")
     (auto simp add: GetParentNode_def split: option.splits if_splits)

declare parentChain.simps [simp del]

section \<open>The indexer\<close>

record PcpPrimIndexInputs =
  cull :: bool
  usd :: bool
  includedPayloads :: "SdfPath set option"
  includePayloadPredicate :: "(SdfPath \<Rightarrow> bool) option"
  variantFallbacks :: "(string \<times> string list) list"

datatype PayloadState =
  NoPayload | IncludedByPredicate | ExcludedByPredicate
  | IncludedByIncludeSet | ExcludedByIncludeSet

record PcpPrimIndex =
  graph :: PcpPrimIndex_Graph
  localErrors :: "PcpErrorVector option"

record PcpPrimIndexOutputs =
  primIndex :: PcpPrimIndex
  allErrors :: PcpErrorVector
  payloadState :: PayloadState
  culledDependencies :: "nat list"
  dynamicFileFormatDependency :: "string list"
  expressionVariablesDependency :: "(PcpLayerStack \<times> string list) list"

text \<open>
  Modelled from the spec: \<open>PcpPrimIndex_StackFrame\<close> and its iterator are declared
  outside the indexer. A frame links a recursive sub-index call to the call that made
  it: it records the requested site, the node of the enclosing graph that the sub-index
  will hang under (with that graph), the arc being built and the frame of the enclosing
  call. The chain of frames is a list here, innermost frame first, \<open>[]\<close> for the
  outermost call.
\<close>

record PcpPrimIndex_StackFrame =
  frame_requestedSite :: PcpLayerStackSite
  frame_parentNode :: nat
  frame_parentGraph :: PcpPrimIndex_Graph
  frame_arcToParent :: PcpArc
  frame_skipDuplicateNodes :: bool

type_synonym PcpPrimIndex_StackFrameIterator =
  "PcpPrimIndex_Graph \<times> nat \<times> PcpPrimIndex_StackFrame list"

text \<open>The iterator walks from a node to the root of its graph and on into the enclosing
  frames; \<open>None\<close> is the iterator whose node is null. \<open>Next\<close> steps to the parent node,
  \<open>NextFrame\<close> to the parent node of the enclosing frame; the arc type of the root of a
  sub-index is the type of the arc being built for it.\<close>

definition it_GetArcType :: "PcpPrimIndex_StackFrameIterator \<Rightarrow> PcpArcType" where
  "it_GetArcType j =
     (case j of (g, n, fs) \<Rightarrow>
        (case fs of
           [] \<Rightarrow> GetArcType g n
         | f # rest \<Rightarrow>
             if GetArcType g n \<noteq> PcpArcTypeRoot then GetArcType g n
             else arc_type (frame_arcToParent f)))"

definition it_NextFrame ::
  "PcpPrimIndex_StackFrameIterator \<Rightarrow> PcpPrimIndex_StackFrameIterator option" where
  "it_NextFrame j =
     (case j of (g, n, fs) \<Rightarrow>
        (case fs of [] \<Rightarrow> None | f # rest \<Rightarrow> Some (frame_parentGraph f, frame_parentNode f, rest)))"

definition it_Next ::
  "PcpPrimIndex_StackFrameIterator \<Rightarrow> PcpPrimIndex_StackFrameIterator option" where
  "it_Next j =
     (case j of (g, n, fs) \<Rightarrow>
        if GetArcType g n \<noteq> PcpArcTypeRoot
        then (case GetParentNode g n of None \<Rightarrow> None | Some p \<Rightarrow> Some (g, p, fs))
        else it_NextFrame j)"

record Pcp_PrimIndexer =
  rootSite :: PcpLayerStackSite
  ancestorRecursionDepth :: int
  inputs :: PcpPrimIndexInputs
  outputs :: PcpPrimIndexOutputs
  previousFrame :: "PcpPrimIndex_StackFrame list"
  tasks :: "Task list"
  taskUniq :: "Task set"
  evaluateImpliedSpecializes :: bool
  evaluateVariants :: bool

definition indexGraph :: "Pcp_PrimIndexer \<Rightarrow> PcpPrimIndex_Graph" where
  "indexGraph indexer = graph (primIndex (outputs indexer))"

definition setIndexGraph :: "Pcp_PrimIndexer \<Rightarrow> PcpPrimIndex_Graph \<Rightarrow> Pcp_PrimIndexer" where
  "setIndexGraph indexer g =
     indexer\<lparr>outputs := (outputs indexer)
       \<lparr>primIndex := (primIndex (outputs indexer))\<lparr>graph := g\<rparr>\<rparr>\<rparr>"

text \<open>\<open>Pcp_PrimIndexer::RecordError\<close> (member form): the error goes to the local errors
  of the index under construction and to \<open>allErrors\<close>.\<close>

definition indexer_RecordError :: "Pcp_PrimIndexer \<Rightarrow> PcpErrorBase \<Rightarrow> Pcp_PrimIndexer" where
  "indexer_RecordError indexer err =
     (case RecordError err (localErrors (primIndex (outputs indexer))) (allErrors (outputs indexer)) of
        (loc, all) \<Rightarrow>
          indexer\<lparr>outputs := (outputs indexer)
            \<lparr>primIndex := (primIndex (outputs indexer))\<lparr>localErrors := loc\<rparr>,
             allErrors := all\<rparr>\<rparr>)"

fun indexer_RecordErrors :: "Pcp_PrimIndexer \<Rightarrow> PcpErrorBase list \<Rightarrow> Pcp_PrimIndexer" where
  "indexer_RecordErrors indexer [] = indexer"
| "indexer_RecordErrors indexer (e # es) = indexer_RecordErrors (indexer_RecordError indexer e) es"

definition IsImpliedTaskType :: "TaskType \<Rightarrow> bool" where
  "IsImpliedTaskType taskType =
     (taskType = EvalImpliedClasses \<or> taskType = EvalImpliedSpecializes)"

text \<open>\<open>Pcp_PrimIndexer::AddTask\<close>.\<close>

definition AddTask :: "(nat \<Rightarrow> nat \<Rightarrow> int) \<Rightarrow> Pcp_PrimIndexer \<Rightarrow> Task \<Rightarrow> Pcp_PrimIndexer" where
  "AddTask cmp indexer task =
     (if \<not> IsImpliedTaskType (task_type task) \<or> task \<notin> taskUniq indexer
      then indexer
        \<lparr>tasks := push_heap (PriorityOrder cmp) (tasks indexer @ [task]) (length (tasks indexer) + 1),
         taskUniq := (if IsImpliedTaskType (task_type task) then insert task (taskUniq indexer)
                      else taskUniq indexer)\<rparr>
      else indexer)"

text \<open>
  What the indexer calls and this file does not define: the node accessors that are
  computed from the graph, the site composers, the graph operations that create nodes,
  layer resolution, and the recursive call that builds the sub-index of an arc's target.
  An indexing function takes them as the record \<open>env\<close>.
\<close>

record SdfReferenceOrPayload =
  GetAssetPath :: string
  GetPrimPath :: AuthoredPath
  GetLayerOffset :: SdfLayerOffset

record PcpSourceArcInfo =
  layer :: SdfLayer
  layerStackOffset :: SdfLayerOffset
  authoredAssetPath :: string

record Env =
  CanContributeSpecs :: "PcpNode \<Rightarrow> bool"
  PcpCompareNodeStrength :: "nat \<Rightarrow> nat \<Rightarrow> int"
  GetDepthBelowIntroduction :: "PcpPrimIndex_Graph \<Rightarrow> nat \<Rightarrow> int"
  GetPathAtIntroduction :: "PcpPrimIndex_Graph \<Rightarrow> nat \<Rightarrow> SdfPath"
  GetOriginRootNode :: "PcpPrimIndex_Graph \<Rightarrow> nat \<Rightarrow> nat"
  GetNodeUsingSite :: "PcpPrimIndex_Graph \<Rightarrow> PcpLayerStackSite \<Rightarrow> nat option"
  InsertChild ::
    "PcpPrimIndex_Graph \<Rightarrow> nat \<Rightarrow> PcpLayerStackSite \<Rightarrow> PcpArc
       \<Rightarrow> PcpPrimIndex_Graph \<times> nat option \<times> PcpErrorBase option"
  InsertChildSubgraph ::
    "PcpPrimIndex_Graph \<Rightarrow> nat \<Rightarrow> PcpPrimIndex_Graph \<Rightarrow> PcpArc
       \<Rightarrow> PcpPrimIndex_Graph \<times> nat option \<times> PcpErrorBase option"
  Pcp_BuildPrimIndex ::
    "PcpLayerStackSite \<Rightarrow> PcpLayerStackSite \<Rightarrow> int \<Rightarrow> bool \<Rightarrow> bool \<Rightarrow> bool
       \<Rightarrow> PcpPrimIndex_StackFrame list \<Rightarrow> PcpPrimIndexInputs \<Rightarrow> PcpPrimIndexOutputs"
  PcpComposeSiteHasPrimSpecs :: "PcpPrimIndex_Graph \<Rightarrow> nat \<Rightarrow> bool"
  PcpComposeSitePermission :: "PcpLayerStack \<Rightarrow> SdfPath \<Rightarrow> SdfPermission"
  PcpComposeSiteHasSymmetry :: "PcpLayerStack \<Rightarrow> SdfPath \<Rightarrow> bool"
  Pcp_AddCulledDependency :: "PcpPrimIndex_Graph \<Rightarrow> nat \<Rightarrow> nat list \<Rightarrow> nat list"
  AddTasksForNode :: "Pcp_PrimIndexer \<Rightarrow> nat \<Rightarrow> bool \<Rightarrow> bool \<Rightarrow> Task list \<times> Task set"
  PcpComposeSiteReferences ::
    "PcpPrimIndex_Graph \<Rightarrow> nat
       \<Rightarrow> (SdfReferenceOrPayload \<times> PcpSourceArcInfo) list \<times> string list \<times> PcpErrorBase list"
  PcpComposeSitePayloads ::
    "PcpPrimIndex_Graph \<Rightarrow> nat
       \<Rightarrow> (SdfReferenceOrPayload \<times> PcpSourceArcInfo) list \<times> string list \<times> PcpErrorBase list"
  PcpComposeSiteInherits :: "PcpPrimIndex_Graph \<Rightarrow> nat \<Rightarrow> AuthoredPath list"
  PcpComposeSiteSpecializes :: "PcpPrimIndex_Graph \<Rightarrow> nat \<Rightarrow> AuthoredPath list"
  PcpComposeSiteVariantSets :: "PcpPrimIndex_Graph \<Rightarrow> nat \<Rightarrow> string list"
  PcpComposeSiteVariantSetOptions :: "PcpPrimIndex_Graph \<Rightarrow> nat \<Rightarrow> string \<Rightarrow> string set"
  ComposeVariantSelection ::
    "Pcp_PrimIndexer \<Rightarrow> nat \<Rightarrow> SdfPath \<Rightarrow> string
       \<Rightarrow> string \<times> (PcpPrimIndex_Graph \<times> nat) \<times> Pcp_PrimIndexer"
  AddClassBasedArc ::
    "PcpArcType \<Rightarrow> nat \<Rightarrow> nat \<Rightarrow> PcpMapExpression \<Rightarrow> int \<Rightarrow> Pcp_PrimIndexer
       \<Rightarrow> Pcp_PrimIndexer"
  PcpIsNewDefaultStandinBehaviorEnabled :: bool
  IsLayerMuted :: "SdfLayer \<Rightarrow> string \<Rightarrow> string option"
  ComposeFieldsForFileFormatArguments ::
    "Pcp_PrimIndexer \<Rightarrow> nat \<Rightarrow> SdfReferenceOrPayload \<Rightarrow> string list \<times> string list"
  FindOrOpen :: "string \<Rightarrow> string list \<Rightarrow> SdfLayer option \<times> string"
  ComputeLayerStack ::
    "SdfLayer \<Rightarrow> PcpPrimIndex_Graph \<Rightarrow> nat \<Rightarrow> PcpLayerStack \<times> PcpErrorBase list"
  combineLayerOffsets :: "SdfLayerOffset \<Rightarrow> SdfLayerOffset \<Rightarrow> SdfLayerOffset"
  scaleLayerOffset :: "SdfLayer \<Rightarrow> PcpLayerStack \<Rightarrow> SdfLayerOffset \<Rightarrow> SdfLayerOffset"
  IsValidIdentifier :: "string \<Rightarrow> bool"

section \<open>Cycle check\<close>

text \<open>The functions of the indexer keep their names, without the leading underscore.\<close>

definition HasAncestorCycle :: "PcpLayerStackSite \<Rightarrow> PcpLayerStackSite \<Rightarrow> bool" where
  "HasAncestorCycle parentNodeSite childNodeSite =
     (layerStack parentNodeSite = layerStack childNodeSite
      \<and> (HasPrefix (path parentNodeSite) (path childNodeSite)
          \<or> HasPrefix (path childNodeSite) (path parentNodeSite)))"

function FindAncestorCycleInParentGraph ::
  "PcpPrimIndex_Graph \<Rightarrow> nat \<Rightarrow> PcpLayerStackSite \<Rightarrow> bool" where
  "FindAncestorCycleInParentGraph g n childNodeSite =
     (if HasAncestorCycle (GetSite g n) childNodeSite then True
      else (case GetParentNode g n of
              None \<Rightarrow> False
            | Some p \<Rightarrow> FindAncestorCycleInParentGraph g p childNodeSite))"
  by pat_completeness auto
termination
  by (relation "measure (\<lambda>(g, n, s). n)")
     (auto simp add: GetParentNode_def split: option.splits if_splits)

declare FindAncestorCycleInParentGraph.simps [simp del]

definition IsImpliedClassBasedArc :: "PcpArcType \<Rightarrow> nat \<Rightarrow> nat \<Rightarrow> bool" where
  "IsImpliedClassBasedArc arcType parent origin = (PcpIsClassBasedArc arcType \<and> parent \<noteq> origin)"

text \<open>The walks of \<open>_CheckForCycle\<close>: across the class arcs above the parent; from frame
  to frame, translating the path of the child site into each enclosing frame; and from
  the parent to the outermost root, collecting the arcs of the error.\<close>

function SkipParentClassArcs ::
  "nat \<Rightarrow> nat \<Rightarrow> PcpPrimIndex_StackFrameIterator \<Rightarrow> PcpPrimIndex_StackFrameIterator option" where
  "SkipParentClassArcs parent origin j =
     (if IsImpliedClassBasedArc (it_GetArcType j) parent origin
      then (case it_Next j of
              None \<Rightarrow> None
            | Some j' \<Rightarrow> SkipParentClassArcs parent origin j')
      else Some j)"
  by pat_completeness auto
termination
  by (relation "measures [\<lambda>(p, o', g, n, fs). length fs, \<lambda>(p, o', g, n, fs). n]")
     (auto simp add: it_Next_def it_NextFrame_def GetParentNode_def
           split: option.splits if_splits list.splits)

declare SkipParentClassArcs.simps [simp del]

fun FindCycleAcrossFrames ::
  "PcpPrimIndex_StackFrame list \<Rightarrow> PcpPrimIndex_Graph \<Rightarrow> nat \<Rightarrow> PcpLayerStackSite \<Rightarrow> bool" where
  "FindCycleAcrossFrames [] g n childSiteInStackFrame =
     FindAncestorCycleInParentGraph g n childSiteInStackFrame"
| "FindCycleAcrossFrames (f # rest) g n childSiteInStackFrame =
     (if FindAncestorCycleInParentGraph g n childSiteInStackFrame then True
      else
        (let requestedPathForCurrentGraph = path (frame_requestedSite f);
             currentPathForCurrentGraph = GetPath g (GetRootNode g)
         in FindCycleAcrossFrames rest (frame_parentGraph f) (frame_parentNode f)
              (childSiteInStackFrame
                 \<lparr>path :=
                    (if currentPathForCurrentGraph = path childSiteInStackFrame
                     then requestedPathForCurrentGraph
                     else ReplacePrefix requestedPathForCurrentGraph
                            currentPathForCurrentGraph (path childSiteInStackFrame))\<rparr>)))"

function CycleSegments :: "PcpPrimIndex_StackFrameIterator \<Rightarrow> PcpSiteTrackerSegment list" where
  "CycleSegments i =
     (GetSite (fst i) (fst (snd i)), it_GetArcType i)
       # (case it_Next i of None \<Rightarrow> [] | Some i' \<Rightarrow> CycleSegments i')"
  by pat_completeness auto
termination
  by (relation "measures [\<lambda>(g, n, fs). length fs, \<lambda>(g, n, fs). n]")
     (auto simp add: it_Next_def it_NextFrame_def GetParentNode_def
           split: option.splits if_splits list.splits)

declare CycleSegments.simps [simp del]

definition CheckForCycle ::
  "PcpPrimIndex_Graph \<Rightarrow> nat \<Rightarrow> nat \<Rightarrow> PcpArcType \<Rightarrow> PcpLayerStackSite
     \<Rightarrow> PcpPrimIndex_StackFrame list \<Rightarrow> PcpErrorBase option" where
  "CheckForCycle g parent origin arcType childSite prevFrame =
     (if IsImpliedClassBasedArc arcType parent origin
         \<and> (case SkipParentClassArcs parent origin (g, parent, prevFrame) of
               None \<Rightarrow> False
             | Some j \<Rightarrow> it_GetArcType j = PcpArcTypeRelocate)
      then None
      else if arcType = PcpArcTypeVariant then None
      else if FindCycleAcrossFrames prevFrame g parent childSite
      then (let cycle = rev (CycleSegments (g, parent, prevFrame))
            in Some \<lparr>errorType = PcpErrorType_ArcCycle,
                     err_rootSite = Some (fst (hd cycle)),
                     details = ArcCycleDetails (cycle @ [(childSite, arcType)])\<rparr>)
      else None)"

section \<open>Culling\<close>

definition NodeCanBeCulled ::
  "Env \<Rightarrow> PcpPrimIndex_Graph \<Rightarrow> nat \<Rightarrow> PcpLayerStackSite \<Rightarrow> bool" where
  "NodeCanBeCulled env g node rootLayerStack =
     (if IsCulled g node then True
      else if IsRootNode g node then False
      else if GetDepthBelowIntroduction env g node = 0 then False
      else if HasSymmetry g node then False
      else if GetArcType g node = PcpArcTypeInherit
              \<and> GetLayerStack g node = layerStack rootLayerStack
              \<and> \<not> IsRootPrimPath
                    (GetPathAtIntroduction env g
                       (if GetOriginNode g node = GetParentNode g node then node
                        else GetOriginRootNode env g node))
      then False
      else if list_ex (\<lambda>child. \<not> IsCulled g child) (Pcp_GetChildrenRange g node) then False
      else if HasSpecs g node \<and> CanContributeSpecs env (nodes g ! node) then False
      else True)"

text \<open>\<open>_CullSubtreesWithNoOpinions\<close> visits the children before their parent and stays out
  of the sub-trees of specializes arcs; marking a node culled leaves the shape of the
  graph alone, so the order of the visits is fixed beforehand.\<close>

function CullVisitOrder :: "PcpPrimIndex_Graph \<Rightarrow> nat \<Rightarrow> nat list" where
  "CullVisitOrder g n =
     concat (map (CullVisitOrder g)
               (filter (\<lambda>child. \<not> PcpIsSpecializeArc (GetArcType g child))
                  (Pcp_GetChildrenRange g n)))
     @ [n]"
  by pat_completeness auto
termination
  by (relation "measure (\<lambda>(g, n). length (nodes g) - n)")
     (auto simp add: Pcp_GetChildrenRange_def)

declare CullVisitOrder.simps [simp del]

definition CullSubtreesWithNoOpinions ::
  "Env \<Rightarrow> PcpPrimIndex_Graph \<Rightarrow> nat \<Rightarrow> PcpLayerStackSite \<Rightarrow> PcpPrimIndex_Graph" where
  "CullSubtreesWithNoOpinions env g node rootLayerStack =
     fold (\<lambda>k g'. if NodeCanBeCulled env g' k rootLayerStack then SetCulled g' k True else g')
       (CullVisitOrder g node) g"

section \<open>Adding an arc\<close>

text \<open>The loop of \<open>_AddArc\<close> that looks for a node at the new site in the graph of every
  frame, translating the path from frame to frame.\<close>

fun FindDuplicateNode ::
  "Env \<Rightarrow> PcpPrimIndex_StackFrame list \<Rightarrow> PcpPrimIndex_Graph \<Rightarrow> PcpLayerStackSite \<Rightarrow> bool" where
  "FindDuplicateNode env [] currentGraph siteToAddInCurrentGraph =
     (GetNodeUsingSite env currentGraph siteToAddInCurrentGraph \<noteq> None)"
| "FindDuplicateNode env (f # rest) currentGraph siteToAddInCurrentGraph =
     (if GetNodeUsingSite env currentGraph siteToAddInCurrentGraph \<noteq> None then True
      else FindDuplicateNode env rest (frame_parentGraph f)
             (siteToAddInCurrentGraph
                \<lparr>path := ReplacePrefix (path (frame_requestedSite f))
                            (GetPath currentGraph (GetRootNode currentGraph))
                            (path siteToAddInCurrentGraph)\<rparr>))"

text \<open>\<open>std::map::lower_bound\<close> on a map kept as the list of its entries in key order:
  the first entry whose key is not less than the given one.\<close>

definition lower_bound :: "(SdfPath \<times> SdfPath) list \<Rightarrow> SdfPath \<Rightarrow> (SdfPath \<times> SdfPath) option" where
  "lower_bound m k = find (\<lambda>entry. \<not> fst entry < k) m"

text \<open>The salted-earth block of \<open>_AddArc\<close>: the value of
  \<open>directNodeShouldContributeSpecs\<close> after it.\<close>

definition SaltedEarth :: "PcpLayerStackSite \<Rightarrow> bool \<Rightarrow> bool \<Rightarrow> bool" where
  "SaltedEarth childSite directNodeShouldContributeSpecs includeAncestralOpinions =
     (if directNodeShouldContributeSpecs \<and> includeAncestralOpinions
      then (case lower_bound (relocatesSourceToTarget (layerStack childSite)) (path childSite) of
              None \<Rightarrow> directNodeShouldContributeSpecs
            | Some i \<Rightarrow>
                if HasPrefix (fst i) (path childSite) then False
                else directNodeShouldContributeSpecs)
      else directNodeShouldContributeSpecs)"

definition AddCulledDependencies ::
  "Env \<Rightarrow> PcpPrimIndex_Graph \<Rightarrow> nat \<Rightarrow> nat list \<Rightarrow> nat list" where
  "AddCulledDependencies env g node culledDeps =
     fold (\<lambda>k deps. if IsCulled g k then Pcp_AddCulledDependency env g k deps else deps)
       (GatherNodesRecursively g node) culledDeps"

text \<open>\<open>PcpPrimIndexOutputs::Append\<close>.\<close>

definition Append ::
  "Env \<Rightarrow> PcpPrimIndexOutputs \<Rightarrow> PcpPrimIndexOutputs \<Rightarrow> PcpArc
     \<Rightarrow> PcpPrimIndexOutputs \<times> nat option \<times> PcpErrorBase option" where
  "Append env out childOutputs arcToParent =
     (case InsertChildSubgraph env (graph (primIndex out)) (arc_parent arcToParent)
             (graph (primIndex childOutputs)) arcToParent of
        (g, newNode, error) \<Rightarrow>
          (case newNode of
             None \<Rightarrow> (out\<lparr>primIndex := (primIndex out)\<lparr>graph := g\<rparr>\<rparr>, None, error)
           | Some n \<Rightarrow>
               (out\<lparr>primIndex := (primIndex out)
                      \<lparr>graph := (if hasPayloads (graph (primIndex childOutputs))
                                  then SetHasPayloads g True else g)\<rparr>,
                    dynamicFileFormatDependency :=
                      dynamicFileFormatDependency out @ dynamicFileFormatDependency childOutputs,
                    expressionVariablesDependency :=
                      expressionVariablesDependency out @ expressionVariablesDependency childOutputs,
                    culledDependencies := culledDependencies out @ culledDependencies childOutputs,
                    allErrors := allErrors out @ allErrors childOutputs,
                    payloadState :=
                      (if payloadState childOutputs = NoPayload then payloadState out
                       else if payloadState out = NoPayload then payloadState childOutputs
                       else payloadState out)\<rparr>,
                Some n, error)))"

function ClearCulledAncestors :: "PcpPrimIndex_Graph \<Rightarrow> nat \<Rightarrow> PcpPrimIndex_Graph" where
  "ClearCulledAncestors g p =
     (if IsCulled g p
      then (case GetParentNode (SetCulled g p False) p of
              None \<Rightarrow> SetCulled g p False
            | Some q \<Rightarrow> ClearCulledAncestors (SetCulled g p False) q)
      else g)"
  by pat_completeness auto
termination
  by (relation "measure (\<lambda>(g, p). p)")
     (auto simp add: GetParentNode_def split: option.splits if_splits)

declare ClearCulledAncestors.simps [simp del]

text \<open>The two ways \<open>_AddArc\<close> creates the node: a single leaf node, or the sub-index of
  the target site built by a recursive call and grafted under the parent. Each gives the
  indexer afterwards, the new node and the error of the graph operation.\<close>

definition AddArc_leaf ::
  "Env \<Rightarrow> Pcp_PrimIndexer \<Rightarrow> nat \<Rightarrow> PcpLayerStackSite \<Rightarrow> PcpArc \<Rightarrow> bool
     \<Rightarrow> Pcp_PrimIndexer \<times> nat option \<times> PcpErrorBase option" where
  "AddArc_leaf env indexer parent childSite newArc directNodeShouldContributeSpecs =
     (case InsertChild env (indexGraph indexer) parent childSite newArc of
        (g, newNode, newNodeError) \<Rightarrow>
          (case newNode of
             None \<Rightarrow> (setIndexGraph indexer g, None, newNodeError)
           | Some n \<Rightarrow>
               (let g1 = SetInert g n (\<not> directNodeShouldContributeSpecs);
                    g2 = SetHasSpecs g1 n (PcpComposeSiteHasPrimSpecs env g1 n);
                    g3 = (if \<not> IsInert g2 n \<and> HasSpecs g2 n \<and> \<not> usd (inputs indexer)
                          then SetHasSymmetry
                                 (SetPermission g2 n
                                    (PcpComposeSitePermission env (layerStack childSite) (path childSite)))
                                 n (PcpComposeSiteHasSymmetry env (layerStack childSite) (path childSite))
                          else g2)
                in (setIndexGraph indexer g3, Some n, newNodeError))))"

definition AddArc_subtree ::
  "Env \<Rightarrow> Pcp_PrimIndexer \<Rightarrow> nat \<Rightarrow> PcpLayerStackSite \<Rightarrow> PcpArc \<Rightarrow> bool \<Rightarrow> bool
     \<Rightarrow> Pcp_PrimIndexer \<times> nat option \<times> PcpErrorBase option" where
  "AddArc_subtree env indexer parent childSite newArc directNodeShouldContributeSpecs
       skipDuplicateNodes =
     (let frame = \<lparr>frame_requestedSite = childSite, frame_parentNode = parent,
                   frame_parentGraph = indexGraph indexer, frame_arcToParent = newArc,
                   frame_skipDuplicateNodes = skipDuplicateNodes\<rparr>;
          childOutputs = Pcp_BuildPrimIndex env childSite (rootSite indexer)
                           (ancestorRecursionDepth indexer) False False
                           directNodeShouldContributeSpecs
                           (frame # previousFrame indexer) (inputs indexer)
      in (case Append env (outputs indexer) childOutputs newArc of
            (out, newNode, newNodeError) \<Rightarrow>
              (case newNode of
                 None \<Rightarrow> (indexer\<lparr>outputs := out\<rparr>, None, newNodeError)
               | Some n \<Rightarrow>
                   (indexer\<lparr>outputs :=
                      (if previousFrame indexer = []
                       then out\<lparr>culledDependencies :=
                                  AddCulledDependencies env (graph (primIndex out)) n
                                    (culledDependencies out)\<rparr>
                       else out)\<rparr>,
                    Some n, newNodeError))))"

text \<open>\<open>_AddArc\<close> after the node is created: errors, culling, tasks, and the two rules
  that mark the new sub-tree inert.\<close>

definition AddArc_finish ::
  "Env \<Rightarrow> PcpArcType \<Rightarrow> nat \<Rightarrow> bool \<Rightarrow> bool \<Rightarrow> bool
     \<Rightarrow> Pcp_PrimIndexer \<times> nat option \<times> PcpErrorBase option
     \<Rightarrow> nat option \<times> Pcp_PrimIndexer" where
  "AddArc_finish env arcType parent includeAncestralOpinions
       skipImpliedSpecializesCompletedNodes skipTasksForExpressedArcs created =
     (case created of (indexer0, newNodeOpt, newNodeError) \<Rightarrow>
        (let indexer1 =
               (case newNodeError of
                  None \<Rightarrow> indexer0
                | Some e \<Rightarrow>
                    indexer_RecordError indexer0 (e\<lparr>err_rootSite := Some (rootSite indexer0)\<rparr>))
         in (case newNodeOpt of
               None \<Rightarrow> (None, indexer1)
             | Some newNode \<Rightarrow>
                 (let indexer2 =
                        (if cull (inputs indexer1)
                         then (if NodeCanBeCulled env (indexGraph indexer1) newNode (rootSite indexer1)
                               then setIndexGraph indexer1 (SetCulled (indexGraph indexer1) newNode True)
                               else setIndexGraph indexer1
                                      (ClearCulledAncestors (indexGraph indexer1) parent))
                         else indexer1);
                      queued = AddTasksForNode env indexer2 newNode
                                 (skipTasksForExpressedArcs \<or> includeAncestralOpinions)
                                 skipImpliedSpecializesCompletedNodes;
                      indexer3 = indexer2\<lparr>tasks := fst queued, taskUniq := snd queued\<rparr>;
                      indexer4 =
                        (if GetPermission (indexGraph indexer3) newNode = SdfPermissionPrivate
                         then (let indexer' =
                                     indexer_RecordError indexer3
                                       \<lparr>errorType = PcpErrorType_ArcPermissionDenied,
                                        err_rootSite =
                                          Some (GetSite (indexGraph indexer3)
                                                  (GetRootNode (indexGraph indexer3))),
                                        details = ArcPermissionDeniedDetails
                                          (GetSite (indexGraph indexer3) parent)
                                          (GetSite (indexGraph indexer3) newNode) arcType\<rparr>
                               in setIndexGraph indexer' (InertSubtree (indexGraph indexer') newNode))
                         else indexer3);
                      indexer5 =
                        (if GetPath (indexGraph indexer4) newNode = AbsoluteRootPath
                         then setIndexGraph indexer4 (InertSubtree (indexGraph indexer4) newNode)
                         else indexer4)
                  in (Some newNode, indexer5)))))"

text \<open>\<open>_AddArc\<close>, the form with all the parameters. It returns the new node, or \<open>None\<close>
  where the source returns the null node reference, and the indexer afterwards.\<close>

definition AddArc ::
  "Env \<Rightarrow> PcpArcType \<Rightarrow> nat \<Rightarrow> nat \<Rightarrow> PcpLayerStackSite \<Rightarrow> PcpMapExpression \<Rightarrow> int \<Rightarrow> int
     \<Rightarrow> bool \<Rightarrow> bool \<Rightarrow> bool \<Rightarrow> bool \<Rightarrow> bool \<Rightarrow> Pcp_PrimIndexer
     \<Rightarrow> nat option \<times> Pcp_PrimIndexer" where
  "AddArc env arcType parent origin childSite mapExpr arcSiblingNum namespaceDepth
       directNodeShouldContributeSpecs includeAncestralOpinions skipDuplicateNodes
       skipImpliedSpecializesCompletedNodes skipTasksForExpressedArcs indexer =
     (if IsNull mapExpr then (None, indexer)
      else
        (case CheckForCycle (indexGraph indexer) parent origin arcType childSite
                (previousFrame indexer) of
           Some err \<Rightarrow> (None, indexer_RecordError indexer err)
         | None \<Rightarrow>
             (let skipDuplicateNodes' =
                    (skipDuplicateNodes
                     \<or> (case previousFrame indexer of
                           [] \<Rightarrow> False
                         | f # rest \<Rightarrow> frame_skipDuplicateNodes f))
              in if skipDuplicateNodes'
                    \<and> FindDuplicateNode env (previousFrame indexer) (indexGraph indexer) childSite
                 then (None, indexer)
                 else
                   (let direct = SaltedEarth childSite directNodeShouldContributeSpecs
                                   includeAncestralOpinions;
                        newArc = \<lparr>arc_type = arcType, arc_mapToParent = mapExpr,
                                  arc_parent = parent, arc_origin = origin,
                                  arc_namespaceDepth = namespaceDepth,
                                  arc_siblingNumAtOrigin = arcSiblingNum\<rparr>
                    in AddArc_finish env arcType parent includeAncestralOpinions
                         skipImpliedSpecializesCompletedNodes skipTasksForExpressedArcs
                         (if \<not> includeAncestralOpinions
                          then AddArc_leaf env indexer parent childSite newArc direct
                          else AddArc_subtree env indexer parent childSite newArc direct
                                 skipDuplicateNodes')))))"

text \<open>\<open>_AddArc\<close>, the form that takes the namespace depth from the parent's path.\<close>

definition AddArc' ::
  "Env \<Rightarrow> PcpArcType \<Rightarrow> nat \<Rightarrow> nat \<Rightarrow> PcpLayerStackSite \<Rightarrow> PcpMapExpression \<Rightarrow> int
     \<Rightarrow> bool \<Rightarrow> bool \<Rightarrow> bool \<Rightarrow> Pcp_PrimIndexer \<Rightarrow> nat option \<times> Pcp_PrimIndexer" where
  "AddArc' env arcType parent origin childSite mapExpr arcSiblingNum
       directNodeShouldContributeSpecs includeAncestralOpinions skipDuplicateNodes indexer =
     AddArc env arcType parent origin childSite mapExpr arcSiblingNum
       (PcpNode_GetNonVariantPathElementCount (GetPath (indexGraph indexer) parent))
       directNodeShouldContributeSpecs includeAncestralOpinions skipDuplicateNodes
       False False indexer"

section \<open>References and payloads\<close>

definition GetDefaultPrimPath :: "Env \<Rightarrow> SdfLayer \<Rightarrow> SdfPath option" where
  "GetDefaultPrimPath env targetLayer =
     (if IsValidIdentifier env (defaultPrim targetLayer)
      then Some (AbsoluteRootPath @ [PrimChild (defaultPrim targetLayer)])
      else None)"

definition CreateMapExpressionForArc ::
  "AuthoredPath \<Rightarrow> PcpPrimIndex_Graph \<Rightarrow> nat \<Rightarrow> PcpPrimIndexInputs \<Rightarrow> SdfLayerOffset
     \<Rightarrow> PcpMapExpression" where
  "CreateMapExpressionForArc sourcePath g targetNode inp offset =
     (let targetPath = StripAllVariantSelections (GetPath g targetNode);
          arcExpr = Constant [(sourcePath, targetPath)] offset
      in if \<not> usd inp
         then Compose (RelocatesAtPath (GetLayerStack g targetNode) targetPath) arcExpr
         else arcExpr)"

definition PrimSpecExistsUnderNode :: "PcpPrimIndex_Graph \<Rightarrow> nat \<Rightarrow> bool" where
  "PrimSpecExistsUnderNode g node = list_ex (HasSpecs g) (GatherNodesRecursively g node)"

text \<open>
  One round of the loop of \<open>_EvalRefOrPayloadArcs\<close>, for the arc number \<open>arcNum\<close>. The
  first part validates the arc and finds the layer and layer stack it targets: \<open>Inl\<close> is
  the indexer where the source moves on to the next arc, \<open>Inr\<close> carries the target layer,
  the target layer stack and the layer offset on.
\<close>

definition ResolveRefOrPayloadTarget ::
  "Env \<Rightarrow> PcpArcType \<Rightarrow> nat \<Rightarrow> SdfReferenceOrPayload \<Rightarrow> PcpSourceArcInfo \<Rightarrow> Pcp_PrimIndexer
     \<Rightarrow> Pcp_PrimIndexer + (SdfLayer \<times> PcpLayerStack \<times> SdfLayerOffset \<times> Pcp_PrimIndexer)" where
  "ResolveRefOrPayloadTarget env ARC_TYPE node refOrPayload info indexer =
     (let g = indexGraph indexer;
          srcLayer = layer info;
          fail = (\<not> IsEmpty (GetPrimPath refOrPayload)
                  \<and> \<not> (IsAbsolutePath (GetPrimPath refOrPayload)
                        \<and> IsPrimPath (GetPrimPath refOrPayload)
                        \<and> \<not> AuthoredContainsPrimVariantSelection (GetPrimPath refOrPayload)));
          indexer1 =
            (if fail
             then indexer_RecordError indexer
                    \<lparr>errorType = PcpErrorType_InvalidPrimPath,
                     err_rootSite = Some (GetSite g (GetRootNode g)),
                     details = InvalidPrimPathDetails (GetSite g node)
                                 (GetPrimPath refOrPayload) ARC_TYPE\<rparr>
             else indexer);
          badOffset = (\<not> IsValid (GetLayerOffset refOrPayload)
                       \<or> \<not> InverseIsValid (GetLayerOffset refOrPayload));
          indexer2 =
            (if badOffset
             then indexer_RecordError indexer1
                    \<lparr>errorType = PcpErrorType_InvalidReferenceOffset,
                     err_rootSite = Some (GetSite g (GetRootNode g)),
                     details = InvalidReferenceOffsetDetails (GetPath g node)
                                 (authoredAssetPath info) ARC_TYPE\<rparr>
             else indexer1);
          layerOffset =
            (if badOffset then identityLayerOffset
             else combineLayerOffsets env (layerStackOffset info) (GetLayerOffset refOrPayload))
      in if fail then Inl indexer2
         else if GetAssetPath refOrPayload = ''''
         then Inr (rootLayer (GetLayerStack g node), GetLayerStack g node, layerOffset, indexer2)
         else
           (case IsLayerMuted env srcLayer (authoredAssetPath info) of
              Some canonicalMutedLayerId \<Rightarrow>
                Inl (indexer_RecordError indexer2
                       \<lparr>errorType = PcpErrorType_MutedAssetPath,
                        err_rootSite = Some (GetSite g (GetRootNode g)),
                        details = AssetPathDetails (GetSite g node)
                                    (authoredAssetPath info) ARC_TYPE\<rparr>)
            | None \<Rightarrow>
                (let composed =
                       (if ARC_TYPE = PcpArcTypePayload
                        then ComposeFieldsForFileFormatArguments env indexer2 node refOrPayload
                        else ([], []));
                     indexer3 =
                       indexer2\<lparr>outputs := (outputs indexer2)
                         \<lparr>dynamicFileFormatDependency :=
                            dynamicFileFormatDependency (outputs indexer2) @ snd composed\<rparr>\<rparr>
                 in (case FindOrOpen env (GetAssetPath refOrPayload) (fst composed) of
                       (None, messages) \<Rightarrow>
                         Inl (indexer_RecordError indexer3
                                \<lparr>errorType = PcpErrorType_InvalidAssetPath,
                                 err_rootSite = Some (GetSite g (GetRootNode g)),
                                 details = AssetPathDetails (GetSite g node)
                                             (authoredAssetPath info) ARC_TYPE\<rparr>)
                     | (Some targetLayer, messages) \<Rightarrow>
                         (case ComputeLayerStack env targetLayer g node of
                            (targetLayerStack, stackErrors) \<Rightarrow>
                              Inr (targetLayer, targetLayerStack,
                                   scaleLayerOffset env srcLayer targetLayerStack layerOffset,
                                   indexer3\<lparr>outputs := (outputs indexer3)
                                     \<lparr>allErrors := allErrors (outputs indexer3) @ stackErrors\<rparr>\<rparr>))))))"

definition EvalRefOrPayloadArc ::
  "Env \<Rightarrow> PcpArcType \<Rightarrow> nat \<Rightarrow> nat \<Rightarrow> SdfReferenceOrPayload \<times> PcpSourceArcInfo
     \<Rightarrow> Pcp_PrimIndexer \<Rightarrow> Pcp_PrimIndexer" where
  "EvalRefOrPayloadArc env ARC_TYPE node arcNum arcAndInfo indexer =
     (case ResolveRefOrPayloadTarget env ARC_TYPE node (fst arcAndInfo) (snd arcAndInfo) indexer of
        Inl indexer' \<Rightarrow> indexer'
      | Inr (targetLayer, targetLayerStack, layerOffset, indexer1) \<Rightarrow>
          (let refOrPayload = fst arcAndInfo;
               g = indexGraph indexer1;
               noDefaultPrim = (IsEmpty (GetPrimPath refOrPayload)
                                \<and> GetDefaultPrimPath env targetLayer = None);
               indexer2 =
                 (if noDefaultPrim
                  then indexer_RecordError indexer1
                         \<lparr>errorType = PcpErrorType_UnresolvedPrimPath,
                          err_rootSite = Some (GetSite g (GetRootNode g)),
                          details = UnresolvedPrimPathDetails (GetSite g node) None ARC_TYPE\<rparr>
                  else indexer1);
               directNodeShouldContributeSpecs = (\<not> noDefaultPrim);
               primPath =
                 (case GetPrimPath refOrPayload of
                    EmptyPath \<Rightarrow>
                      (case GetDefaultPrimPath env targetLayer of
                         None \<Rightarrow> AbsoluteRootPath
                       | Some defaultPrimPath \<Rightarrow> defaultPrimPath)
                  | AbsolutePath p \<Rightarrow> p
                  | OtherPath isAbs isPrim s \<Rightarrow> AbsoluteRootPath);
               mapExpr0 = CreateMapExpressionForArc (AbsolutePath primPath) g node
                            (inputs indexer2) layerOffset;
               mapExpr = (if GetAssetPath refOrPayload = '''' then AddRootIdentity mapExpr0
                          else mapExpr0);
               includeAncestralOpinions = (\<not> IsRootPrimPath primPath)
           in (case AddArc' env ARC_TYPE node node
                      \<lparr>layerStack = targetLayerStack, path = primPath\<rparr> mapExpr (int arcNum)
                      directNodeShouldContributeSpecs includeAncestralOpinions False indexer2 of
                 (None, indexer3) \<Rightarrow> indexer3
               | (Some newNode, indexer3) \<Rightarrow>
                   if \<not> PrimSpecExistsUnderNode (indexGraph indexer3) newNode
                   then indexer_RecordError indexer3
                          \<lparr>errorType = PcpErrorType_UnresolvedPrimPath,
                           err_rootSite = Some (GetSite (indexGraph indexer3)
                                                  (GetRootNode (indexGraph indexer3))),
                           details = UnresolvedPrimPathDetails (GetSite (indexGraph indexer3) node)
                                       (Some (path (GetSite (indexGraph indexer3) newNode)))
                                       ARC_TYPE\<rparr>
                   else indexer3)))"

definition EvalRefOrPayloadArcs ::
  "Env \<Rightarrow> PcpArcType \<Rightarrow> nat \<Rightarrow> (SdfReferenceOrPayload \<times> PcpSourceArcInfo) list
     \<Rightarrow> Pcp_PrimIndexer \<Rightarrow> Pcp_PrimIndexer" where
  "EvalRefOrPayloadArcs env ARC_TYPE node arcs indexer =
     fold (\<lambda>arcNum. EvalRefOrPayloadArc env ARC_TYPE node arcNum (arcs ! arcNum))
       [0..<length arcs] indexer"

definition AddExpressionVariableDependencies ::
  "Pcp_PrimIndexer \<Rightarrow> PcpLayerStack \<Rightarrow> string list \<Rightarrow> Pcp_PrimIndexer" where
  "AddExpressionVariableDependencies indexer ls exprVarDependencies =
     (if exprVarDependencies \<noteq> []
      then indexer\<lparr>outputs := (outputs indexer)
             \<lparr>expressionVariablesDependency :=
                expressionVariablesDependency (outputs indexer) @ [(ls, exprVarDependencies)]\<rparr>\<rparr>
      else indexer)"

definition EvalNodeReferences :: "Env \<Rightarrow> nat \<Rightarrow> Pcp_PrimIndexer \<Rightarrow> Pcp_PrimIndexer" where
  "EvalNodeReferences env node indexer =
     (if \<not> CanContributeSpecs env (nodes (indexGraph indexer) ! node) then indexer
      else
        (case PcpComposeSiteReferences env (indexGraph indexer) node of
           (refArcs, exprVarDependencies, errors) \<Rightarrow>
             EvalRefOrPayloadArcs env PcpArcTypeReference node refArcs
               (indexer_RecordErrors
                  (AddExpressionVariableDependencies indexer
                     (GetLayerStack (indexGraph indexer) node) exprVarDependencies)
                  errors)))"

text \<open>The test of \<open>_EvalNodePayloads\<close> for a payload met while the ancestors of the target
  of a sub-root reference or payload are being indexed.\<close>

definition IsAncestralPayloadOfSubrootReference :: "Pcp_PrimIndexer \<Rightarrow> bool" where
  "IsAncestralPayloadOfSubrootReference indexer =
     (case previousFrame indexer of
        [] \<Rightarrow> False
      | f # rest \<Rightarrow>
          (arc_type (frame_arcToParent f) = PcpArcTypePayload
           \<or> arc_type (frame_arcToParent f) = PcpArcTypeReference)
          \<and> GetSite (indexGraph indexer) (GetRootNode (indexGraph indexer))
               \<noteq> frame_requestedSite f)"

definition EvalNodePayloads :: "Env \<Rightarrow> nat \<Rightarrow> Pcp_PrimIndexer \<Rightarrow> Pcp_PrimIndexer" where
  "EvalNodePayloads env node indexer =
     (if \<not> CanContributeSpecs env (nodes (indexGraph indexer) ! node) then indexer
      else
        (case PcpComposeSitePayloads env (indexGraph indexer) node of
           (payloadArcs, exprVarDependencies, errors) \<Rightarrow>
             (let indexer1 =
                    indexer_RecordErrors
                      (AddExpressionVariableDependencies indexer
                         (GetLayerStack (indexGraph indexer) node) exprVarDependencies)
                      errors
              in if payloadArcs = [] then indexer1
                 else
                   (let indexer2 = setIndexGraph indexer1 (SetHasPayloads (indexGraph indexer1) True);
                        isAncestralPayloadOfSubrootReference =
                          IsAncestralPayloadOfSubrootReference indexer2
                    in if isAncestralPayloadOfSubrootReference
                       then EvalRefOrPayloadArcs env PcpArcTypePayload node payloadArcs indexer2
                       else
                         (case includedPayloads (inputs indexer2) of
                            None \<Rightarrow> indexer2
                          | Some included \<Rightarrow>
                              (let p = path (rootSite indexer2);
                                   composePayload =
                                     (case includePayloadPredicate (inputs indexer2) of
                                        Some pred \<Rightarrow> pred p
                                      | None \<Rightarrow> p \<in> included);
                                   indexer3 =
                                     indexer2\<lparr>outputs := (outputs indexer2)
                                       \<lparr>payloadState :=
                                          (case includePayloadPredicate (inputs indexer2) of
                                             Some pred \<Rightarrow>
                                               if composePayload then IncludedByPredicate
                                               else ExcludedByPredicate
                                           | None \<Rightarrow>
                                               if composePayload then IncludedByIncludeSet
                                               else ExcludedByIncludeSet)\<rparr>\<rparr>
                               in if \<not> composePayload then indexer3
                                  else EvalRefOrPayloadArcs env PcpArcTypePayload node
                                         payloadArcs indexer3))))))"

section \<open>Inherits and specializes\<close>

definition AddClassBasedArcs_step ::
  "Env \<Rightarrow> nat \<Rightarrow> PcpArcType \<Rightarrow> nat \<Rightarrow> AuthoredPath \<Rightarrow> Pcp_PrimIndexer \<Rightarrow> Pcp_PrimIndexer" where
  "AddClassBasedArcs_step env node arcType arcNum arcPath indexer =
     (let g = indexGraph indexer
      in if \<not> IsEmpty arcPath
            \<and> \<not> (IsPrimPath arcPath \<and> \<not> AuthoredContainsPrimVariantSelection arcPath)
         then indexer_RecordError indexer
                \<lparr>errorType = PcpErrorType_InvalidPrimPath,
                 err_rootSite = Some (GetSite g (GetRootNode g)),
                 details = InvalidPrimPathDetails (GetSite g node) arcPath arcType\<rparr>
         else AddClassBasedArc env arcType node node
                (AddRootIdentity
                   (CreateMapExpressionForArc arcPath g node (inputs indexer) identityLayerOffset))
                (int arcNum) indexer)"

definition AddClassBasedArcs ::
  "Env \<Rightarrow> nat \<Rightarrow> AuthoredPath list \<Rightarrow> PcpArcType \<Rightarrow> Pcp_PrimIndexer \<Rightarrow> Pcp_PrimIndexer" where
  "AddClassBasedArcs env node classArcs arcType indexer =
     fold (\<lambda>arcNum. AddClassBasedArcs_step env node arcType arcNum (classArcs ! arcNum))
       [0..<length classArcs] indexer"

definition EvalNodeInherits :: "Env \<Rightarrow> nat \<Rightarrow> Pcp_PrimIndexer \<Rightarrow> Pcp_PrimIndexer" where
  "EvalNodeInherits env node indexer =
     (if \<not> CanContributeSpecs env (nodes (indexGraph indexer) ! node) then indexer
      else AddClassBasedArcs env node (PcpComposeSiteInherits env (indexGraph indexer) node)
             PcpArcTypeInherit indexer)"

definition EvalNodeSpecializes :: "Env \<Rightarrow> nat \<Rightarrow> Pcp_PrimIndexer \<Rightarrow> Pcp_PrimIndexer" where
  "EvalNodeSpecializes env node indexer =
     (if \<not> CanContributeSpecs env (nodes (indexGraph indexer) ! node) then indexer
      else AddClassBasedArcs env node (PcpComposeSiteSpecializes env (indexGraph indexer) node)
             PcpArcTypeSpecialize indexer)"

section \<open>Variants\<close>

function HasPayloadAncestor :: "PcpPrimIndex_Graph \<Rightarrow> nat \<Rightarrow> bool" where
  "HasPayloadAncestor g n =
     (if GetArcType g n = PcpArcTypePayload then True
      else (case GetParentNode g n of
              None \<Rightarrow> False
            | Some p \<Rightarrow> HasPayloadAncestor g p))"
  by pat_completeness auto
termination
  by (relation "measure (\<lambda>(g, n). n)")
     (auto simp add: GetParentNode_def split: option.splits if_splits)

declare HasPayloadAncestor.simps [simp del]

text \<open>The loop of \<open>_ShouldUseVariantFallback\<close> over the layers of the root layer stack
  that come before its root layer, the session layers.\<close>

fun SelectionInSessionLayers ::
  "SdfLayer \<Rightarrow> SdfPath \<Rightarrow> string \<Rightarrow> string \<Rightarrow> SdfLayer list \<Rightarrow> bool" where
  "SelectionInSessionLayers rootLyr p vset vsel [] = False"
| "SelectionInSessionLayers rootLyr p vset vsel (l # ls) =
     (if l = rootLyr then False
      else if (case map_of (variantSelectionField l) p of
                 None \<Rightarrow> False
               | Some vselMap \<Rightarrow> map_of vselMap vset = Some vsel)
      then True
      else SelectionInSessionLayers rootLyr p vset vsel ls)"

definition ShouldUseVariantFallback ::
  "Env \<Rightarrow> Pcp_PrimIndexer \<Rightarrow> string \<Rightarrow> string \<Rightarrow> string \<Rightarrow> PcpPrimIndex_Graph \<times> nat \<Rightarrow> bool" where
  "ShouldUseVariantFallback env indexer vset vsel vselFallback nodeWithVsel =
     (if vselFallback = '''' then False
      else if vsel = '''' then True
      else if vset \<noteq> ''standin'' then False
      else if PcpIsNewDefaultStandinBehaviorEnabled env then False
      else if GetArcType (fst nodeWithVsel) (snd nodeWithVsel) = PcpArcTypeVariant
              \<and> IsPrimVariantSelectionPath (GetPath (fst nodeWithVsel) (snd nodeWithVsel))
              \<and> fst (GetVariantSelection (GetPath (fst nodeWithVsel) (snd nodeWithVsel))) = vset
      then False
      else if HasPayloadAncestor (fst nodeWithVsel) (snd nodeWithVsel) then True
      else if SelectionInSessionLayers (rootLayer (layerStack (rootSite indexer)))
                (path (rootSite indexer)) vset vsel (layers (layerStack (rootSite indexer)))
      then False
      else if GetArcType (fst nodeWithVsel) (snd nodeWithVsel) \<noteq> PcpArcTypeRoot then True
      else False)"

definition ChooseBestFallbackAmongOptions ::
  "string \<Rightarrow> string set \<Rightarrow> (string \<times> string list) list \<Rightarrow> string" where
  "ChooseBestFallbackAmongOptions vset vsetOptions fallbacks =
     (case map_of fallbacks vset of
        None \<Rightarrow> ''''
      | Some vsels \<Rightarrow>
          (case find (\<lambda>vselIt. vselIt \<in> vsetOptions) vsels of
             None \<Rightarrow> ''''
           | Some vselIt \<Rightarrow> vselIt))"

definition AddVariantArc ::
  "Env \<Rightarrow> Pcp_PrimIndexer \<Rightarrow> nat \<Rightarrow> string \<Rightarrow> int \<Rightarrow> string \<Rightarrow> Pcp_PrimIndexer" where
  "AddVariantArc env indexer node vset vsetNum vsel =
     (let varPath = AppendVariantSelection (path (GetSite (indexGraph indexer) node)) vset vsel
      in (case AddArc' env PcpArcTypeVariant node node
                 \<lparr>layerStack = GetLayerStack (indexGraph indexer) node, path = varPath\<rparr>
                 Identity vsetNum True False False indexer of
            (None, indexer') \<Rightarrow> indexer'
          | (Some newNode, indexer') \<Rightarrow>
              indexer'\<lparr>tasks := RetryVariantTasks (PcpCompareNodeStrength env) (tasks indexer')\<rparr>))"

definition EvalNodeVariantSets :: "Env \<Rightarrow> nat \<Rightarrow> Pcp_PrimIndexer \<Rightarrow> Pcp_PrimIndexer" where
  "EvalNodeVariantSets env node indexer =
     (if \<not> CanContributeSpecs env (nodes (indexGraph indexer) ! node) then indexer
      else
        (let vsetNames = PcpComposeSiteVariantSets env (indexGraph indexer) node
         in fold (\<lambda>vsetNum indexer'.
                    AddTask (PcpCompareNodeStrength env) indexer'
                      \<lparr>task_type = EvalNodeVariantAuthored, task_vsetNum = int vsetNum,
                       task_node = node, task_vsetName = vsetNames ! vsetNum\<rparr>)
              [0..<length vsetNames] indexer))"

definition EvalNodeAuthoredVariant ::
  "Env \<Rightarrow> nat \<Rightarrow> Pcp_PrimIndexer \<Rightarrow> string \<Rightarrow> int \<Rightarrow> Pcp_PrimIndexer" where
  "EvalNodeAuthoredVariant env node indexer vset vsetNum =
     (if \<not> CanContributeSpecs env (nodes (indexGraph indexer) ! node) then indexer
      else
        (let vsetOptions = PcpComposeSiteVariantSetOptions env (indexGraph indexer) node vset;
             vselFallback = ChooseBestFallbackAmongOptions vset vsetOptions
                              (variantFallbacks (inputs indexer))
         in (case ComposeVariantSelection env indexer node
                    (StripAllVariantSelections (GetPath (indexGraph indexer) node)) vset of
               (vsel, nodeWithVsel, indexer1) \<Rightarrow>
                 if ShouldUseVariantFallback env indexer1 vset vsel vselFallback nodeWithVsel
                 then AddTask (PcpCompareNodeStrength env) indexer1
                        \<lparr>task_type = EvalNodeVariantFallback, task_vsetNum = vsetNum,
                         task_node = node, task_vsetName = vset\<rparr>
                 else if vsel = ''''
                 then AddTask (PcpCompareNodeStrength env) indexer1
                        \<lparr>task_type = EvalNodeVariantNoneFound, task_vsetNum = vsetNum,
                         task_node = node, task_vsetName = vset\<rparr>
                 else AddVariantArc env indexer1 node vset vsetNum vsel)))"

definition EvalNodeFallbackVariant ::
  "Env \<Rightarrow> nat \<Rightarrow> Pcp_PrimIndexer \<Rightarrow> string \<Rightarrow> int \<Rightarrow> Pcp_PrimIndexer" where
  "EvalNodeFallbackVariant env node indexer vset vsetNum =
     (if \<not> CanContributeSpecs env (nodes (indexGraph indexer) ! node) then indexer
      else
        (let vsetOptions = PcpComposeSiteVariantSetOptions env (indexGraph indexer) node vset;
             vsel = ChooseBestFallbackAmongOptions vset vsetOptions
                      (variantFallbacks (inputs indexer))
         in if vsel = ''''
            then AddTask (PcpCompareNodeStrength env) indexer
                   \<lparr>task_type = EvalNodeVariantNoneFound, task_vsetNum = vsetNum,
                    task_node = node, task_vsetName = vset\<rparr>
            else AddVariantArc env indexer node vset vsetNum vsel))"

section \<open>Permissions\<close>

text \<open>
  \<open>_EnforcePermissions\<close>. The loop runs over the gathered nodes from the last to the
  first, that is from the weakest node to the strongest; its state is the graph, the
  two error lists and the private node found so far.
\<close>

definition HasSpecInAnyLayer :: "PcpPrimIndex_Graph \<Rightarrow> nat \<Rightarrow> bool" where
  "HasSpecInAnyLayer g n =
     list_ex (\<lambda>l. HasSpec l (GetPath g n)) (rev (layers (GetLayerStack g n)))"

definition EnforcePermissions_step ::
  "Env \<Rightarrow> nat
     \<Rightarrow> PcpPrimIndex_Graph \<times> PcpErrorVector option \<times> PcpErrorVector \<times> nat option
     \<Rightarrow> PcpPrimIndex_Graph \<times> PcpErrorVector option \<times> PcpErrorVector \<times> nat option" where
  "EnforcePermissions_step env curNode st =
     (case st of (g, loc, all, privateNode) \<Rightarrow>
        if \<not> CanContributeSpecs env (nodes g ! curNode) then st
        else
          (let g1 = (case privateNode of
                       None \<Rightarrow> g
                     | Some pn \<Rightarrow> SetRestricted g curNode True);
               errs = (case privateNode of
                         None \<Rightarrow> (loc, all)
                       | Some pn \<Rightarrow>
                           if HasSpecs g1 curNode \<and> HasSpecInAnyLayer g1 curNode
                           then RecordError
                                  \<lparr>errorType = PcpErrorType_PrimPermissionDenied,
                                   err_rootSite = Some (GetSite g1 (GetRootNode g1)),
                                   details = PrimPermissionDeniedDetails (GetSite g1 curNode)
                                               (GetSite g1 pn)\<rparr>
                                  loc all
                           else (loc, all))
           in (g1, fst errs, snd errs,
               (if privateNode = None \<and> GetPermission g1 curNode \<noteq> SdfPermissionPublic
                then Some curNode else privateNode))))"

definition EnforcePermissions ::
  "Env \<Rightarrow> PcpPrimIndex \<Rightarrow> PcpErrorVector \<Rightarrow> PcpPrimIndex \<times> PcpErrorVector" where
  "EnforcePermissions env index all =
     (let allNodes = GatherNodesRecursively (graph index) (GetRootNode (graph index))
      in (case fold (EnforcePermissions_step env) (rev allNodes)
                 (graph index, localErrors index, all, None) of
            (g, loc, all', privateNode) \<Rightarrow> (\<lparr>graph = g, localErrors = loc\<rparr>, all')))"

section \<open>What permission enforcement leaves behind\<close>

text \<open>
  Notions used to state the result of \<open>_EnforcePermissions\<close> over the list \<open>ws\<close> of the nodes
  in the order of the visits. A node counts towards the private node when it can
  contribute specs and its permission is not public; \<open>privateSeen\<close> is the private node at
  the time of the visit number \<open>k\<close>, \<open>permissionErrorsAt\<close> the errors of that visit,
  \<open>nodeAfter\<close> the visited node afterwards, and \<open>enforced\<close> relates the state of the loop
  after the visits of \<open>ws\<close> to the graph and the error lists before them.
\<close>

definition nonPublicContributor :: "Env \<Rightarrow> PcpPrimIndex_Graph \<Rightarrow> nat \<Rightarrow> bool" where
  "nonPublicContributor env g n =
     (CanContributeSpecs env (nodes g ! n) \<and> permission (nodes g ! n) \<noteq> SdfPermissionPublic)"

definition privateSeen :: "Env \<Rightarrow> PcpPrimIndex_Graph \<Rightarrow> nat list \<Rightarrow> nat \<Rightarrow> nat option" where
  "privateSeen env g ws k = find (nonPublicContributor env g) (take k ws)"

definition permissionError :: "PcpPrimIndex_Graph \<Rightarrow> nat \<Rightarrow> nat \<Rightarrow> PcpErrorBase" where
  "permissionError g n p =
     \<lparr>errorType = PcpErrorType_PrimPermissionDenied,
      err_rootSite = Some (GetSite g (GetRootNode g)),
      details = PrimPermissionDeniedDetails (GetSite g n) (GetSite g p)\<rparr>"

definition permissionErrorsAt ::
  "Env \<Rightarrow> PcpPrimIndex_Graph \<Rightarrow> nat list \<Rightarrow> nat \<Rightarrow> PcpErrorBase list" where
  "permissionErrorsAt env g ws k =
     (case privateSeen env g ws k of
        None \<Rightarrow> []
      | Some p \<Rightarrow>
          if CanContributeSpecs env (nodes g ! (ws ! k)) \<and> HasSpecs g (ws ! k)
             \<and> HasSpecInAnyLayer g (ws ! k)
          then [permissionError g (ws ! k) p] else [])"

definition permissionErrors :: "Env \<Rightarrow> PcpPrimIndex_Graph \<Rightarrow> nat list \<Rightarrow> PcpErrorBase list" where
  "permissionErrors env g ws = concat (map (permissionErrorsAt env g ws) [0..<length ws])"

definition nodeAfter :: "Env \<Rightarrow> PcpPrimIndex_Graph \<Rightarrow> nat list \<Rightarrow> nat \<Rightarrow> PcpNode" where
  "nodeAfter env g ws k =
     (if CanContributeSpecs env (nodes g ! (ws ! k)) \<and> privateSeen env g ws k \<noteq> None
      then (nodes g ! (ws ! k))\<lparr>restricted := True\<rparr>
      else nodes g ! (ws ! k))"

definition enforced ::
  "Env \<Rightarrow> PcpPrimIndex_Graph \<Rightarrow> PcpErrorVector option \<Rightarrow> PcpErrorVector \<Rightarrow> nat list
     \<Rightarrow> PcpPrimIndex_Graph \<times> PcpErrorVector option \<times> PcpErrorVector \<times> nat option \<Rightarrow> bool" where
  "enforced env g loc errs ws st =
     (case st of (g', loc', errs', privateNode) \<Rightarrow>
        length (nodes g') = length (nodes g)
        \<and> hasPayloads g' = hasPayloads g
        \<and> (\<forall>k < length ws. nodes g' ! (ws ! k) = nodeAfter env g ws k)
        \<and> (\<forall>n. n \<notin> set ws \<longrightarrow> nodes g' ! n = nodes g ! n)
        \<and> errs' = errs @ permissionErrors env g ws
        \<and> loc' = extendLocal loc (permissionErrors env g ws)
        \<and> privateNode = find (nonPublicContributor env g) ws)"

section \<open>A small scene\<close>

text \<open>
  One layer stack with a single layer holding the prim \<open>/P\<close>, the index of \<open>/P\<close> with its
  root node only, and stand-ins for what the indexer calls: a node contributes specs
  unless it is inert, culled or restricted, node strength follows the pool index,
  \<open>InsertChild\<close> appends the new node to the pool and to the children of its parent, and
  nothing is authored at any site.
\<close>

definition exampleLayer :: SdfLayer where
  "exampleLayer = \<lparr>layerId = ''root.usda'', primSpecs = [[PrimChild ''P'']],
                    variantSelectionField = [], defaultPrim = ''''\<rparr>"

definition exampleLayerStack :: PcpLayerStack where
  "exampleLayerStack = \<lparr>rootLayer = exampleLayer, layers = [exampleLayer],
                         relocatesSourceToTarget = []\<rparr>"

definition exampleSite :: PcpLayerStackSite where
  "exampleSite = \<lparr>layerStack = exampleLayerStack, path = [PrimChild ''P'']\<rparr>"

definition exampleRootNode :: PcpNode where
  "exampleRootNode =
     \<lparr>node_arcType = PcpArcTypeRoot, node_site = exampleSite, parentIndex = None,
      originIndex = None, childIndices = [], nodeMapToParent = Identity, inert = False,
      culled = False, restricted = False, hasSpecs = True, hasSymmetry = False,
      permission = SdfPermissionPublic\<rparr>"

definition exampleGraph :: PcpPrimIndex_Graph where
  "exampleGraph = \<lparr>nodes = [exampleRootNode], hasPayloads = False\<rparr>"

definition exampleInputs :: PcpPrimIndexInputs where
  "exampleInputs = \<lparr>cull = False, usd = False, includedPayloads = Some {},
                     includePayloadPredicate = None, variantFallbacks = []\<rparr>"

definition exampleOutputs :: PcpPrimIndexOutputs where
  "exampleOutputs =
     \<lparr>primIndex = \<lparr>graph = exampleGraph, localErrors = None\<rparr>, allErrors = [],
      payloadState = NoPayload, culledDependencies = [], dynamicFileFormatDependency = [],
      expressionVariablesDependency = []\<rparr>"

definition exampleIndexer :: Pcp_PrimIndexer where
  "exampleIndexer =
     \<lparr>rootSite = exampleSite, ancestorRecursionDepth = 0, inputs = exampleInputs,
      outputs = exampleOutputs, previousFrame = [], tasks = [], taskUniq = {},
      evaluateImpliedSpecializes = True, evaluateVariants = True\<rparr>"

definition exampleInsertChild ::
  "PcpPrimIndex_Graph \<Rightarrow> nat \<Rightarrow> PcpLayerStackSite \<Rightarrow> PcpArc
     \<Rightarrow> PcpPrimIndex_Graph \<times> nat option \<times> PcpErrorBase option" where
  "exampleInsertChild g p s a =
     (g\<lparr>nodes :=
          (nodes g)[p := (nodes g ! p)\<lparr>childIndices := childIndices (nodes g ! p) @ [length (nodes g)]\<rparr>]
          @ [\<lparr>node_arcType = arc_type a, node_site = s, parentIndex = Some p,
               originIndex = Some (arc_origin a), childIndices = [],
               nodeMapToParent = arc_mapToParent a, inert = False, culled = False,
               restricted = False, hasSpecs = False, hasSymmetry = False,
               permission = SdfPermissionPublic\<rparr>]\<rparr>,
      Some (length (nodes g)), None)"

definition exampleEnv :: Env where
  "exampleEnv =
     \<lparr>CanContributeSpecs = (\<lambda>n. \<not> inert n \<and> \<not> culled n \<and> \<not> restricted n),
      PcpCompareNodeStrength = strengthCmp,
      GetDepthBelowIntroduction = (\<lambda>g n. 0),
      GetPathAtIntroduction = (\<lambda>g n. GetPath g n),
      GetOriginRootNode = (\<lambda>g n. n),
      GetNodeUsingSite = (\<lambda>g s. None),
      InsertChild = exampleInsertChild,
      InsertChildSubgraph = (\<lambda>g p sub a. exampleInsertChild g p (GetSite sub 0) a),
      Pcp_BuildPrimIndex = (\<lambda>s r d es ev c fs i.
        exampleOutputs\<lparr>primIndex :=
          \<lparr>graph = \<lparr>nodes = [exampleRootNode\<lparr>node_site := s, inert := \<not> c\<rparr>],
                     hasPayloads = False\<rparr>,
           localErrors = None\<rparr>\<rparr>),
      PcpComposeSiteHasPrimSpecs = (\<lambda>g n. list_ex (\<lambda>l. HasSpec l (GetPath g n))
                                                (layers (GetLayerStack g n))),
      PcpComposeSitePermission = (\<lambda>ls p. SdfPermissionPublic),
      PcpComposeSiteHasSymmetry = (\<lambda>ls p. False),
      Pcp_AddCulledDependency = (\<lambda>g n deps. deps @ [n]),
      AddTasksForNode = (\<lambda>indexer n s1 s2. (tasks indexer, taskUniq indexer)),
      PcpComposeSiteReferences = (\<lambda>g n. ([], [], [])),
      PcpComposeSitePayloads = (\<lambda>g n. ([], [], [])),
      PcpComposeSiteInherits = (\<lambda>g n. []),
      PcpComposeSiteSpecializes = (\<lambda>g n. []),
      PcpComposeSiteVariantSets = (\<lambda>g n. []),
      PcpComposeSiteVariantSetOptions = (\<lambda>g n vset. {}),
      ComposeVariantSelection = (\<lambda>indexer n p vset. ('''', (indexGraph indexer, 0), indexer)),
      AddClassBasedArc = (\<lambda>t p o' m k indexer. indexer),
      PcpIsNewDefaultStandinBehaviorEnabled = True,
      IsLayerMuted = (\<lambda>l a. None),
      ComposeFieldsForFileFormatArguments = (\<lambda>indexer n r. ([], [])),
      FindOrOpen = (\<lambda>a args. (None, '''')),
      ComputeLayerStack = (\<lambda>l g n. (\<lparr>rootLayer = l, layers = [l], relocatesSourceToTarget = []\<rparr>, [])),
      combineLayerOffsets = (\<lambda>a b. b),
      scaleLayerOffset = (\<lambda>l ls off. off),
      IsValidIdentifier = (\<lambda>s. s \<noteq> '''')\<rparr>"



text \<open>A task heap with a fallback task and a none-found task pending.\<close>

definition exampleTasks :: "Task list" where
  "exampleTasks =
     [\<lparr>task_type = EvalNodeVariantFallback, task_vsetNum = 5, task_node = 0, task_vsetName = ''w''\<rparr>,
      \<lparr>task_type = EvalNodeVariantNoneFound, task_vsetNum = 1, task_node = 0, task_vsetName = ''u''\<rparr>]"

text \<open>An index whose root has a reference child that is restricted and private, has no
  specs and lies one level below the level where its arc was introduced; it has itself a
  child that is culled already.\<close>

definition exampleRestrictedChild :: PcpNode where
  "exampleRestrictedChild =
     \<lparr>node_arcType = PcpArcTypeReference,
      node_site = \<lparr>layerStack = exampleLayerStack, path = [PrimChild ''A'']\<rparr>,
      parentIndex = Some 0, originIndex = Some 0, childIndices = [2],
      nodeMapToParent = Identity, inert = False, culled = False, restricted = True,
      hasSpecs = False, hasSymmetry = False, permission = SdfPermissionPrivate\<rparr>"

definition exampleCulledGrandchild :: PcpNode where
  "exampleCulledGrandchild =
     \<lparr>node_arcType = PcpArcTypeReference,
      node_site = \<lparr>layerStack = exampleLayerStack, path = [PrimChild ''B'']\<rparr>,
      parentIndex = Some 1, originIndex = Some 1, childIndices = [],
      nodeMapToParent = Identity, inert = False, culled = True, restricted = False,
      hasSpecs = False, hasSymmetry = False, permission = SdfPermissionPublic\<rparr>"

definition exampleRestrictedGraph :: PcpPrimIndex_Graph where
  "exampleRestrictedGraph =
     \<lparr>nodes = [exampleRootNode\<lparr>childIndices := [1]\<rparr>, exampleRestrictedChild,
               exampleCulledGrandchild],
      hasPayloads = False\<rparr>"

definition exampleDeepEnv :: Env where
  "exampleDeepEnv = exampleEnv\<lparr>GetDepthBelowIntroduction := (\<lambda>g n. 1)\<rparr>"

text \<open>The decision on the variant fallback as the specification words it: yes when the
  authored selection is empty; yes for the set \<open>standin\<close> when the selection comes from
  beneath a payload arc or is not in the session layers, the new standin behaviour being
  off; no otherwise.\<close>

definition ShouldUseVariantFallback_claimed ::
  "Env \<Rightarrow> Pcp_PrimIndexer \<Rightarrow> string \<Rightarrow> string \<Rightarrow> PcpPrimIndex_Graph \<times> nat \<Rightarrow> bool" where
  "ShouldUseVariantFallback_claimed env indexer vset vsel nodeWithVsel =
     (vsel = ''''
      \<or> (vset = ''standin''
          \<and> (HasPayloadAncestor (fst nodeWithVsel) (snd nodeWithVsel)
              \<or> \<not> SelectionInSessionLayers (rootLayer (layerStack (rootSite indexer)))
                     (path (rootSite indexer)) vset vsel (layers (layerStack (rootSite indexer))))
          \<and> \<not> PcpIsNewDefaultStandinBehaviorEnabled env))"

definition exampleStandinEnv :: Env where
  "exampleStandinEnv = exampleEnv\<lparr>PcpIsNewDefaultStandinBehaviorEnabled := False\<rparr>"

definition exampleFallbackEnv :: Env where
  "exampleFallbackEnv = exampleEnv\<lparr>PcpComposeSiteVariantSetOptions := (\<lambda>g n vset. {''a'', ''b''})\<rparr>"

definition exampleFallbackIndexer :: Pcp_PrimIndexer where
  "exampleFallbackIndexer =
     exampleIndexer\<lparr>inputs := exampleInputs\<lparr>variantFallbacks := [(''v'', [''a''])]\<rparr>\<rparr>"



text \<open>Permission enforcement as the specification words it: the nodes are walked from
  strongest to weakest; once a private node has been seen, a node that could contribute
  specs is restricted, with an error when it has a spec in a layer; afterwards the
  current node becomes the private node when its permission is not public.\<close>

definition EnforcePermissions_claimed_step ::
  "Env \<Rightarrow> nat
     \<Rightarrow> PcpPrimIndex_Graph \<times> PcpErrorVector option \<times> PcpErrorVector \<times> nat option
     \<Rightarrow> PcpPrimIndex_Graph \<times> PcpErrorVector option \<times> PcpErrorVector \<times> nat option" where
  "EnforcePermissions_claimed_step env curNode st =
     (case st of (g, loc, all, seenPrivate) \<Rightarrow>
        (let touched =
               (case seenPrivate of
                  None \<Rightarrow> (g, loc, all)
                | Some pn \<Rightarrow>
                    if CanContributeSpecs env (nodes g ! curNode)
                    then (let g1 = SetRestricted g curNode True
                          in if HasSpecInAnyLayer g1 curNode
                             then (case RecordError
                                          \<lparr>errorType = PcpErrorType_PrimPermissionDenied,
                                           err_rootSite = Some (GetSite g1 (GetRootNode g1)),
                                           details = PrimPermissionDeniedDetails
                                                       (GetSite g1 curNode) (GetSite g1 pn)\<rparr>
                                          loc all of
                                     (loc', all') \<Rightarrow> (g1, loc', all'))
                             else (g1, loc, all))
                    else (g, loc, all))
         in (case touched of (g', loc', all') \<Rightarrow>
               (g', loc', all',
                (if GetPermission g' curNode \<noteq> SdfPermissionPublic then Some curNode
                 else seenPrivate)))))"

definition EnforcePermissions_claimed ::
  "Env \<Rightarrow> PcpPrimIndex \<Rightarrow> PcpErrorVector \<Rightarrow> PcpPrimIndex \<times> PcpErrorVector" where
  "EnforcePermissions_claimed env index all =
     (let allNodes = GatherNodesRecursively (graph index) (GetRootNode (graph index))
      in (case fold (EnforcePermissions_claimed_step env) allNodes
                 (graph index, localErrors index, all, None) of
            (g, loc, all', seenPrivate) \<Rightarrow> (\<lparr>graph = g, localErrors = loc\<rparr>, all')))"

text \<open>The index of \<open>/P\<close> with three children of the root, from strongest to weakest: \<open>/A\<close>,
  private; \<open>/B\<close>, public; \<open>/C\<close>, private and inert. All four sites have a spec.\<close>

definition examplePermissionLayerStack :: PcpLayerStack where
  "examplePermissionLayerStack =
     (let l = exampleLayer\<lparr>primSpecs := [[PrimChild ''P''], [PrimChild ''A''],
                                         [PrimChild ''B''], [PrimChild ''C'']]\<rparr>
      in \<lparr>rootLayer = l, layers = [l], relocatesSourceToTarget = []\<rparr>)"

definition examplePermissionNode :: "string \<Rightarrow> SdfPermission \<Rightarrow> bool \<Rightarrow> PcpNode" where
  "examplePermissionNode name perm isInert =
     \<lparr>node_arcType = PcpArcTypeReference,
      node_site = \<lparr>layerStack = examplePermissionLayerStack, path = [PrimChild name]\<rparr>,
      parentIndex = Some 0, originIndex = Some 0, childIndices = [],
      nodeMapToParent = Identity, inert = isInert, culled = False, restricted = False,
      hasSpecs = True, hasSymmetry = False, permission = perm\<rparr>"

definition examplePermissionIndex :: PcpPrimIndex where
  "examplePermissionIndex =
     \<lparr>graph =
        \<lparr>nodes = [exampleRootNode
                    \<lparr>node_site := \<lparr>layerStack = examplePermissionLayerStack,
                                    path = [PrimChild ''P'']\<rparr>,
                     childIndices := [1, 2, 3]\<rparr>,
                  examplePermissionNode ''A'' SdfPermissionPrivate False,
                  examplePermissionNode ''B'' SdfPermissionPublic False,
                  examplePermissionNode ''C'' SdfPermissionPrivate True],
         hasPayloads = False\<rparr>,
      localErrors = None\<rparr>"

section \<open>What the cycle check looks at\<close>

text \<open>
  Notions used to state the result of \<open>_CheckForCycle\<close>. \<open>IteratorWalk\<close> lists the
  positions of the stack-frame iterator from a node up to the outermost root, following
  \<open>Next\<close>. \<open>FrameSites\<close> lists, for the graph being built and for each enclosing frame,
  the graph, the node the walk starts from there, and the child site as it will read in
  that graph: entering the enclosing frame, the prefix of the requested path that is the
  path of the current root is replaced by the path of the child site.
\<close>

function IteratorWalk ::
  "PcpPrimIndex_StackFrameIterator \<Rightarrow> PcpPrimIndex_StackFrameIterator list" where
  "IteratorWalk i = i # (case it_Next i of None \<Rightarrow> [] | Some i' \<Rightarrow> IteratorWalk i')"
  by pat_completeness auto
termination
  by (relation "measures [\<lambda>(g, n, fs). length fs, \<lambda>(g, n, fs). n]")
     (auto simp add: it_Next_def it_NextFrame_def GetParentNode_def
           split: option.splits if_splits list.splits)

declare IteratorWalk.simps [simp del]

fun FrameSites ::
  "PcpPrimIndex_StackFrame list \<Rightarrow> PcpPrimIndex_Graph \<Rightarrow> nat \<Rightarrow> PcpLayerStackSite
     \<Rightarrow> (PcpPrimIndex_Graph \<times> nat \<times> PcpLayerStackSite) list" where
  "FrameSites [] g n s = [(g, n, s)]"
| "FrameSites (f # rest) g n s =
     (g, n, s)
       # FrameSites rest (frame_parentGraph f) (frame_parentNode f)
           (s\<lparr>path :=
                (if GetPath g (GetRootNode g) = path s then path (frame_requestedSite f)
                 else ReplacePrefix (path (frame_requestedSite f))
                        (GetPath g (GetRootNode g)) (path s))\<rparr>)"

text \<open>The cycle test as the specification words it: some node on the walk from the
  parent to the root, and on across the frames, shares its layer stack with the child
  site, and one of the two paths is a prefix of the other.\<close>

definition CycleExists_claimed ::
  "PcpPrimIndex_Graph \<Rightarrow> nat \<Rightarrow> PcpLayerStackSite \<Rightarrow> PcpPrimIndex_StackFrame list \<Rightarrow> bool" where
  "CycleExists_claimed g parent childSite prevFrame =
     list_ex (\<lambda>i. HasAncestorCycle (GetSite (fst i) (fst (snd i))) childSite)
       (IteratorWalk (g, parent, prevFrame))"

subsection \<open>A sub-index under construction\<close>

text \<open>
  The scene of the comment in \<open>_CheckForCycle\<close>: \<open>/A/C\<close> references \<open>/D/B\<close> and \<open>/D\<close>
  references \<open>/A\<close>. The index of \<open>/D/C\<close> has the reference node \<open>/A/C\<close> under its root; the
  sub-index requested for \<open>/D/B\<close> under that node starts with the index of the ancestor
  \<open>/D\<close>, which is about to add its reference to \<open>/A\<close>.
\<close>

definition exampleOuterGraph :: PcpPrimIndex_Graph where
  "exampleOuterGraph =
     \<lparr>nodes =
        [exampleRootNode
           \<lparr>node_site := \<lparr>layerStack = exampleLayerStack,
                           path = [PrimChild ''D'', PrimChild ''C'']\<rparr>,
            childIndices := [1]\<rparr>,
         exampleRootNode
           \<lparr>node_arcType := PcpArcTypeReference,
            node_site := \<lparr>layerStack = exampleLayerStack,
                           path = [PrimChild ''A'', PrimChild ''C'']\<rparr>,
            parentIndex := Some 0, originIndex := Some 0\<rparr>],
      hasPayloads = False\<rparr>"

definition exampleInnerGraph :: PcpPrimIndex_Graph where
  "exampleInnerGraph =
     \<lparr>nodes = [exampleRootNode
                 \<lparr>node_site := \<lparr>layerStack = exampleLayerStack, path = [PrimChild ''D'']\<rparr>\<rparr>],
      hasPayloads = False\<rparr>"

definition exampleFrame :: PcpPrimIndex_StackFrame where
  "exampleFrame =
     \<lparr>frame_requestedSite = \<lparr>layerStack = exampleLayerStack,
                              path = [PrimChild ''D'', PrimChild ''B'']\<rparr>,
      frame_parentNode = 1, frame_parentGraph = exampleOuterGraph,
      frame_arcToParent = \<lparr>arc_type = PcpArcTypeReference, arc_mapToParent = Identity,
                           arc_parent = 1, arc_origin = 1, arc_namespaceDepth = 2,
                           arc_siblingNumAtOrigin = 0\<rparr>,
      frame_skipDuplicateNodes = False\<rparr>"

definition exampleInnerIndexer :: Pcp_PrimIndexer where
  "exampleInnerIndexer =
     exampleIndexer
       \<lparr>outputs := exampleOutputs\<lparr>primIndex := \<lparr>graph = exampleInnerGraph, localErrors = None\<rparr>\<rparr>,
        previousFrame := [exampleFrame]\<rparr>"

definition exampleTargetSite :: PcpLayerStackSite where
  "exampleTargetSite = \<lparr>layerStack = exampleLayerStack, path = [PrimChild ''A'']\<rparr>"

subsection \<open>References without a prim path\<close>

text \<open>
  References without a prim path to layers without a default prim: an internal one, and
  one to the layer \<open>b.usda\<close>, which the second environment can open.
\<close>

definition exampleInternalReference :: "SdfReferenceOrPayload \<times> PcpSourceArcInfo" where
  "exampleInternalReference =
     (\<lparr>GetAssetPath = '''', GetPrimPath = EmptyPath, GetLayerOffset = identityLayerOffset\<rparr>,
      \<lparr>layer = exampleLayer, layerStackOffset = identityLayerOffset,
       authoredAssetPath = ''''\<rparr>)"

definition exampleExternalReference :: "SdfReferenceOrPayload \<times> PcpSourceArcInfo" where
  "exampleExternalReference =
     (\<lparr>GetAssetPath = ''b.usda'', GetPrimPath = EmptyPath,
       GetLayerOffset = identityLayerOffset\<rparr>,
      \<lparr>layer = exampleLayer, layerStackOffset = identityLayerOffset,
       authoredAssetPath = ''b.usda''\<rparr>)"

definition exampleTargetLayer :: SdfLayer where
  "exampleTargetLayer = \<lparr>layerId = ''b.usda'', primSpecs = [[PrimChild ''B'']],
                          variantSelectionField = [], defaultPrim = ''''\<rparr>"

definition exampleTargetLayerStack :: PcpLayerStack where
  "exampleTargetLayerStack = \<lparr>rootLayer = exampleTargetLayer, layers = [exampleTargetLayer],
                               relocatesSourceToTarget = []\<rparr>"

definition exampleOpenEnv :: Env where
  "exampleOpenEnv = exampleEnv\<lparr>FindOrOpen := (\<lambda>a args. (Some exampleTargetLayer, ''''))\<rparr>"

text \<open>The call of \<open>_AddArc\<close> that the external reference leads to, after the error for the
  missing default prim is recorded.\<close>

definition examplePlaceholderError :: PcpErrorBase where
  "examplePlaceholderError =
     \<lparr>errorType = PcpErrorType_UnresolvedPrimPath,
      err_rootSite = Some (GetSite (indexGraph exampleIndexer)
                             (GetRootNode (indexGraph exampleIndexer))),
      details = UnresolvedPrimPathDetails (GetSite (indexGraph exampleIndexer) 0) None
                  PcpArcTypeReference\<rparr>"

definition examplePlaceholderCall :: "nat option \<times> Pcp_PrimIndexer" where
  "examplePlaceholderCall =
     AddArc' exampleOpenEnv PcpArcTypeReference 0 0
       \<lparr>layerStack = exampleTargetLayerStack, path = AbsoluteRootPath\<rparr>
       (if GetAssetPath (fst exampleExternalReference) = ''''
        then AddRootIdentity
               (CreateMapExpressionForArc (AbsolutePath AbsoluteRootPath)
                  (indexGraph exampleIndexer) 0 (inputs exampleIndexer) identityLayerOffset)
        else CreateMapExpressionForArc (AbsolutePath AbsoluteRootPath)
               (indexGraph exampleIndexer) 0 (inputs exampleIndexer) identityLayerOffset)
       (int 0) False True False (indexer_RecordError exampleIndexer examplePlaceholderError)"

subsection \<open>Graphs of the same shape\<close>

text \<open>Two graphs of the same shape: as many nodes, with the same children and the same
  sites.\<close>

definition sameShape :: "PcpPrimIndex_Graph \<Rightarrow> PcpPrimIndex_Graph \<Rightarrow> bool" where
  "sameShape g g' =
     (length (nodes g') = length (nodes g)
      \<and> (\<forall>n. childIndices (nodes g' ! n) = childIndices (nodes g ! n))
      \<and> (\<forall>n. node_site (nodes g' ! n) = node_site (nodes g ! n)))"

section \<open>Errors that bypass \<open>RecordError\<close>\<close>






section \<open>Recording errors\<close>



lemma recorded_absent:
  "list_ex (\<lambda>x. errorType x = t) a0 \<Longrightarrow>
   t = PcpErrorType_IndexCapacityExceeded \<or> t = PcpErrorType_ArcCapacityExceeded
     \<or> t = PcpErrorType_ArcNamespaceDepthCapacityExceeded \<Longrightarrow>
   filter (\<lambda>e. errorType e = t) (recorded a0 errs) = []"
proof (induction errs arbitrary: a0)
  case Nil
  show ?case by simp
next
  case (Cons e es)
  from Cons.prems have ex: "list_ex (\<lambda>x. errorType x = t) (a0 @ [e])"
    by (simp add: list_ex_iff)
  show ?case
  proof (cases "errorType e = t")
    case True
    with Cons.prems have "isCapacityError e \<and> list_ex (\<lambda>x. errorType x = errorType e) a0"
      by (auto simp add: isCapacityError_def)
    with Cons.IH [OF Cons.prems] show ?thesis by simp
  next
    case False
    with Cons.IH [OF Cons.prems] Cons.IH [OF ex Cons.prems(2)] show ?thesis by simp
  qed
qed

lemma recorded_once:
  "t = PcpErrorType_IndexCapacityExceeded \<or> t = PcpErrorType_ArcCapacityExceeded
     \<or> t = PcpErrorType_ArcNamespaceDepthCapacityExceeded \<Longrightarrow>
   length (filter (\<lambda>e. errorType e = t) (recorded a0 errs)) \<le> 1"
proof (induction errs arbitrary: a0)
  case Nil
  show ?case by simp
next
  case (Cons e es)
  show ?case
  proof (cases "isCapacityError e \<and> list_ex (\<lambda>x. errorType x = errorType e) a0")
    case True
    with Cons.IH [OF Cons.prems] show ?thesis by simp
  next
    case False
    then have rec: "recorded a0 (e # es) = e # recorded (a0 @ [e]) es"
      by (simp only: recorded.simps if_False)
    show ?thesis
    proof (cases "errorType e = t")
      case True
      then have "list_ex (\<lambda>x. errorType x = t) (a0 @ [e])"
        by (simp add: list_ex_iff)
      from recorded_absent [OF this Cons.prems] True show ?thesis
        by (simp add: rec del: recorded.simps)
    next
      case ne: False
      with Cons.IH [OF Cons.prems] show ?thesis
        by (simp add: rec del: recorded.simps)
    qed
  qed
qed










section \<open>Gathering the nodes of a sub-tree\<close>

lemma GatherNodesRecursively_bound:
  "n < length (nodes g) \<Longrightarrow> x \<in> set (GatherNodesRecursively g n) \<Longrightarrow> x < length (nodes g)"
proof (induction g n rule: GatherNodesRecursively.induct)
  case (1 g n)
  from "1.prems"(2)
  have "x = n \<or> (\<exists>c \<in> set (Pcp_GetChildrenRange g n). x \<in> set (GatherNodesRecursively g c))"
    by (subst (asm) GatherNodesRecursively.simps) auto
  then show ?case
  proof
    assume "x = n"
    with "1.prems"(1) show ?thesis by simp
  next
    assume "\<exists>c \<in> set (Pcp_GetChildrenRange g n). x \<in> set (GatherNodesRecursively g c)"
    then obtain c where c: "c \<in> set (Pcp_GetChildrenRange g n)"
      "x \<in> set (GatherNodesRecursively g c)" by blast
    from c(1) have "c < length (nodes g)" by (simp add: Pcp_GetChildrenRange_def)
    from "1.IH" [OF c(1) this c(2)] show ?thesis .
  qed
qed

lemma GatherNodesRecursively_self: "n \<in> set (GatherNodesRecursively g n)"
  by (subst GatherNodesRecursively.simps) simp

lemma sameShape_refl: "sameShape g g"
  by (simp add: sameShape_def)

lemma sameShape_trans: "sameShape g g' \<Longrightarrow> sameShape g' g'' \<Longrightarrow> sameShape g g''"
  by (simp add: sameShape_def)

lemma nth_list_update_any:
  "(xs[k := x]) ! n = (if n = k \<and> k < length xs then x else xs ! n)"
  by (cases "k < length xs") (auto simp add: nth_list_update not_less list_update_beyond)

lemma sameShape_SetInert: "sameShape g (SetInert g k b)"
  by (simp add: sameShape_def SetInert_def nth_list_update_any)

lemma sameShape_fold_SetInert: "sameShape g (fold (\<lambda>k g'. SetInert g' k True) ks g)"
proof (induction ks arbitrary: g)
  case Nil
  show ?case by (simp add: sameShape_refl)
next
  case (Cons k ks)
  from sameShape_trans [OF sameShape_SetInert Cons.IH] show ?case by simp
qed

lemma sameShape_children:
  "sameShape g g' \<Longrightarrow> Pcp_GetChildrenRange g' n = Pcp_GetChildrenRange g n"
  by (simp add: sameShape_def Pcp_GetChildrenRange_def)

lemma sameShape_Gather:
  "sameShape g g' \<Longrightarrow> GatherNodesRecursively g' n = GatherNodesRecursively g n"
proof (induction g n rule: GatherNodesRecursively.induct)
  case (1 g n)
  have eq: "map (GatherNodesRecursively g') (Pcp_GetChildrenRange g n)
            = map (GatherNodesRecursively g) (Pcp_GetChildrenRange g n)"
    by (rule map_cong [OF refl]) (rule "1.IH" [OF _ "1.prems"])
  show ?case
    by (simp only: GatherNodesRecursively.simps [of g' n] GatherNodesRecursively.simps [of g n]
        sameShape_children [OF "1.prems"] eq)
qed

lemma sameShape_GetPath: "sameShape g g' \<Longrightarrow> GetPath g' n = GetPath g n"
  by (simp add: sameShape_def GetPath_def)

lemma IsInert_SetInert:
  "IsInert (SetInert g k b) n = (if n = k \<and> k < length (nodes g) then b else IsInert g n)"
  by (simp add: IsInert_def SetInert_def nth_list_update_any)

lemma length_fold_SetInert:
  "length (nodes (fold (\<lambda>k g'. SetInert g' k True) ks g)) = length (nodes g)"
  using sameShape_fold_SetInert [of g ks] by (simp add: sameShape_def)

lemma IsInert_fold_SetInert:
  "IsInert (fold (\<lambda>k g'. SetInert g' k True) ks g) n
   \<longleftrightarrow> (n \<in> set ks \<and> n < length (nodes g)) \<or> IsInert g n"
proof (induction ks arbitrary: g)
  case Nil
  show ?case by simp
next
  case (Cons k ks)
  have "length (nodes (SetInert g k True)) = length (nodes g)" by (simp add: SetInert_def)
  with Cons.IH [of "SetInert g k True"] show ?case
    by (auto simp add: IsInert_SetInert)
qed

lemma InertSubtree_inert:
  assumes "n < length (nodes g)"
  shows "\<forall>k \<in> set (GatherNodesRecursively (InertSubtree g n) n). IsInert (InertSubtree g n) k"
proof -
  have s: "sameShape g (InertSubtree g n)"
    unfolding InertSubtree_def by (rule sameShape_fold_SetInert)
  show ?thesis
    unfolding sameShape_Gather [OF s]
    using GatherNodesRecursively_bound [OF assms]
    by (simp add: InertSubtree_def IsInert_fold_SetInert)
qed

section \<open>The task heap\<close>

lemma length_push_heap_aux [simp]: "length (push_heap_aux lt xs h v) = length xs"
proof (induction lt xs h v rule: push_heap_aux.induct)
  case (1 lt xs h v)
  show ?case
  proof (cases "h > 0 \<and> lt (xs ! ((h - 1) div 2)) v")
    case True
    with "1.IH" show ?thesis by (subst push_heap_aux.simps) simp
  next
    case False
    then show ?thesis by (subst push_heap_aux.simps) auto
  qed
qed

lemma mset_push_heap_aux:
  "h < length xs \<Longrightarrow> mset (push_heap_aux lt xs h v) = mset (xs[h := v])"
proof (induction lt xs h v rule: push_heap_aux.induct)
  case (1 lt xs h v)
  let ?p = "(h - 1) div 2"
  show ?case
  proof (cases "h > 0 \<and> lt (xs ! ?p) v")
    case True
    then have ph: "?p < h" by auto
    with "1.prems" have pl: "?p < length xs" by simp
    have "mset (push_heap_aux lt xs h v) = mset (push_heap_aux lt (xs[h := xs ! ?p]) ?p v)"
      using True by (subst push_heap_aux.simps) simp
    also have "\<dots> = mset (xs[h := xs ! ?p, ?p := v])"
      using "1.IH" [OF True] pl by simp
    also have "xs[h := xs ! ?p, ?p := v]
               = (xs[h := v])[h := (xs[h := v]) ! ?p, ?p := (xs[h := v]) ! h]"
      using ph "1.prems" by simp
    also have "mset \<dots> = mset (xs[h := v])"
      using "1.prems" pl by (intro mset_swap) simp_all
    finally show ?thesis .
  next
    case False
    then show ?thesis by (subst push_heap_aux.simps) auto
  qed
qed

lemma heap_hole_step:
  assumes sw: "strict_weak lt" and hh: "heap_hole lt xs h v"
    and go: "0 < h" "lt (xs ! ((h - 1) div 2)) v"
  shows "heap_hole lt (xs[h := xs ! ((h - 1) div 2)]) ((h - 1) div 2) v"
proof -
  let ?p = "(h - 1) div 2"
  let ?ys = "xs[h := xs ! ?p]"
  from sw have asym: "\<And>a b. lt a b \<Longrightarrow> \<not> lt b a"
    and nt: "\<And>a b c. \<not> lt a b \<Longrightarrow> \<not> lt b c \<Longrightarrow> \<not> lt a c"
    unfolding strict_weak_def by blast+
  from hh have hl: "h < length xs"
    and A: "\<And>i. 0 < i \<Longrightarrow> i < length xs \<Longrightarrow> i \<noteq> h \<Longrightarrow> (i - 1) div 2 \<noteq> h
                \<Longrightarrow> \<not> lt (xs ! ((i - 1) div 2)) (xs ! i)"
    and B: "\<And>c. 0 < c \<Longrightarrow> c < length xs \<Longrightarrow> (c - 1) div 2 = h \<Longrightarrow> \<not> lt v (xs ! c)"
    and C: "\<And>c. 0 < c \<Longrightarrow> c < length xs \<Longrightarrow> (c - 1) div 2 = h
                \<Longrightarrow> \<not> lt (xs ! ?p) (xs ! c)"
    unfolding heap_hole_def using go(1) by blast+
  from go(1) have ph: "?p < h" by auto
  with hl have pl: "?p < length xs" by simp
  have a': "\<not> lt (?ys ! ((i - 1) div 2)) (?ys ! i)"
    if i: "0 < i" "i < length xs" "i \<noteq> ?p" "(i - 1) div 2 \<noteq> ?p" for i
  proof -
    from i have ih: "i \<noteq> h" by auto
    show ?thesis
    proof (cases "(i - 1) div 2 = h")
      case True
      with ih hl i C [of i] show ?thesis by simp
    next
      case False
      with ih hl i A [of i] show ?thesis by simp
    qed
  qed
  have b': "\<not> lt v (?ys ! c)"
    if c: "0 < c" "c < length xs" "(c - 1) div 2 = ?p" for c
  proof (cases "c = h")
    case True
    with hl asym [OF go(2)] show ?thesis by simp
  next
    case False
    from c ph have "(c - 1) div 2 \<noteq> h" by simp
    with False c A [of c] have "\<not> lt (xs ! ?p) (xs ! c)" by simp
    with nt [OF asym [OF go(2)]] False show ?thesis by simp
  qed
  have c': "\<not> lt (?ys ! ((?p - 1) div 2)) (?ys ! c)"
    if c: "0 < ?p" "0 < c" "c < length xs" "(c - 1) div 2 = ?p" for c
  proof -
    from c(1) have pp: "(?p - 1) div 2 < ?p" by auto
    with ph have pph: "(?p - 1) div 2 \<noteq> h" by simp
    from ph pp have "(?p - 1) div 2 \<noteq> h" by simp
    with A [of ?p] c(1) pl ph have top: "\<not> lt (xs ! ((?p - 1) div 2)) (xs ! ?p)" by simp
    show ?thesis
    proof (cases "c = h")
      case True
      with hl pph top show ?thesis by simp
    next
      case False
      from c ph have "(c - 1) div 2 \<noteq> h" by simp
      with False c A [of c] have "\<not> lt (xs ! ?p) (xs ! c)" by simp
      from nt [OF top this] False pph show ?thesis by simp
    qed
  qed
  show ?thesis
    unfolding heap_hole_def length_list_update using pl a' b' c' by blast
qed

lemma heap_hole_stop:
  assumes hh: "heap_hole lt xs h v"
    and stop: "\<not> (0 < h \<and> lt (xs ! ((h - 1) div 2)) v)"
  shows "is_heap lt (xs[h := v])"
  unfolding is_heap_def
proof (intro allI impI)
  fix i assume i: "0 < i \<and> i < length (xs[h := v])"
  from hh have hl: "h < length xs"
    and A: "\<And>i. 0 < i \<Longrightarrow> i < length xs \<Longrightarrow> i \<noteq> h \<Longrightarrow> (i - 1) div 2 \<noteq> h
                \<Longrightarrow> \<not> lt (xs ! ((i - 1) div 2)) (xs ! i)"
    and B: "\<And>c. 0 < c \<Longrightarrow> c < length xs \<Longrightarrow> (c - 1) div 2 = h \<Longrightarrow> \<not> lt v (xs ! c)"
    unfolding heap_hole_def by blast+
  show "\<not> lt (xs[h := v] ! ((i - 1) div 2)) (xs[h := v] ! i)"
  proof (cases "i = h")
    case True
    with i have "(h - 1) div 2 \<noteq> h" by auto
    with True i stop hl show ?thesis by simp
  next
    case False
    show ?thesis
    proof (cases "(i - 1) div 2 = h")
      case True
      with False i hl B [of i] show ?thesis by simp
    next
      case ne: False
      with False i A [of i] show ?thesis by simp
    qed
  qed
qed

lemma push_heap_aux_is_heap:
  "strict_weak lt \<Longrightarrow> heap_hole lt xs h v \<Longrightarrow> is_heap lt (push_heap_aux lt xs h v)"
proof (induction lt xs h v rule: push_heap_aux.induct)
  case (1 lt xs h v)
  show ?case
  proof (cases "h > 0 \<and> lt (xs ! ((h - 1) div 2)) v")
    case True
    with heap_hole_step [OF "1.prems"] have "heap_hole lt (xs[h := xs ! ((h - 1) div 2)]) ((h - 1) div 2) v"
      by simp
    from "1.IH" [OF True "1.prems"(1) this] True show ?thesis
      by (subst push_heap_aux.simps) simp
  next
    case False
    from heap_hole_stop [OF "1.prems"(2) False] False show ?thesis
      by (subst push_heap_aux.simps) auto
  qed
qed

text \<open>Raising the key of one element of a heap leaves a heap with a hole there.\<close>

lemma is_heap_raise_hole:
  assumes sw: "strict_weak lt" and hp: "is_heap lt xs" and i: "i < length xs"
    and up: "\<And>x. \<not> lt (xs ! i) x \<Longrightarrow> \<not> lt v x"
  shows "heap_hole lt (xs[i := v]) i v"
proof -
  from sw have nt: "\<And>a b c. \<not> lt a b \<Longrightarrow> \<not> lt b c \<Longrightarrow> \<not> lt a c"
    unfolding strict_weak_def by blast
  from hp have H: "\<And>k. 0 < k \<Longrightarrow> k < length xs \<Longrightarrow> \<not> lt (xs ! ((k - 1) div 2)) (xs ! k)"
    unfolding is_heap_def by blast
  have c: "\<not> lt (xs ! ((i - 1) div 2)) (xs ! c)"
    if "0 < i" "0 < c" "c < length xs" "(c - 1) div 2 = i" for c
  proof -
    from H [of i] that i have 1: "\<not> lt (xs ! ((i - 1) div 2)) (xs ! i)" by simp
    from H [of c] that have 2: "\<not> lt (xs ! i) (xs ! c)" by simp
    from nt [OF 1 2] show ?thesis .
  qed
  have pi: "0 < i \<Longrightarrow> (i - 1) div 2 \<noteq> i" by auto
  show ?thesis
    unfolding heap_hole_def
    using i H up c pi by (auto simp add: nth_list_update)
qed


lemma nth_push_heap_aux:
  "h < j \<Longrightarrow> push_heap_aux lt xs h v ! j = xs ! j"
proof (induction lt xs h v rule: push_heap_aux.induct)
  case (1 lt xs h v)
  show ?case
  proof (cases "h > 0 \<and> lt (xs ! ((h - 1) div 2)) v")
    case True
    then have "(h - 1) div 2 < j" using "1.prems" by auto
    from "1.IH" [OF True this] True "1.prems" show ?thesis
      by (subst push_heap_aux.simps) simp
  next
    case False
    with "1.prems" show ?thesis by (subst push_heap_aux.simps) auto
  qed
qed

lemma drop_push_heap_aux:
  "drop (Suc h) (push_heap_aux lt xs h v) = drop (Suc h) xs"
  by (rule nth_equalityI) (simp_all add: nth_push_heap_aux)

lemma mset_take_push_heap_aux:
  assumes "h < length xs"
  shows "mset (take (Suc h) (push_heap_aux lt xs h v)) = mset (take h xs) + {#v#}"
proof -
  let ?r = "push_heap_aux lt xs h v"
  have "mset (take (Suc h) ?r) + mset (drop (Suc h) ?r) = mset ?r"
    by (metis append_take_drop_id mset_append)
  also have "\<dots> = mset (xs[h := v])"
    using assms by (rule mset_push_heap_aux)
  also have "\<dots> = mset (take (Suc h) (xs[h := v])) + mset (drop (Suc h) (xs[h := v]))"
    by (metis append_take_drop_id mset_append)
  also have "drop (Suc h) (xs[h := v]) = drop (Suc h) ?r"
    by (simp add: drop_push_heap_aux)
  finally have "mset (take (Suc h) ?r) = mset (take (Suc h) (xs[h := v]))"
    by simp
  also have "take (Suc h) (xs[h := v]) = take h xs @ [v]"
    using assms by (simp add: take_Suc_conv_app_nth)
  finally show ?thesis by simp
qed

subsection \<open>The priority order\<close>

lemma typeRank_inj: "typeRank s = typeRank t \<Longrightarrow> s = t"
  by (cases s; cases t; simp)

lemma PriorityOrder_diff:
  "task_type a \<noteq> task_type b \<Longrightarrow> PriorityOrder cmp a b = (typeRank (task_type b) < typeRank (task_type a))"
  by (simp add: PriorityOrder_def)

lemma PriorityOrder_diff_not:
  "task_type a \<noteq> task_type b \<Longrightarrow> (\<not> PriorityOrder cmp a b) = (typeRank (task_type a) < typeRank (task_type b))"
proof -
  assume ne: "task_type a \<noteq> task_type b"
  with typeRank_inj [of "task_type a" "task_type b"] have "typeRank (task_type a) \<noteq> typeRank (task_type b)"
    by blast
  with ne show ?thesis by (simp add: PriorityOrder_def) linarith
qed

lemma PriorityOrder_asym:
  assumes "strengthOrder cmp" and "PriorityOrder cmp a b"
  shows "\<not> PriorityOrder cmp b a"
proof (cases "task_type a = task_type b")
  case False
  with assms(2) show ?thesis by (auto simp add: PriorityOrder_diff)
next
  case True
  from assms(1) have s1: "\<And>x y. cmp x y = 1 \<Longrightarrow> cmp y x \<noteq> 1"
    unfolding strengthOrder_def by blast
  from True assms(2) s1 [of "task_node a" "task_node b"] show ?thesis
    by (cases "task_type a") (auto simp add: PriorityOrder_def split: if_splits)
qed

lemma PriorityOrder_same_trans:
  assumes so: "strengthOrder cmp" and ty: "task_type a = task_type b" "task_type b = task_type c"
    and ab: "\<not> PriorityOrder cmp a b" and bc: "\<not> PriorityOrder cmp b c"
  shows "\<not> PriorityOrder cmp a c"
proof -
  from so have s2: "\<And>x y z. cmp x y \<noteq> 1 \<Longrightarrow> cmp y z \<noteq> 1 \<Longrightarrow> cmp x z \<noteq> 1"
    and s3: "\<And>x y. x \<noteq> y \<Longrightarrow> cmp x y = 1 \<or> cmp y x = 1"
    unfolding strengthOrder_def by blast+
  have lex: "\<not> (if task_node a \<noteq> task_node c then cmp (task_node a) (task_node c) = 1 else task_vsetNum c < task_vsetNum a)"
    if "\<not> (if task_node a \<noteq> task_node b then cmp (task_node a) (task_node b) = 1 else task_vsetNum b < task_vsetNum a)"
      and "\<not> (if task_node b \<noteq> task_node c then cmp (task_node b) (task_node c) = 1 else task_vsetNum c < task_vsetNum b)"
    using that s2 [of "task_node a" "task_node b" "task_node c"] s3 [of "task_node a" "task_node b"] s3 [of "task_node b" "task_node c"]
    by (auto split: if_splits)
  show ?thesis
  proof (cases "task_type a")
    case EvalNodePayload
    with ty ab bc s2 [of "task_node a" "task_node b" "task_node c"] show ?thesis
      by (simp add: PriorityOrder_def)
  next
    case EvalNodeVariantAuthored
    with ty ab bc lex show ?thesis by (simp add: PriorityOrder_def)
  next
    case EvalNodeVariantFallback
    with ty ab bc lex show ?thesis by (simp add: PriorityOrder_def)
  qed (use ty ab bc in \<open>auto simp add: PriorityOrder_def split: if_splits\<close>)
qed

lemma PriorityOrder_strict_weak:
  assumes so: "strengthOrder cmp"
  shows "strict_weak (PriorityOrder cmp)"
  unfolding strict_weak_def
proof (intro conjI allI impI)
  fix a b assume "PriorityOrder cmp a b"
  with so show "\<not> PriorityOrder cmp b a" by (rule PriorityOrder_asym)
next
  fix a b c
  assume h: "\<not> PriorityOrder cmp a b \<and> \<not> PriorityOrder cmp b c"
  show "\<not> PriorityOrder cmp a c"
  proof (cases "task_type a = task_type b")
    case ab: True
    show ?thesis
    proof (cases "task_type b = task_type c")
      case True
      from PriorityOrder_same_trans [OF so ab True] h show ?thesis by blast
    next
      case False
      with h have "typeRank (task_type b) < typeRank (task_type c)"
        by (simp add: PriorityOrder_diff_not)
      with ab False show ?thesis by (simp add: PriorityOrder_diff_not)
    qed
  next
    case ab: False
    with h have 1: "typeRank (task_type a) < typeRank (task_type b)"
      by (simp add: PriorityOrder_diff_not)
    show ?thesis
    proof (cases "task_type b = task_type c")
      case True
      with 1 ab show ?thesis by (simp add: PriorityOrder_diff_not)
    next
      case False
      with h have "typeRank (task_type b) < typeRank (task_type c)"
        by (simp add: PriorityOrder_diff_not)
      with 1 have "typeRank (task_type a) < typeRank (task_type c)" by simp
      moreover from this have "task_type a \<noteq> task_type c" by auto
      ultimately show ?thesis by (simp add: PriorityOrder_diff_not)
    qed
  qed
qed

lemma promote_raises:
  assumes t: "task_type t = EvalNodeVariantFallback \<or> task_type t = EvalNodeVariantNoneFound"
    and le: "\<not> PriorityOrder cmp t x"
  shows "\<not> PriorityOrder cmp (t\<lparr>task_type := EvalNodeVariantAuthored\<rparr>) x"
proof (cases "task_type x = task_type t")
  case True
  with t show ?thesis by (auto simp add: PriorityOrder_def)
next
  case False
  with le have "typeRank (task_type t) < typeRank (task_type x)"
    using PriorityOrder_diff_not [of t x cmp] by simp
  with t show ?thesis by (cases "task_type x") (auto simp add: PriorityOrder_def)
qed


lemma RetryVariantTasks_step_inv:
  assumes so: "strengthOrder cmp" and k: "k < length ts"
    and hp: "is_heap (PriorityOrder cmp) r" and len: "length r = length ts"
    and dr: "drop k r = drop k ts"
    and ms: "mset (take k r) = mset (map promote (take k ts))"
  shows "is_heap (PriorityOrder cmp) (RetryVariantTasks_step cmp k r)
         \<and> length (RetryVariantTasks_step cmp k r) = length ts
         \<and> drop (Suc k) (RetryVariantTasks_step cmp k r) = drop (Suc k) ts
         \<and> mset (take (Suc k) (RetryVariantTasks_step cmp k r)) = mset (map promote (take (Suc k) ts))"
proof -
  from k len have kr: "k < length r" by simp
  from dr k kr have rk: "r ! k = ts ! k"
    by (metis Cons_nth_drop_Suc list.inject)
  from dr have dr': "drop (Suc k) r = drop (Suc k) ts"
    by (metis drop_drop plus_1_eq_Suc)
  show ?thesis
  proof (cases "task_type (r ! k) = EvalNodeVariantFallback \<or> task_type (r ! k) = EvalNodeVariantNoneFound")
    case True
    let ?v = "(r ! k)\<lparr>task_type := EvalNodeVariantAuthored\<rparr>"
    have st: "RetryVariantTasks_step cmp k r = push_heap_aux (PriorityOrder cmp) (r[k := ?v]) k ?v"
      using True kr by (simp add: RetryVariantTasks_step_def push_heap_def)
    have pv: "promote (ts ! k) = ?v"
      using True rk by (simp add: promote_def)
    have "heap_hole (PriorityOrder cmp) (r[k := ?v]) k ?v"
      using PriorityOrder_strict_weak [OF so] hp kr promote_raises [OF True]
      by (rule is_heap_raise_hole)
    with PriorityOrder_strict_weak [OF so]
    have "is_heap (PriorityOrder cmp) (push_heap_aux (PriorityOrder cmp) (r[k := ?v]) k ?v)"
      by (rule push_heap_aux_is_heap)
    moreover have "drop (Suc k) (push_heap_aux (PriorityOrder cmp) (r[k := ?v]) k ?v) = drop (Suc k) ts"
      using dr' by (simp add: drop_push_heap_aux)
    moreover have "mset (take (Suc k) (push_heap_aux (PriorityOrder cmp) (r[k := ?v]) k ?v))
                   = mset (map promote (take (Suc k) ts))"
    proof -
      have "mset (take (Suc k) (push_heap_aux (PriorityOrder cmp) (r[k := ?v]) k ?v))
            = mset (take k (r[k := ?v])) + {#?v#}"
        using kr by (intro mset_take_push_heap_aux) simp
      also have "take k (r[k := ?v]) = take k r" by simp
      also have "take (Suc k) ts = take k ts @ [ts ! k]"
        using k by (simp add: take_Suc_conv_app_nth)
      ultimately show ?thesis using ms pv by simp
    qed
    ultimately show ?thesis using st len by simp
  next
    case False
    then have st: "RetryVariantTasks_step cmp k r = r"
      by (simp add: RetryVariantTasks_step_def)
    from False rk have "promote (ts ! k) = r ! k"
      by (simp add: promote_def)
    with st hp len dr' ms k kr show ?thesis
      by (simp add: take_Suc_conv_app_nth)
  qed
qed

lemma RetryVariantTasks_loop_inv:
  assumes so: "strengthOrder cmp" and hp: "is_heap (PriorityOrder cmp) ts"
  shows "k \<le> length ts \<Longrightarrow>
         is_heap (PriorityOrder cmp) (fold (RetryVariantTasks_step cmp) [0..<k] ts)
         \<and> length (fold (RetryVariantTasks_step cmp) [0..<k] ts) = length ts
         \<and> drop k (fold (RetryVariantTasks_step cmp) [0..<k] ts) = drop k ts
         \<and> mset (take k (fold (RetryVariantTasks_step cmp) [0..<k] ts))
             = mset (map promote (take k ts))"
proof (induction k)
  case 0
  with hp show ?case by simp
next
  case (Suc k)
  then have k: "k < length ts" by simp
  from Suc have ih: "is_heap (PriorityOrder cmp) (fold (RetryVariantTasks_step cmp) [0..<k] ts)"
    "length (fold (RetryVariantTasks_step cmp) [0..<k] ts) = length ts"
    "drop k (fold (RetryVariantTasks_step cmp) [0..<k] ts) = drop k ts"
    "mset (take k (fold (RetryVariantTasks_step cmp) [0..<k] ts)) = mset (map promote (take k ts))"
    by simp_all
  from RetryVariantTasks_step_inv [OF so k ih] show ?case by simp
qed

lemma RetryVariantTasks_heap:
  assumes "strengthOrder cmp" and "is_heap (PriorityOrder cmp) ts"
  shows "is_heap (PriorityOrder cmp) (RetryVariantTasks cmp ts)
         \<and> mset (RetryVariantTasks cmp ts) = image_mset promote (mset ts)"
proof -
  let ?r = "fold (RetryVariantTasks_step cmp) [0..<length ts] ts"
  from RetryVariantTasks_loop_inv [OF assms, of "length ts"]
  have h: "is_heap (PriorityOrder cmp) ?r" and l: "length ?r = length ts"
    and m: "mset (take (length ts) ?r) = mset (map promote (take (length ts) ts))"
    by blast+
  from l have "take (length ts) ?r = ?r" by simp
  with m have "mset ?r = image_mset promote (mset ts)" by simp
  with h show ?thesis by (simp add: RetryVariantTasks_def)
qed

lemma strengthOrder_strengthCmp: "strengthOrder strengthCmp"
  by (auto simp add: strengthOrder_def strengthCmp_def split: if_splits)

section \<open>What recording an error leaves alone\<close>

lemma indexer_RecordError_frame [simp]:
  "indexGraph (indexer_RecordError indexer e) = indexGraph indexer"
  "previousFrame (indexer_RecordError indexer e) = previousFrame indexer"
  "inputs (indexer_RecordError indexer e) = inputs indexer"
  "rootSite (indexer_RecordError indexer e) = rootSite indexer"
  "tasks (indexer_RecordError indexer e) = tasks indexer"
  "taskUniq (indexer_RecordError indexer e) = taskUniq indexer"
  "payloadState (outputs (indexer_RecordError indexer e)) = payloadState (outputs indexer)"
  by (simp_all add: indexer_RecordError_def indexGraph_def split: prod.splits)

lemma indexer_RecordErrors_frame [simp]:
  "indexGraph (indexer_RecordErrors indexer es) = indexGraph indexer"
  "previousFrame (indexer_RecordErrors indexer es) = previousFrame indexer"
  "inputs (indexer_RecordErrors indexer es) = inputs indexer"
  "rootSite (indexer_RecordErrors indexer es) = rootSite indexer"
  "tasks (indexer_RecordErrors indexer es) = tasks indexer"
  "taskUniq (indexer_RecordErrors indexer es) = taskUniq indexer"
  "payloadState (outputs (indexer_RecordErrors indexer es)) = payloadState (outputs indexer)"
  by (induction es arbitrary: indexer) simp_all

lemma AddExpressionVariableDependencies_frame [simp]:
  "indexGraph (AddExpressionVariableDependencies indexer ls deps) = indexGraph indexer"
  "previousFrame (AddExpressionVariableDependencies indexer ls deps) = previousFrame indexer"
  "inputs (AddExpressionVariableDependencies indexer ls deps) = inputs indexer"
  "rootSite (AddExpressionVariableDependencies indexer ls deps) = rootSite indexer"
  "tasks (AddExpressionVariableDependencies indexer ls deps) = tasks indexer"
  "taskUniq (AddExpressionVariableDependencies indexer ls deps) = taskUniq indexer"
  "payloadState (outputs (AddExpressionVariableDependencies indexer ls deps))
     = payloadState (outputs indexer)"
  by (simp_all add: AddExpressionVariableDependencies_def indexGraph_def)

lemma setIndexGraph_frame [simp]:
  "indexGraph (setIndexGraph indexer g) = g"
  "previousFrame (setIndexGraph indexer g) = previousFrame indexer"
  "inputs (setIndexGraph indexer g) = inputs indexer"
  "rootSite (setIndexGraph indexer g) = rootSite indexer"
  "tasks (setIndexGraph indexer g) = tasks indexer"
  "taskUniq (setIndexGraph indexer g) = taskUniq indexer"
  "payloadState (outputs (setIndexGraph indexer g)) = payloadState (outputs indexer)"
  "allErrors (outputs (setIndexGraph indexer g)) = allErrors (outputs indexer)"
  "localErrors (primIndex (outputs (setIndexGraph indexer g)))
     = localErrors (primIndex (outputs indexer))"
  by (simp_all add: setIndexGraph_def indexGraph_def)

section \<open>Evaluators of nodes that cannot contribute specs\<close>

text \<open>
  Claim C10. On a node for which \<open>CanContributeSpecs\<close> is false, the evaluators of
  references, payloads, inherits, specializes, variant sets, authored variants and
  fallback variants return at once: the indexer, and with it the graph, the task queue,
  the outputs and the error lists, is what it was.
\<close>

theorem direct_arc_evaluators_skip_noncontributing:
  assumes "\<not> CanContributeSpecs env (nodes (indexGraph indexer) ! node)"
  shows "EvalNodeReferences env node indexer = indexer
         \<and> EvalNodePayloads env node indexer = indexer
         \<and> EvalNodeInherits env node indexer = indexer
         \<and> EvalNodeSpecializes env node indexer = indexer
         \<and> EvalNodeVariantSets env node indexer = indexer
         \<and> EvalNodeAuthoredVariant env node indexer vset vsetNum = indexer
         \<and> EvalNodeFallbackVariant env node indexer vset vsetNum = indexer"
  using assms
  by (simp add: EvalNodeReferences_def EvalNodePayloads_def EvalNodeInherits_def
      EvalNodeSpecializes_def EvalNodeVariantSets_def EvalNodeAuthoredVariant_def
      EvalNodeFallbackVariant_def)

lemma example_inert_root:
  "\<not> CanContributeSpecs exampleEnv
       (nodes (indexGraph (setIndexGraph exampleIndexer (SetInert exampleGraph 0 True))) ! 0)"
  by (simp add: exampleEnv_def SetInert_def exampleGraph_def exampleRootNode_def)

theorem direct_arc_evaluators_skip_noncontributing_witness:
  "\<not> CanContributeSpecs exampleEnv
       (nodes (indexGraph (setIndexGraph exampleIndexer (SetInert exampleGraph 0 True))) ! 0)
   \<and> EvalNodeReferences exampleEnv 0 (setIndexGraph exampleIndexer (SetInert exampleGraph 0 True))
       = setIndexGraph exampleIndexer (SetInert exampleGraph 0 True)
   \<and> EvalNodeAuthoredVariant exampleEnv 0
       (setIndexGraph exampleIndexer (SetInert exampleGraph 0 True)) ''v'' 0
       = setIndexGraph exampleIndexer (SetInert exampleGraph 0 True)"
  using example_inert_root
    direct_arc_evaluators_skip_noncontributing [OF example_inert_root, of "''v''" 0]
  by blast

section \<open>Payloads left out by the include set\<close>

lemma SetHasPayloads_frame [simp]:
  "nodes (SetHasPayloads g b) = nodes g"
  "hasPayloads (SetHasPayloads g b) = b"
  "GetSite (SetHasPayloads g b) n = GetSite g n"
  "GetRootNode (SetHasPayloads g b) = GetRootNode g"
  by (simp_all add: SetHasPayloads_def GetSite_def GetRootNode_def)

lemma IsAncestralPayloadOfSubrootReference_frame [simp]:
  "IsAncestralPayloadOfSubrootReference
     (setIndexGraph (indexer_RecordErrors (AddExpressionVariableDependencies indexer ls deps) es)
        (SetHasPayloads (indexGraph indexer) b))
   = IsAncestralPayloadOfSubrootReference indexer"
  by (simp add: IsAncestralPayloadOfSubrootReference_def split: list.splits)






section \<open>Retrying variant tasks\<close>

lemma is_heap_list_all:
  "is_heap lt xs = list_all (\<lambda>i. \<not> lt (xs ! ((i - 1) div 2)) (xs ! i)) [1..<length xs]"
  by (auto simp add: is_heap_def list_all_iff)

lemma promote_not_pending:
  "task_type (promote t) \<noteq> EvalNodeVariantFallback
   \<and> task_type (promote t) \<noteq> EvalNodeVariantNoneFound"
  by (simp add: promote_def)

text \<open>
  Claim C8. Let the strength comparison be a strict total order of the nodes and let the
  tasks form a heap for the priority order. Then \<open>RetryVariantTasks\<close> leaves a heap again,
  its tasks are the former ones with every \<open>EvalNodeVariantFallback\<close> and
  \<open>EvalNodeVariantNoneFound\<close> task turned into \<open>EvalNodeVariantAuthored\<close> (the others as
  they were), so none of the two kinds is left; and when the \<open>AddArc\<close> call of
  \<open>AddVariantArc\<close> has inserted the Variant node, \<open>AddVariantArc\<close> ends with
  \<open>RetryVariantTasks\<close> applied to the tasks that \<open>AddArc\<close> left.
\<close>

theorem RetryVariantTasks_promotes_reheaps_after_variant_arc:
  assumes so: "strengthOrder (PcpCompareNodeStrength env)"
    and hp: "is_heap (PriorityOrder (PcpCompareNodeStrength env)) ts"
    and added: "AddArc' env PcpArcTypeVariant node node
                  \<lparr>layerStack = GetLayerStack (indexGraph indexer) node,
                    path = AppendVariantSelection (path (GetSite (indexGraph indexer) node)) vset vsel\<rparr>
                  Identity vsetNum True False False indexer = (Some newNode, indexer')"
  shows "is_heap (PriorityOrder (PcpCompareNodeStrength env))
           (RetryVariantTasks (PcpCompareNodeStrength env) ts)
         \<and> mset (RetryVariantTasks (PcpCompareNodeStrength env) ts) = image_mset promote (mset ts)
         \<and> (\<forall>t \<in> set (RetryVariantTasks (PcpCompareNodeStrength env) ts).
                task_type t \<noteq> EvalNodeVariantFallback
                \<and> task_type t \<noteq> EvalNodeVariantNoneFound)
         \<and> AddVariantArc env indexer node vset vsetNum vsel
             = indexer'\<lparr>tasks := RetryVariantTasks (PcpCompareNodeStrength env) (tasks indexer')\<rparr>"
proof -
  let ?r = "RetryVariantTasks (PcpCompareNodeStrength env) ts"
  from RetryVariantTasks_heap [OF so hp]
  have h: "is_heap (PriorityOrder (PcpCompareNodeStrength env)) ?r"
    and m: "mset ?r = image_mset promote (mset ts)"
    by blast+
  have "\<forall>t \<in> set ?r. task_type t \<noteq> EvalNodeVariantFallback
                        \<and> task_type t \<noteq> EvalNodeVariantNoneFound"
  proof
    fix t assume "t \<in> set ?r"
    then have "t \<in># image_mset promote (mset ts)" using m by (metis set_mset_mset)
    then obtain s where "t = promote s" by auto
    then show "task_type t \<noteq> EvalNodeVariantFallback \<and> task_type t \<noteq> EvalNodeVariantNoneFound"
      using promote_not_pending by simp
  qed
  moreover have "AddVariantArc env indexer node vset vsetNum vsel
      = indexer'\<lparr>tasks := RetryVariantTasks (PcpCompareNodeStrength env) (tasks indexer')\<rparr>"
    using added by (simp add: AddVariantArc_def Let_def)
  ultimately show ?thesis using h m by blast
qed

lemma example_tasks_heap:
  "is_heap (PriorityOrder (PcpCompareNodeStrength exampleEnv)) exampleTasks"
  by (simp add: is_heap_list_all exampleTasks_def PriorityOrder_def exampleEnv_def)

lemma example_strengthOrder: "strengthOrder (PcpCompareNodeStrength exampleEnv)"
  by (simp add: exampleEnv_def strengthOrder_strengthCmp)

lemma example_retry:
  "RetryVariantTasks (PcpCompareNodeStrength exampleEnv) exampleTasks =
     [\<lparr>task_type = EvalNodeVariantAuthored, task_vsetNum = 1, task_node = 0, task_vsetName = ''u''\<rparr>,
      \<lparr>task_type = EvalNodeVariantAuthored, task_vsetNum = 5, task_node = 0, task_vsetName = ''w''\<rparr>]"
  by (simp add: RetryVariantTasks_def RetryVariantTasks_step_def exampleTasks_def push_heap_def
      push_heap_aux.simps PriorityOrder_def upt_rec exampleEnv_def strengthCmp_def)

lemma example_variant_arc:
  "fst (AddArc' exampleEnv PcpArcTypeVariant 0 0
          \<lparr>layerStack = GetLayerStack (indexGraph (exampleIndexer\<lparr>tasks := exampleTasks\<rparr>)) 0,
            path = AppendVariantSelection
                     (path (GetSite (indexGraph (exampleIndexer\<lparr>tasks := exampleTasks\<rparr>)) 0))
                     ''v'' ''a''\<rparr>
          Identity 0 True False False (exampleIndexer\<lparr>tasks := exampleTasks\<rparr>)) = Some 1"
  "tasks (snd (AddArc' exampleEnv PcpArcTypeVariant 0 0
          \<lparr>layerStack = GetLayerStack (indexGraph (exampleIndexer\<lparr>tasks := exampleTasks\<rparr>)) 0,
            path = AppendVariantSelection
                     (path (GetSite (indexGraph (exampleIndexer\<lparr>tasks := exampleTasks\<rparr>)) 0))
                     ''v'' ''a''\<rparr>
          Identity 0 True False False (exampleIndexer\<lparr>tasks := exampleTasks\<rparr>))) = exampleTasks"
  by (simp_all add: AddArc'_def AddArc_def IsNull_def CheckForCycle_def IsImpliedClassBasedArc_def
      exampleIndexer_def AddArc_leaf_def AddArc_finish_def SaltedEarth_def exampleEnv_def
      exampleInsertChild_def indexGraph_def setIndexGraph_def exampleOutputs_def exampleGraph_def
      exampleInputs_def Let_def GetPermission_def GetPath_def SetInert_def SetHasSpecs_def
      IsInert_def HasSpecs_def AbsoluteRootPath_def AppendVariantSelection_def GetSite_def
      exampleRootNode_def exampleSite_def PcpIsClassBasedArc_def)

lemma example_variant_arc_added:
  "AddArc' exampleEnv PcpArcTypeVariant 0 0
          \<lparr>layerStack = GetLayerStack (indexGraph (exampleIndexer\<lparr>tasks := exampleTasks\<rparr>)) 0,
            path = AppendVariantSelection
                     (path (GetSite (indexGraph (exampleIndexer\<lparr>tasks := exampleTasks\<rparr>)) 0))
                     ''v'' ''a''\<rparr>
          Identity 0 True False False (exampleIndexer\<lparr>tasks := exampleTasks\<rparr>)
   = (Some 1,
      snd (AddArc' exampleEnv PcpArcTypeVariant 0 0
          \<lparr>layerStack = GetLayerStack (indexGraph (exampleIndexer\<lparr>tasks := exampleTasks\<rparr>)) 0,
            path = AppendVariantSelection
                     (path (GetSite (indexGraph (exampleIndexer\<lparr>tasks := exampleTasks\<rparr>)) 0))
                     ''v'' ''a''\<rparr>
          Identity 0 True False False (exampleIndexer\<lparr>tasks := exampleTasks\<rparr>)))"
  by (simp only: prod_eq_iff fst_conv snd_conv example_variant_arc(1) simp_thms)

theorem RetryVariantTasks_promotes_reheaps_after_variant_arc_witness:
  "strengthOrder (PcpCompareNodeStrength exampleEnv)
   \<and> is_heap (PriorityOrder (PcpCompareNodeStrength exampleEnv)) exampleTasks
   \<and> is_heap (PriorityOrder (PcpCompareNodeStrength exampleEnv))
         (RetryVariantTasks (PcpCompareNodeStrength exampleEnv) exampleTasks)
   \<and> tasks (AddVariantArc exampleEnv (exampleIndexer\<lparr>tasks := exampleTasks\<rparr>) 0 ''v'' 0 ''a'')
       = [\<lparr>task_type = EvalNodeVariantAuthored, task_vsetNum = 1, task_node = 0, task_vsetName = ''u''\<rparr>,
          \<lparr>task_type = EvalNodeVariantAuthored, task_vsetNum = 5, task_node = 0, task_vsetName = ''w''\<rparr>]"
  using example_strengthOrder example_tasks_heap
    RetryVariantTasks_promotes_reheaps_after_variant_arc
      [OF example_strengthOrder example_tasks_heap example_variant_arc_added]
    example_variant_arc(2) example_retry
  by simp

section \<open>Which nodes can be culled\<close>

text \<open>
  Claim C3, as stated, fails: a node that is restricted and private, not culled yet, with
  no specs and below the level of its introduction, can be culled.
\<close>

theorem NodeCanBeCulled_restricted_counterexample:
  "restricted (nodes exampleRestrictedGraph ! 1)
   \<and> permission (nodes exampleRestrictedGraph ! 1) = SdfPermissionPrivate
   \<and> \<not> IsCulled exampleRestrictedGraph 1
   \<and> NodeCanBeCulled exampleDeepEnv exampleRestrictedGraph 1 exampleSite"
  by (simp add: NodeCanBeCulled_def exampleRestrictedGraph_def exampleRestrictedChild_def
      exampleCulledGrandchild_def exampleDeepEnv_def exampleEnv_def IsCulled_def IsRootNode_def
      GetParentNode_def HasSymmetry_def GetArcType_def Pcp_GetChildrenRange_def HasSpecs_def)

text \<open>
  Claim C3, amended. A node that is culled already is reported as one that can be
  culled. Any other node can be culled if and only if all its children are culled, it does
  not both have specs and contribute them, and none of these holds: it is the root node;
  its depth below introduction is 0; it carries symmetry; it is an Inherit node in the
  layer stack of the root site whose origin (the node itself for a direct arc, else its
  origin root node) was introduced at a path that is not a root prim path.
\<close>

theorem NodeCanBeCulled_characterised:
  "NodeCanBeCulled env g n rootLayerStack \<longleftrightarrow>
     IsCulled g n
     \<or> (\<not> IsRootNode g n
        \<and> GetDepthBelowIntroduction env g n \<noteq> 0
        \<and> \<not> HasSymmetry g n
        \<and> \<not> (GetArcType g n = PcpArcTypeInherit
              \<and> GetLayerStack g n = layerStack rootLayerStack
              \<and> \<not> IsRootPrimPath
                    (GetPathAtIntroduction env g
                       (if GetOriginNode g n = GetParentNode g n then n
                        else GetOriginRootNode env g n)))
        \<and> (\<forall>child \<in> set (Pcp_GetChildrenRange g n). IsCulled g child)
        \<and> \<not> (HasSpecs g n \<and> CanContributeSpecs env (nodes g ! n)))"
  unfolding NodeCanBeCulled_def list_ex_iff by auto

theorem NodeCanBeCulled_characterised_witness:
  "Pcp_GetChildrenRange exampleRestrictedGraph 1 = [2]
   \<and> IsCulled exampleRestrictedGraph 2
   \<and> NodeCanBeCulled exampleDeepEnv exampleRestrictedGraph 1 exampleSite
   \<and> \<not> NodeCanBeCulled exampleDeepEnv exampleRestrictedGraph 0 exampleSite"
  using NodeCanBeCulled_characterised [of exampleDeepEnv exampleRestrictedGraph 1 exampleSite]
    NodeCanBeCulled_characterised [of exampleDeepEnv exampleRestrictedGraph 0 exampleSite]
  by (simp add: exampleRestrictedGraph_def exampleRestrictedChild_def exampleCulledGrandchild_def
      exampleRootNode_def exampleDeepEnv_def exampleEnv_def IsCulled_def IsRootNode_def
      GetParentNode_def HasSymmetry_def GetArcType_def Pcp_GetChildrenRange_def HasSpecs_def)

section \<open>The decision on the variant fallback\<close>

lemma parentChain_root: "GetParentNode g n = None \<Longrightarrow> parentChain g n = [n]"
  by (subst parentChain.simps) simp

lemma HasPayloadAncestor_iff:
  "HasPayloadAncestor g n \<longleftrightarrow> (\<exists>a \<in> set (parentChain g n). GetArcType g a = PcpArcTypePayload)"
proof (induction g n rule: HasPayloadAncestor.induct)
  case (1 g n)
  show ?case
  proof (cases "GetParentNode g n")
    case None
    then show ?thesis
      by (subst HasPayloadAncestor.simps, subst parentChain.simps) simp
  next
    case (Some p)
    show ?thesis
    proof (cases "GetArcType g n = PcpArcTypePayload")
      case True
      then show ?thesis
        by (subst HasPayloadAncestor.simps, subst parentChain.simps) simp
    next
      case False
      with Some "1.IH" [OF False Some] show ?thesis
        by (subst HasPayloadAncestor.simps, subst parentChain.simps) simp
    qed
  qed
qed

lemma SelectionInSessionLayers_iff:
  "SelectionInSessionLayers r p vset vsel ls \<longleftrightarrow>
     (\<exists>l \<in> set (takeWhile (\<lambda>l. l \<noteq> r) ls).
        \<exists>vselMap. map_of (variantSelectionField l) p = Some vselMap
                  \<and> map_of vselMap vset = Some vsel)"
  by (induction ls) (auto split: option.splits)

text \<open>
  Claim C4, as stated, fails: for the set \<open>standin\<close>, the new behaviour off, a selection
  authored on the root node in the root layer is not in a session layer, yet with a
  fallback at hand the fallback is not used.
\<close>

theorem ShouldUseVariantFallback_standin_counterexample:
  "ShouldUseVariantFallback_claimed exampleStandinEnv exampleIndexer ''standin'' ''full''
     (exampleGraph, 0)
   \<and> \<not> ShouldUseVariantFallback exampleStandinEnv exampleIndexer ''standin'' ''full'' ''render''
         (exampleGraph, 0)"
  by (simp add: ShouldUseVariantFallback_claimed_def ShouldUseVariantFallback_def
      exampleStandinEnv_def exampleEnv_def exampleIndexer_def exampleSite_def
      exampleLayerStack_def exampleGraph_def exampleRootNode_def GetArcType_def
      HasPayloadAncestor.simps GetParentNode_def)

text \<open>
  Claim C4, amended. On a node that can contribute specs, with \<open>vsel\<close> the authored selection
  found on node \<open>n\<close> of graph \<open>g\<close> and \<open>vselFallback\<close> the first fallback among the
  options: the fallback is used if and only if there is a fallback and either the
  authored selection is empty, or the set is \<open>standin\<close>, the new standin behaviour is off,
  \<open>n\<close> is not a Variant node that selects this set, and the selection comes from a node at or
  beneath a Payload arc or else is neither authored in a session layer of the root site nor
  found on a root node. If the fallback is used an \<open>EvalNodeVariantFallback\<close> task is
  enqueued; else if the selection is empty an \<open>EvalNodeVariantNoneFound\<close> task; else
  \<open>AddVariantArc\<close> is called.
\<close>

theorem EvalNodeAuthoredVariant_decision:
  assumes can: "CanContributeSpecs env (nodes (indexGraph indexer) ! node)"
    and comp: "ComposeVariantSelection env indexer node
                 (StripAllVariantSelections (GetPath (indexGraph indexer) node)) vset
               = (vsel, (g, n), indexer1)"
    and fb: "vselFallback = ChooseBestFallbackAmongOptions vset
               (PcpComposeSiteVariantSetOptions env (indexGraph indexer) node vset)
               (variantFallbacks (inputs indexer))"
  shows "(ShouldUseVariantFallback env indexer1 vset vsel vselFallback (g, n) \<longleftrightarrow>
            vselFallback \<noteq> ''''
            \<and> (vsel = ''''
               \<or> (vset = ''standin''
                  \<and> \<not> PcpIsNewDefaultStandinBehaviorEnabled env
                  \<and> \<not> (GetArcType g n = PcpArcTypeVariant
                        \<and> IsPrimVariantSelectionPath (GetPath g n)
                        \<and> fst (GetVariantSelection (GetPath g n)) = vset)
                  \<and> ((\<exists>a \<in> set (parentChain g n). GetArcType g a = PcpArcTypePayload)
                     \<or> (\<not> (\<exists>l \<in> set (takeWhile
                                          (\<lambda>l. l \<noteq> rootLayer (layerStack (rootSite indexer1)))
                                          (layers (layerStack (rootSite indexer1)))).
                              \<exists>vselMap. map_of (variantSelectionField l) (path (rootSite indexer1))
                                          = Some vselMap
                                        \<and> map_of vselMap vset = Some vsel)
                        \<and> GetArcType g n \<noteq> PcpArcTypeRoot)))))
         \<and> EvalNodeAuthoredVariant env node indexer vset vsetNum
             = (if ShouldUseVariantFallback env indexer1 vset vsel vselFallback (g, n)
                then AddTask (PcpCompareNodeStrength env) indexer1
                       \<lparr>task_type = EvalNodeVariantFallback, task_vsetNum = vsetNum,
                        task_node = node, task_vsetName = vset\<rparr>
                else if vsel = ''''
                then AddTask (PcpCompareNodeStrength env) indexer1
                       \<lparr>task_type = EvalNodeVariantNoneFound, task_vsetNum = vsetNum,
                        task_node = node, task_vsetName = vset\<rparr>
                else AddVariantArc env indexer1 node vset vsetNum vsel)"
proof -
  have d: "EvalNodeAuthoredVariant env node indexer vset vsetNum
             = (if ShouldUseVariantFallback env indexer1 vset vsel vselFallback (g, n)
                then AddTask (PcpCompareNodeStrength env) indexer1
                       \<lparr>task_type = EvalNodeVariantFallback, task_vsetNum = vsetNum,
                        task_node = node, task_vsetName = vset\<rparr>
                else if vsel = ''''
                then AddTask (PcpCompareNodeStrength env) indexer1
                       \<lparr>task_type = EvalNodeVariantNoneFound, task_vsetNum = vsetNum,
                        task_node = node, task_vsetName = vset\<rparr>
                else AddVariantArc env indexer1 node vset vsetNum vsel)"
    using can comp fb by (simp add: EvalNodeAuthoredVariant_def Let_def)
  show ?thesis
    unfolding d
    by (simp add: ShouldUseVariantFallback_def HasPayloadAncestor_iff SelectionInSessionLayers_iff)
qed

lemma example_fallback_premises:
  "CanContributeSpecs exampleFallbackEnv (nodes (indexGraph exampleFallbackIndexer) ! 0)"
  "ComposeVariantSelection exampleFallbackEnv exampleFallbackIndexer 0
     (StripAllVariantSelections (GetPath (indexGraph exampleFallbackIndexer) 0)) ''v''
   = ('''', (exampleGraph, 0), exampleFallbackIndexer)"
  "''a'' = ChooseBestFallbackAmongOptions ''v''
             (PcpComposeSiteVariantSetOptions exampleFallbackEnv (indexGraph exampleFallbackIndexer) 0 ''v'')
             (variantFallbacks (inputs exampleFallbackIndexer))"
  by (simp_all add: exampleFallbackEnv_def exampleEnv_def exampleFallbackIndexer_def
      exampleIndexer_def exampleInputs_def exampleOutputs_def exampleGraph_def exampleRootNode_def
      indexGraph_def ChooseBestFallbackAmongOptions_def)

theorem EvalNodeAuthoredVariant_decision_witness:
  "ShouldUseVariantFallback exampleFallbackEnv exampleFallbackIndexer ''v'' '''' ''a'' (exampleGraph, 0)
   \<and> tasks (EvalNodeAuthoredVariant exampleFallbackEnv 0 exampleFallbackIndexer ''v'' 0)
       = [\<lparr>task_type = EvalNodeVariantFallback, task_vsetNum = 0, task_node = 0,
           task_vsetName = ''v''\<rparr>]"
  using EvalNodeAuthoredVariant_decision [OF example_fallback_premises, of 0]
  by (simp add: AddTask_def IsImpliedTaskType_def push_heap_def push_heap_aux.simps
      exampleFallbackIndexer_def exampleIndexer_def)

section \<open>The salted-earth rule\<close>











section \<open>Permission enforcement\<close>

lemma find_snoc:
  "find P (xs @ [x]) = (case find P xs of Some y \<Rightarrow> Some y | None \<Rightarrow> if P x then Some x else None)"
  by (induction xs) auto

lemma find_in_set: "find P xs = Some y \<Longrightarrow> y \<in> set xs \<and> P y"
  by (induction xs) (auto split: if_splits)

lemma privateSeen_snoc_old:
  "k \<le> length ws \<Longrightarrow> privateSeen env g (ws @ [x]) k = privateSeen env g ws k"
  by (simp add: privateSeen_def)

lemma privateSeen_all: "privateSeen env g ws (length ws) = find (nonPublicContributor env g) ws"
  by (simp add: privateSeen_def)

lemma permissionErrorsAt_snoc_old:
  "k < length ws \<Longrightarrow> permissionErrorsAt env g (ws @ [x]) k = permissionErrorsAt env g ws k"
proof -
  assume k: "k < length ws"
  then have e: "(ws @ [x]) ! k = ws ! k" by (simp add: nth_append)
  from k have a: "privateSeen env g (ws @ [x]) k = privateSeen env g ws k"
    by (simp add: privateSeen_snoc_old)
  show ?thesis unfolding permissionErrorsAt_def a e ..
qed

lemma permissionErrors_snoc:
  "permissionErrors env g (ws @ [x])
   = permissionErrors env g ws @ permissionErrorsAt env g (ws @ [x]) (length ws)"
proof -
  have m: "map (permissionErrorsAt env g (ws @ [x])) [0..<length ws]
           = map (permissionErrorsAt env g ws) [0..<length ws]"
    by (rule map_cong [OF refl]) (simp add: permissionErrorsAt_snoc_old)
  have r: "[0..<length (ws @ [x])] = [0..<length ws] @ [length ws]" by simp
  show ?thesis
    by (simp only: permissionErrors_def r m map_append concat_append list.map concat.simps
        append_Nil2)
qed

lemma extendLocal_append:
  "extendLocal (extendLocal loc xs) ys = extendLocal loc (xs @ ys)"
  by (simp add: extendLocal_def)

lemma RecordError_permission:
  "RecordError (permissionError g n p) loc errs
   = (extendLocal loc [permissionError g n p], errs @ [permissionError g n p])"
  by (simp add: RecordError_def permissionError_def extendLocal_def)


lemma SetRestricted_nodes:
  "n < length (nodes g) \<Longrightarrow>
   nodes (SetRestricted g n b) = (nodes g)[n := (nodes g ! n)\<lparr>restricted := b\<rparr>]"
  by (simp add: SetRestricted_def)

lemma nodeAfter_snoc_old:
  "k < length ws \<Longrightarrow> nodeAfter env g (ws @ [x]) k = nodeAfter env g ws k"
proof -
  assume k: "k < length ws"
  then have e: "(ws @ [x]) ! k = ws ! k" by (simp add: nth_append)
  from k have a: "privateSeen env g (ws @ [x]) k = privateSeen env g ws k"
    by (simp add: privateSeen_snoc_old)
  show ?thesis unfolding nodeAfter_def a e ..
qed

lemma enforcedI:
  assumes "length (nodes g') = length (nodes g)"
    and "hasPayloads g' = hasPayloads g"
    and "\<And>k. k < length ws \<Longrightarrow> nodes g' ! (ws ! k) = nodeAfter env g ws k"
    and "\<And>n. n \<notin> set ws \<Longrightarrow> nodes g' ! n = nodes g ! n"
    and "errs' = errs @ permissionErrors env g ws"
    and "loc' = extendLocal loc (permissionErrors env g ws)"
    and "pn = find (nonPublicContributor env g) ws"
  shows "enforced env g loc errs ws (g', loc', errs', pn)"
  using assms by (simp add: enforced_def)

lemma enforced_step:
  assumes inv: "enforced env g loc errs ws st"
    and xs: "x \<notin> set ws" and xl: "x < length (nodes g)"
  shows "enforced env g loc errs (ws @ [x]) (EnforcePermissions_step env x st)"
proof -
  obtain g' loc' errs' pn where st: "st = (g', loc', errs', pn)" by (cases st)
  from inv have len: "length (nodes g') = length (nodes g)"
    and hp: "hasPayloads g' = hasPayloads g"
    and old: "\<And>k. k < length ws \<Longrightarrow> nodes g' ! (ws ! k) = nodeAfter env g ws k"
    and out: "\<And>n. n \<notin> set ws \<Longrightarrow> nodes g' ! n = nodes g ! n"
    and er: "errs' = errs @ permissionErrors env g ws"
    and lo: "loc' = extendLocal loc (permissionErrors env g ws)"
    and pn: "pn = find (nonPublicContributor env g) ws"
    by (simp_all add: enforced_def st)
  have gx: "nodes g' ! x = nodes g ! x" using out xs by simp
  have same: "node_site (nodes g' ! n) = node_site (nodes g ! n)" for n
  proof (cases "n \<in> set ws")
    case True
    then obtain k where "k < length ws" "ws ! k = n" by (auto simp add: in_set_conv_nth)
    with old [of k] show ?thesis by (auto simp add: nodeAfter_def)
  next
    case False
    with out show ?thesis by simp
  qed
  have ps: "privateSeen env g (ws @ [x]) (length ws) = pn" by (simp add: privateSeen_def pn)
  have oldk: "nodes h ! ((ws @ [x]) ! k) = nodeAfter env g (ws @ [x]) k"
    if h: "\<And>n. n \<noteq> x \<Longrightarrow> nodes h ! n = nodes g' ! n"
      and hx: "nodes h ! x = nodeAfter env g (ws @ [x]) (length ws)"
      and k: "k < length (ws @ [x])" for h k
  proof (cases "k < length ws")
    case True
    with xs have "ws ! k \<noteq> x" by auto
    with True h [of "ws ! k"] old [of k] show ?thesis
      by (simp add: nodeAfter_snoc_old nth_append)
  next
    case False
    with k have "k = length ws" by simp
    with hx show ?thesis by simp
  qed
  have outk: "nodes h ! n = nodes g ! n"
    if h: "\<And>n. n \<noteq> x \<Longrightarrow> nodes h ! n = nodes g' ! n" and n: "n \<notin> set (ws @ [x])" for h n
    using h [of n] out [of n] n by simp
  show ?thesis
  proof (cases "CanContributeSpecs env (nodes g ! x)")
    case False
    have step: "EnforcePermissions_step env x st = (g', loc', errs', pn)"
      using False gx by (simp add: EnforcePermissions_step_def st)
    have e: "permissionErrorsAt env g (ws @ [x]) (length ws) = []"
      using False by (simp add: permissionErrorsAt_def split: option.splits)
    have nA: "nodeAfter env g (ws @ [x]) (length ws) = nodes g ! x"
      using False by (simp add: nodeAfter_def)
    have f: "pn = find (nonPublicContributor env g) (ws @ [x])"
      using False by (simp add: find_snoc pn nonPublicContributor_def split: option.splits)
    show ?thesis unfolding step
    proof (rule enforcedI)
      show "length (nodes g') = length (nodes g)" by (rule len)
      show "hasPayloads g' = hasPayloads g" by (rule hp)
      show "nodes g' ! ((ws @ [x]) ! k) = nodeAfter env g (ws @ [x]) k"
        if "k < length (ws @ [x])" for k
        by (rule oldk [OF _ _ that]) (simp_all add: nA gx)
      show "nodes g' ! n = nodes g ! n" if "n \<notin> set (ws @ [x])" for n
        by (rule outk [OF _ that]) simp
      show "errs' = errs @ permissionErrors env g (ws @ [x])"
        by (simp add: permissionErrors_snoc e er)
      show "loc' = extendLocal loc (permissionErrors env g (ws @ [x]))"
        by (simp add: permissionErrors_snoc e lo)
      show "pn = find (nonPublicContributor env g) (ws @ [x])" by (rule f)
    qed
  next
    case can: True
    show ?thesis
    proof (cases pn)
      case None
      let ?pn' = "if permission (nodes g ! x) \<noteq> SdfPermissionPublic then Some x else None"
      have step: "EnforcePermissions_step env x st = (g', loc', errs', ?pn')"
        using can gx None by (simp add: EnforcePermissions_step_def st GetPermission_def)
      have e: "permissionErrorsAt env g (ws @ [x]) (length ws) = []"
        using None ps by (simp add: permissionErrorsAt_def)
      have nA: "nodeAfter env g (ws @ [x]) (length ws) = nodes g ! x"
        using None ps by (simp add: nodeAfter_def)
      have f: "?pn' = find (nonPublicContributor env g) (ws @ [x])"
        using can None pn by (simp add: find_snoc nonPublicContributor_def)
      show ?thesis unfolding step
      proof (rule enforcedI)
        show "length (nodes g') = length (nodes g)" by (rule len)
        show "hasPayloads g' = hasPayloads g" by (rule hp)
        show "nodes g' ! ((ws @ [x]) ! k) = nodeAfter env g (ws @ [x]) k"
          if "k < length (ws @ [x])" for k
          by (rule oldk [OF _ _ that]) (simp_all add: nA gx)
        show "nodes g' ! n = nodes g ! n" if "n \<notin> set (ws @ [x])" for n
          by (rule outk [OF _ that]) simp
        show "errs' = errs @ permissionErrors env g (ws @ [x])"
          by (simp add: permissionErrors_snoc e er)
        show "loc' = extendLocal loc (permissionErrors env g (ws @ [x]))"
          by (simp add: permissionErrors_snoc e lo)
        show "?pn' = find (nonPublicContributor env g) (ws @ [x])" by (rule f)
      qed
    next
      case (Some p)
      let ?g1 = "SetRestricted g' x True"
      let ?E = "permissionErrorsAt env g (ws @ [x]) (length ws)"
      have g1x: "nodes ?g1 ! x = (nodes g ! x)\<lparr>restricted := True\<rparr>"
        using xl len gx by (simp add: SetRestricted_def)
      have g1n: "nodes ?g1 ! n = nodes g' ! n" if "n \<noteq> x" for n
        using that by (simp add: SetRestricted_def)
      have site1: "node_site (nodes ?g1 ! n) = node_site (nodes g ! n)" for n
        by (cases "n = x") (simp_all add: g1x g1n same)
      have hs: "HasSpecs ?g1 x = HasSpecs g x" by (simp add: HasSpecs_def g1x)
      have hl: "HasSpecInAnyLayer ?g1 x = HasSpecInAnyLayer g x"
        by (simp add: HasSpecInAnyLayer_def GetPath_def GetLayerStack_def site1)
      have pe: "\<lparr>errorType = PcpErrorType_PrimPermissionDenied,
                 err_rootSite = Some (GetSite ?g1 (GetRootNode ?g1)),
                 details = PrimPermissionDeniedDetails (GetSite ?g1 x) (GetSite ?g1 p)\<rparr>
                = permissionError g x p"
        by (simp add: permissionError_def GetSite_def site1 GetRootNode_def)
      have e: "?E = (if HasSpecs g x \<and> HasSpecInAnyLayer g x then [permissionError g x p] else [])"
        using can Some ps by (simp add: permissionErrorsAt_def)
      have step: "EnforcePermissions_step env x st
                  = (?g1, extendLocal loc' ?E, errs' @ ?E, Some p)"
        using can gx Some
        by (simp add: EnforcePermissions_step_def st hs hl pe e RecordError_permission
            extendLocal_def Let_def)
      have nA: "nodeAfter env g (ws @ [x]) (length ws) = (nodes g ! x)\<lparr>restricted := True\<rparr>"
        using can Some ps by (simp add: nodeAfter_def)
      have f: "Some p = find (nonPublicContributor env g) (ws @ [x])"
        using Some pn by (simp add: find_snoc)
      show ?thesis unfolding step
      proof (rule enforcedI)
        show "length (nodes ?g1) = length (nodes g)" by (simp add: SetRestricted_def len)
        show "hasPayloads ?g1 = hasPayloads g" by (simp add: SetRestricted_def hp)
        show "nodes ?g1 ! ((ws @ [x]) ! k) = nodeAfter env g (ws @ [x]) k"
          if "k < length (ws @ [x])" for k
          by (rule oldk [OF _ _ that]) (simp_all add: nA g1x g1n)
        show "nodes ?g1 ! n = nodes g ! n" if "n \<notin> set (ws @ [x])" for n
          by (rule outk [OF _ that]) (simp add: g1n)
        show "errs' @ ?E = errs @ permissionErrors env g (ws @ [x])"
          by (simp add: permissionErrors_snoc er)
        show "extendLocal loc' ?E = extendLocal loc (permissionErrors env g (ws @ [x]))"
          by (simp add: permissionErrors_snoc lo extendLocal_append)
        show "Some p = find (nonPublicContributor env g) (ws @ [x])" by (rule f)
      qed
    qed
  qed
qed

lemma enforced_fold:
  "distinct ws \<Longrightarrow> \<forall>x \<in> set ws. x < length (nodes g) \<Longrightarrow>
   enforced env g loc errs ws (fold (EnforcePermissions_step env) ws (g, loc, errs, None))"
proof (induction ws rule: rev_induct)
  case Nil
  show ?case by (simp add: enforced_def permissionErrors_def extendLocal_def)
next
  case (snoc x ws)
  then have "enforced env g loc errs ws (fold (EnforcePermissions_step env) ws (g, loc, errs, None))"
    by simp
  from enforced_step [OF this] snoc.prems show ?case by simp
qed

text \<open>
  Claim C2, as worded: the nodes are walked from strongest to weakest, and the private
  node is set from any node whose permission is not public. In the index of \<open>/P\<close> with
  the children \<open>/A\<close> (private), \<open>/B\<close> (public) and \<open>/C\<close> (private, inert), that walk would
  restrict \<open>/B\<close>. \<open>_EnforcePermissions\<close> walks the gathered list backwards and skips \<open>/C\<close>,
  which cannot contribute specs: it restricts the root only, and neither \<open>/A\<close> nor \<open>/B\<close>,
  both stronger than the private \<open>/C\<close>.
\<close>

theorem EnforcePermissions_counterexample:
  "map restricted (nodes (graph (fst (EnforcePermissions exampleEnv examplePermissionIndex []))))
     = [True, False, False, False]
   \<and> map restricted
       (nodes (graph (fst (EnforcePermissions_claimed exampleEnv examplePermissionIndex []))))
     = [False, False, True, False]"
  by (simp add: EnforcePermissions_def EnforcePermissions_claimed_def
      EnforcePermissions_step_def EnforcePermissions_claimed_step_def
      GatherNodesRecursively.simps Pcp_GetChildrenRange_def GetRootNode_def
      examplePermissionIndex_def examplePermissionNode_def examplePermissionLayerStack_def
      exampleRootNode_def exampleEnv_def exampleLayer_def SetRestricted_def HasSpecs_def
      HasSpecInAnyLayer_def GetPath_def GetLayerStack_def GetSite_def GetPermission_def
      HasSpec_def RecordError_def Let_def)

text \<open>
  Claim C2, amended: \<open>_EnforcePermissions\<close> gathers the nodes from strongest to weakest
  and visits them in the reverse order, skipping every node that cannot contribute
  specs. The private node is the first visited node that can contribute specs and whose
  permission is not public. Every node that can contribute specs and is visited after
  the private node was found becomes restricted, and no other node changes; such a node
  whose has-specs flag is set and that has a spec in a layer of its layer stack adds one
  \<open>PrimPermissionDenied\<close> error, naming its site and the site of the private node, to both
  error lists, in the order of the visits.
\<close>

theorem EnforcePermissions_weakest_first:
  assumes ne: "nodes (graph index) \<noteq> []"
    and dist: "distinct (GatherNodesRecursively (graph index) (GetRootNode (graph index)))"
    and ws: "ws = rev (GatherNodesRecursively (graph index) (GetRootNode (graph index)))"
    and res: "EnforcePermissions env index all = (index', all')"
  shows "(\<forall>k < length ws.
            nodes (graph index') ! (ws ! k)
            = (if CanContributeSpecs env (nodes (graph index) ! (ws ! k))
                  \<and> privateSeen env (graph index) ws k \<noteq> None
               then (nodes (graph index) ! (ws ! k))\<lparr>restricted := True\<rparr>
               else nodes (graph index) ! (ws ! k)))
         \<and> (\<forall>n. n \<notin> set ws \<longrightarrow> nodes (graph index') ! n = nodes (graph index) ! n)
         \<and> all' = all @ permissionErrors env (graph index) ws
         \<and> localErrors index'
             = extendLocal (localErrors index) (permissionErrors env (graph index) ws)"
proof -
  let ?g = "graph index"
  from ne have "GetRootNode ?g < length (nodes ?g)" by (simp add: GetRootNode_def)
  from GatherNodesRecursively_bound [OF this] ws
  have b: "\<forall>x \<in> set ws. x < length (nodes ?g)" by simp
  from dist ws have d: "distinct ws" by simp
  obtain g' loc' errs' pn
    where f: "fold (EnforcePermissions_step env) ws (?g, localErrors index, all, None)
              = (g', loc', errs', pn)"
    by (cases "fold (EnforcePermissions_step env) ws (?g, localErrors index, all, None)")
  from enforced_fold [OF d b, of env "localErrors index" all] f
  have e: "enforced env ?g (localErrors index) all ws (g', loc', errs', pn)" by simp
  from res f ws have i: "index' = \<lparr>graph = g', localErrors = loc'\<rparr>" and a: "all' = errs'"
    by (simp_all add: EnforcePermissions_def Let_def)
  from e show ?thesis unfolding i a by (simp add: enforced_def nodeAfter_def)
qed

lemma example_permission_nodes:
  "nodes (graph examplePermissionIndex) \<noteq> []"
  "distinct (GatherNodesRecursively (graph examplePermissionIndex)
               (GetRootNode (graph examplePermissionIndex)))"
  by (simp_all add: GatherNodesRecursively.simps Pcp_GetChildrenRange_def GetRootNode_def
      examplePermissionIndex_def examplePermissionNode_def exampleRootNode_def)

lemma example_permission_walk:
  "rev (GatherNodesRecursively (graph examplePermissionIndex)
          (GetRootNode (graph examplePermissionIndex))) = [3, 2, Suc 0, 0]"
  "privateSeen exampleEnv (graph examplePermissionIndex) [3, 2, Suc 0, 0] (Suc 0) = None"
  "privateSeen exampleEnv (graph examplePermissionIndex) [3, 2, Suc 0, 0] 3 = Some (Suc 0)"
  "CanContributeSpecs exampleEnv (nodes (graph examplePermissionIndex) ! 0)"
  "permissionErrors exampleEnv (graph examplePermissionIndex) [3, 2, Suc 0, 0]
   = [permissionError (graph examplePermissionIndex) 0 (Suc 0)]"
  by (simp_all add: GatherNodesRecursively.simps Pcp_GetChildrenRange_def GetRootNode_def
      examplePermissionIndex_def examplePermissionNode_def exampleRootNode_def
      examplePermissionLayerStack_def exampleLayer_def
      privateSeen_def nonPublicContributor_def exampleEnv_def permissionErrors_def
      permissionErrorsAt_def HasSpecs_def HasSpecInAnyLayer_def GetPath_def GetLayerStack_def
      HasSpec_def Let_def eval_nat_numeral take_Suc_conv_app_nth)

theorem EnforcePermissions_weakest_first_witness:
  "nodes (graph examplePermissionIndex) \<noteq> []
   \<and> distinct (GatherNodesRecursively (graph examplePermissionIndex)
                 (GetRootNode (graph examplePermissionIndex)))
   \<and> nodes (graph (fst (EnforcePermissions exampleEnv examplePermissionIndex []))) ! 0
       = (nodes (graph examplePermissionIndex) ! 0)\<lparr>restricted := True\<rparr>
   \<and> nodes (graph (fst (EnforcePermissions exampleEnv examplePermissionIndex []))) ! 2
       = nodes (graph examplePermissionIndex) ! 2
   \<and> snd (EnforcePermissions exampleEnv examplePermissionIndex [])
       = [permissionError (graph examplePermissionIndex) 0 (Suc 0)]"
proof -
  note t = EnforcePermissions_weakest_first
             [OF example_permission_nodes refl prod.collapse [symmetric],
              of exampleEnv "[]", unfolded example_permission_walk]
  from t have "\<forall>k<4. nodes (graph (fst (EnforcePermissions exampleEnv examplePermissionIndex [])))
                       ! ([3, 2, Suc 0, 0] ! k)
               = (if CanContributeSpecs exampleEnv
                       (nodes (graph examplePermissionIndex) ! ([3, 2, Suc 0, 0] ! k))
                     \<and> privateSeen exampleEnv (graph examplePermissionIndex) [3, 2, Suc 0, 0] k \<noteq> None
                  then (nodes (graph examplePermissionIndex) ! ([3, 2, Suc 0, 0] ! k))
                         \<lparr>restricted := True\<rparr>
                  else nodes (graph examplePermissionIndex) ! ([3, 2, Suc 0, 0] ! k))"
    by simp
  from this [rule_format, of 3] this [rule_format, of "Suc 0"]
  have "nodes (graph (fst (EnforcePermissions exampleEnv examplePermissionIndex []))) ! 0
       = (nodes (graph examplePermissionIndex) ! 0)\<lparr>restricted := True\<rparr>"
    and "nodes (graph (fst (EnforcePermissions exampleEnv examplePermissionIndex []))) ! 2
       = nodes (graph examplePermissionIndex) ! 2"
    by (simp_all add: example_permission_walk)
  moreover from t have "snd (EnforcePermissions exampleEnv examplePermissionIndex [])
       = [permissionError (graph examplePermissionIndex) 0 (Suc 0)]" by simp
  ultimately show ?thesis using example_permission_nodes by simp
qed

section \<open>The cycle check of \<open>_AddArc\<close>\<close>

lemma FindAncestorCycleInParentGraph_iff:
  "FindAncestorCycleInParentGraph g n s
   \<longleftrightarrow> (\<exists>a \<in> set (parentChain g n). HasAncestorCycle (GetSite g a) s)"
proof (induction g n s rule: FindAncestorCycleInParentGraph.induct)
  case (1 g n s)
  show ?case
  proof (cases "GetParentNode g n")
    case None
    then show ?thesis
      by (subst FindAncestorCycleInParentGraph.simps, subst parentChain.simps) simp
  next
    case (Some p)
    show ?thesis
    proof (cases "HasAncestorCycle (GetSite g n) s")
      case True
      then show ?thesis
        by (subst FindAncestorCycleInParentGraph.simps, subst parentChain.simps) simp
    next
      case False
      from "1.IH" [OF False Some] False Some show ?thesis
        by (subst FindAncestorCycleInParentGraph.simps, subst parentChain.simps) simp
    qed
  qed
qed

lemma FindCycleAcrossFrames_iff:
  "FindCycleAcrossFrames fs g n s
   \<longleftrightarrow> (\<exists>(g', n', s') \<in> set (FrameSites fs g n s).
          \<exists>a \<in> set (parentChain g' n'). HasAncestorCycle (GetSite g' a) s')"
proof (induction fs arbitrary: g n s)
  case Nil
  show ?case by (simp add: FindAncestorCycleInParentGraph_iff)
next
  case (Cons f rest)
  show ?case
    by (simp add: FindAncestorCycleInParentGraph_iff Cons.IH Let_def)
qed

lemma SkipParentClassArcs_find:
  "parent \<noteq> origin \<Longrightarrow>
   SkipParentClassArcs parent origin j
   = find (\<lambda>j. \<not> PcpIsClassBasedArc (it_GetArcType j)) (IteratorWalk j)"
proof (induction parent origin j rule: SkipParentClassArcs.induct)
  case (1 parent origin j)
  show ?case
  proof (cases "PcpIsClassBasedArc (it_GetArcType j)")
    case False
    with "1.prems" show ?thesis
      by (subst SkipParentClassArcs.simps, subst IteratorWalk.simps)
         (simp add: IsImpliedClassBasedArc_def)
  next
    case True
    with "1.prems" have imp: "IsImpliedClassBasedArc (it_GetArcType j) parent origin"
      by (simp add: IsImpliedClassBasedArc_def)
    show ?thesis
    proof (cases "it_Next j")
      case None
      with True imp show ?thesis
        by (subst SkipParentClassArcs.simps, subst IteratorWalk.simps) simp
    next
      case (Some j')
      from "1.IH" [OF imp Some "1.prems"] True imp Some show ?thesis
        by (subst SkipParentClassArcs.simps, subst IteratorWalk.simps) simp
    qed
  qed
qed

lemma CycleSegments_walk:
  "CycleSegments i = map (\<lambda>j. (GetSite (fst j) (fst (snd j)), it_GetArcType j)) (IteratorWalk i)"
proof (induction i rule: CycleSegments.induct)
  case (1 i)
  show ?case
  proof (cases "it_Next i")
    case None
    then show ?thesis by (subst CycleSegments.simps, subst IteratorWalk.simps) simp
  next
    case (Some i')
    from "1.IH" [OF Some] Some show ?thesis
      by (subst CycleSegments.simps, subst IteratorWalk.simps) simp
  qed
qed

lemma CheckForCycle_iff:
  "CheckForCycle g parent origin arcType childSite fs \<noteq> None
   \<longleftrightarrow> arcType \<noteq> PcpArcTypeVariant
       \<and> \<not> (PcpIsClassBasedArc arcType \<and> parent \<noteq> origin
             \<and> (case find (\<lambda>j. \<not> PcpIsClassBasedArc (it_GetArcType j))
                         (IteratorWalk (g, parent, fs)) of
                   None \<Rightarrow> False
                 | Some j \<Rightarrow> it_GetArcType j = PcpArcTypeRelocate))
       \<and> (\<exists>(g', n', s') \<in> set (FrameSites fs g parent childSite).
             \<exists>a \<in> set (parentChain g' n'). HasAncestorCycle (GetSite g' a) s')"
proof (cases "parent = origin")
  case True
  then show ?thesis
    by (simp add: CheckForCycle_def IsImpliedClassBasedArc_def FindCycleAcrossFrames_iff Let_def)
next
  case False
  then show ?thesis
    by (simp add: CheckForCycle_def IsImpliedClassBasedArc_def FindCycleAcrossFrames_iff Let_def
        SkipParentClassArcs_find)
qed

lemma CheckForCycle_error:
  "CheckForCycle g parent origin arcType childSite fs = Some err \<Longrightarrow>
   errorType err = PcpErrorType_ArcCycle
   \<and> err_rootSite err = Some (fst (last (CycleSegments (g, parent, fs))))
   \<and> details err = ArcCycleDetails (rev (CycleSegments (g, parent, fs)) @ [(childSite, arcType)])"
  by (auto simp add: CheckForCycle_def Let_def hd_rev split: if_splits)

text \<open>
  Claim C1, as worded: the arc is rejected when some node on the walk from the parent to
  the root and across the frames shares its layer stack with the child site and one path
  is a prefix of the other. In the scene of the comment in \<open>_CheckForCycle\<close> the node
  \<open>/A/C\<close> of the enclosing frame has the child site \<open>/A\<close> as a prefix, yet the check finds
  no cycle and the reference node is added: in the enclosing frame the child site is
  compared as \<open>/A/B\<close>.
\<close>

theorem CheckForCycle_translated_counterexample:
  "CycleExists_claimed exampleInnerGraph 0 exampleTargetSite [exampleFrame]
   \<and> CheckForCycle exampleInnerGraph 0 0 PcpArcTypeReference exampleTargetSite [exampleFrame]
       = None
   \<and> fst (AddArc' exampleEnv PcpArcTypeReference 0 0 exampleTargetSite Identity 0
             True False False exampleInnerIndexer) = Some 1"
proof -
  have walk: "IteratorWalk (exampleInnerGraph, 0, [exampleFrame])
              = [(exampleInnerGraph, 0, [exampleFrame]), (exampleOuterGraph, 1, []),
                 (exampleOuterGraph, 0, [])]"
    by (simp add: IteratorWalk.simps it_Next_def it_NextFrame_def GetArcType_def
        GetParentNode_def exampleInnerGraph_def exampleOuterGraph_def exampleFrame_def
        exampleRootNode_def)
  have claimed: "CycleExists_claimed exampleInnerGraph 0 exampleTargetSite [exampleFrame]"
    unfolding CycleExists_claimed_def walk
    by (simp add: HasAncestorCycle_def GetSite_def HasPrefix_def exampleInnerGraph_def
        exampleOuterGraph_def exampleTargetSite_def exampleRootNode_def)
  have none: "CheckForCycle exampleInnerGraph 0 0 PcpArcTypeReference exampleTargetSite
                [exampleFrame] = None"
    by (simp add: CheckForCycle_def IsImpliedClassBasedArc_def
        FindAncestorCycleInParentGraph.simps HasAncestorCycle_def GetSite_def GetPath_def
        GetRootNode_def GetParentNode_def HasPrefix_def ReplacePrefix_def exampleInnerGraph_def
        exampleOuterGraph_def exampleFrame_def exampleTargetSite_def exampleRootNode_def)
  have ig: "indexGraph exampleInnerIndexer = exampleInnerGraph"
    by (simp add: indexGraph_def exampleInnerIndexer_def exampleIndexer_def exampleOutputs_def)
  have pf: "previousFrame exampleInnerIndexer = [exampleFrame]"
    by (simp add: exampleInnerIndexer_def)
  have added: "fst (AddArc' exampleEnv PcpArcTypeReference 0 0 exampleTargetSite Identity 0
                      True False False exampleInnerIndexer) = Some 1"
    unfolding AddArc'_def AddArc_def ig pf none
    by (simp add: IsNull_def
        exampleInnerIndexer_def exampleIndexer_def AddArc_leaf_def AddArc_finish_def
        SaltedEarth_def exampleEnv_def exampleInsertChild_def indexGraph_def setIndexGraph_def
        exampleOutputs_def exampleInnerGraph_def exampleInputs_def Let_def GetPermission_def
        GetPath_def SetInert_def SetHasSpecs_def IsInert_def HasSpecs_def AbsoluteRootPath_def
        GetSite_def exampleRootNode_def exampleTargetSite_def exampleFrame_def)
  from claimed none added show ?thesis by simp
qed

text \<open>
  Claim C1, amended: for a call of \<open>_AddArc\<close> with a map expression that is not null, the
  cycle check reports a cycle exactly when the arc is not a variant arc, is not an implied
  class-based arc (class-based, with parent and origin different) whose nearest ancestor
  reached by an arc that is not class-based, starting with the parent, is a Relocate
  node, and in the graph being built or in the graph of an enclosing frame some node on
  the parent chain shares its layer stack with the child site as translated into that
  frame, one path being a prefix of the other. On a cycle \<open>_AddArc\<close> returns no node and
  records the error, leaving the graph as it is; the error is an \<open>ArcCycle\<close> whose root site
  is the site of the outermost root and whose chain lists the nodes from that root down
  to the parent, followed by the child site.
\<close>

theorem AddArc_cycle_check:
  assumes valid: "\<not> IsNull mapExpr"
  shows
    "(CheckForCycle (indexGraph indexer) parent origin arcType childSite (previousFrame indexer)
        \<noteq> None
      \<longleftrightarrow> arcType \<noteq> PcpArcTypeVariant
          \<and> \<not> (PcpIsClassBasedArc arcType \<and> parent \<noteq> origin
                \<and> (case find (\<lambda>j. \<not> PcpIsClassBasedArc (it_GetArcType j))
                            (IteratorWalk (indexGraph indexer, parent, previousFrame indexer)) of
                      None \<Rightarrow> False
                    | Some j \<Rightarrow> it_GetArcType j = PcpArcTypeRelocate))
          \<and> (\<exists>(g', n', s') \<in> set (FrameSites (previousFrame indexer) (indexGraph indexer)
                                      parent childSite).
                \<exists>a \<in> set (parentChain g' n'). HasAncestorCycle (GetSite g' a) s'))
     \<and> (\<forall>err. CheckForCycle (indexGraph indexer) parent origin arcType childSite
                 (previousFrame indexer) = Some err \<longrightarrow>
           AddArc env arcType parent origin childSite mapExpr arcSiblingNum namespaceDepth
             directNodeShouldContributeSpecs includeAncestralOpinions skipDuplicateNodes
             skipImpliedSpecializesCompletedNodes skipTasksForExpressedArcs indexer
           = (None, indexer_RecordError indexer err)
           \<and> indexGraph (indexer_RecordError indexer err) = indexGraph indexer
           \<and> errorType err = PcpErrorType_ArcCycle
           \<and> err_rootSite err
               = Some (fst (last (CycleSegments (indexGraph indexer, parent, previousFrame indexer))))
           \<and> details err
               = ArcCycleDetails
                   (rev (CycleSegments (indexGraph indexer, parent, previousFrame indexer))
                    @ [(childSite, arcType)]))"
proof (intro conjI allI impI)
  show "CheckForCycle (indexGraph indexer) parent origin arcType childSite (previousFrame indexer)
        \<noteq> None
      \<longleftrightarrow> arcType \<noteq> PcpArcTypeVariant
          \<and> \<not> (PcpIsClassBasedArc arcType \<and> parent \<noteq> origin
                \<and> (case find (\<lambda>j. \<not> PcpIsClassBasedArc (it_GetArcType j))
                            (IteratorWalk (indexGraph indexer, parent, previousFrame indexer)) of
                      None \<Rightarrow> False
                    | Some j \<Rightarrow> it_GetArcType j = PcpArcTypeRelocate))
          \<and> (\<exists>(g', n', s') \<in> set (FrameSites (previousFrame indexer) (indexGraph indexer)
                                      parent childSite).
                \<exists>a \<in> set (parentChain g' n'). HasAncestorCycle (GetSite g' a) s')"
    by (rule CheckForCycle_iff)
next
  fix err
  assume c: "CheckForCycle (indexGraph indexer) parent origin arcType childSite
               (previousFrame indexer) = Some err"
  from valid c
  show "AddArc env arcType parent origin childSite mapExpr arcSiblingNum namespaceDepth
             directNodeShouldContributeSpecs includeAncestralOpinions skipDuplicateNodes
             skipImpliedSpecializesCompletedNodes skipTasksForExpressedArcs indexer
           = (None, indexer_RecordError indexer err)"
    by (simp add: AddArc_def)
  show "indexGraph (indexer_RecordError indexer err) = indexGraph indexer"
    by (simp add: indexer_RecordError_def indexGraph_def Let_def split: prod.splits)
  from CheckForCycle_error [OF c]
  show "errorType err = PcpErrorType_ArcCycle"
    and "err_rootSite err
           = Some (fst (last (CycleSegments (indexGraph indexer, parent, previousFrame indexer))))"
    and "details err
           = ArcCycleDetails
               (rev (CycleSegments (indexGraph indexer, parent, previousFrame indexer))
                @ [(childSite, arcType)])"
    by simp_all
qed

lemma example_cycle:
  "CheckForCycle (indexGraph exampleIndexer) 0 0 PcpArcTypeReference exampleSite
     (previousFrame exampleIndexer)
   = Some \<lparr>errorType = PcpErrorType_ArcCycle, err_rootSite = Some exampleSite,
           details = ArcCycleDetails [(exampleSite, PcpArcTypeRoot),
                                      (exampleSite, PcpArcTypeReference)]\<rparr>"
  by (simp add: CheckForCycle_def IsImpliedClassBasedArc_def
      FindAncestorCycleInParentGraph.simps HasAncestorCycle_def GetSite_def HasPrefix_def
      CycleSegments.simps it_Next_def it_NextFrame_def it_GetArcType_def GetArcType_def
      indexGraph_def exampleIndexer_def exampleOutputs_def exampleGraph_def exampleRootNode_def
      Let_def)

theorem AddArc_cycle_check_witness:
  "\<not> IsNull Identity
   \<and> AddArc exampleEnv PcpArcTypeReference 0 0 exampleSite Identity 0 1 True False False
       False False exampleIndexer
     = (None,
        indexer_RecordError exampleIndexer
          \<lparr>errorType = PcpErrorType_ArcCycle, err_rootSite = Some exampleSite,
           details = ArcCycleDetails [(exampleSite, PcpArcTypeRoot),
                                      (exampleSite, PcpArcTypeReference)]\<rparr>)
   \<and> nodes (indexGraph (snd (AddArc exampleEnv PcpArcTypeReference 0 0 exampleSite Identity 0 1
                               True False False False False exampleIndexer)))
     = [exampleRootNode]"
proof -
  have v: "\<not> IsNull Identity" by (simp add: IsNull_def)
  note t = AddArc_cycle_check [OF v, THEN conjunct2, rule_format, OF example_cycle,
      of exampleEnv 0 1 True False False False False]
  from t have a: "AddArc exampleEnv PcpArcTypeReference 0 0 exampleSite Identity 0 1 True False
       False False False exampleIndexer
     = (None,
        indexer_RecordError exampleIndexer
          \<lparr>errorType = PcpErrorType_ArcCycle, err_rootSite = Some exampleSite,
           details = ArcCycleDetails [(exampleSite, PcpArcTypeRoot),
                                      (exampleSite, PcpArcTypeReference)]\<rparr>)"
    by (rule conjunct1)
  from t have "indexGraph (indexer_RecordError exampleIndexer
          \<lparr>errorType = PcpErrorType_ArcCycle, err_rootSite = Some exampleSite,
           details = ArcCycleDetails [(exampleSite, PcpArcTypeRoot),
                                      (exampleSite, PcpArcTypeReference)]\<rparr>)
      = indexGraph exampleIndexer"
    by (rule conjunct2 [THEN conjunct1])
  then have n: "nodes (indexGraph (snd (AddArc exampleEnv PcpArcTypeReference 0 0 exampleSite
                     Identity 0 1 True False False False False exampleIndexer)))
     = [exampleRootNode]"
    unfolding a snd_conv
    by (simp add: indexGraph_def exampleIndexer_def exampleOutputs_def exampleGraph_def)
  from v a n show ?thesis by (intro conjI)
qed

section \<open>The placeholder for a missing default prim\<close>

lemma placeholder_inert:
  assumes i: "indexer' = (if GetPath (indexGraph i4) n = AbsoluteRootPath
                          then setIndexGraph i4 (InertSubtree (indexGraph i4) n) else i4)"
    and at: "GetPath (indexGraph indexer') n = AbsoluteRootPath"
    and valid: "n < length (nodes (indexGraph indexer'))"
  shows "\<forall>k \<in> set (GatherNodesRecursively (indexGraph indexer') n). IsInert (indexGraph indexer') k"
proof -
  from i at have r: "GetPath (indexGraph i4) n = AbsoluteRootPath"
    by (cases "GetPath (indexGraph i4) n = AbsoluteRootPath") simp_all
  with i have g: "indexGraph indexer' = InertSubtree (indexGraph i4) n" by simp
  have "sameShape (indexGraph i4) (InertSubtree (indexGraph i4) n)"
    unfolding InertSubtree_def by (rule sameShape_fold_SetInert)
  with valid g have "n < length (nodes (indexGraph i4))" by (simp add: sameShape_def)
  from InertSubtree_inert [OF this] g show ?thesis by simp
qed

lemma AddArc_finish_Some:
  assumes "AddArc_finish env arcType parent incl s1 s2 created = (Some n, indexer')"
  shows "\<exists>i4. indexer' = (if GetPath (indexGraph i4) n = AbsoluteRootPath
                          then setIndexGraph i4 (InertSubtree (indexGraph i4) n) else i4)"
proof -
  obtain i0 newNodeOpt e where c: "created = (i0, newNodeOpt, e)" by (cases created)
  from assms c obtain m where "newNodeOpt = Some m"
    by (cases newNodeOpt) (simp_all add: AddArc_finish_def Let_def)
  with assms c show ?thesis
    unfolding AddArc_finish_def Let_def by (simp only: prod.case option.case prod.inject) blast
qed

lemma AddArc_Some:
  assumes "AddArc env arcType parent origin childSite mapExpr arcSiblingNum namespaceDepth
             direct incl skipDup s1 s2 indexer = (Some n, indexer')"
  shows "\<exists>created. AddArc_finish env arcType parent incl s1 s2 created = (Some n, indexer')"
  using assms unfolding AddArc_def Let_def
  by (auto simp del: split_paired_Ex split: if_splits option.splits)

lemma AddArc_placeholder_inert:
  assumes "AddArc env arcType parent origin childSite mapExpr arcSiblingNum namespaceDepth
             direct incl skipDup s1 s2 indexer = (Some n, indexer')"
    and "GetPath (indexGraph indexer') n = AbsoluteRootPath"
    and "n < length (nodes (indexGraph indexer'))"
  shows "\<forall>k \<in> set (GatherNodesRecursively (indexGraph indexer') n). IsInert (indexGraph indexer') k"
proof -
  from AddArc_Some [OF assms(1)] obtain created
    where "AddArc_finish env arcType parent incl s1 s2 created = (Some n, indexer')" by blast
  from AddArc_finish_Some [OF this] obtain i4
    where "indexer' = (if GetPath (indexGraph i4) n = AbsoluteRootPath
                       then setIndexGraph i4 (InertSubtree (indexGraph i4) n) else i4)" by blast
  from placeholder_inert [OF this assms(2,3)] show ?thesis .
qed

lemma RecordError_keeps: "set all \<subseteq> set (snd (RecordError e loc all))"
  by (simp add: RecordError_def) blast

lemma indexer_RecordError_recorded:
  "\<not> isCapacityError e \<Longrightarrow> e \<in> set (allErrors (outputs (indexer_RecordError indexer e)))"
  by (simp add: indexer_RecordError_def RecordError_def isCapacityError_def)

lemma allErrors_indexer_RecordError:
  "allErrors (outputs (indexer_RecordError indexer e))
   = allErrors (outputs indexer) @ recorded (allErrors (outputs indexer)) [e]"
  by (simp add: indexer_RecordError_def RecordError_def isCapacityError_def split: prod.splits)

lemma indexer_RecordError_keeps:
  "set (allErrors (outputs indexer)) \<subseteq> set (allErrors (outputs (indexer_RecordError indexer e)))"
  by (simp add: allErrors_indexer_RecordError)

lemma AddArc_leaf_keeps:
  "set (allErrors (outputs indexer))
   \<subseteq> set (allErrors (outputs (fst (AddArc_leaf env indexer parent childSite newArc direct))))"
  by (simp add: AddArc_leaf_def Let_def split: prod.splits option.splits)

lemma AddArc_subtree_keeps:
  "set (allErrors (outputs indexer))
   \<subseteq> set (allErrors (outputs (fst (AddArc_subtree env indexer parent childSite newArc direct
                                      skipDup))))"
  by (auto simp add: AddArc_subtree_def Append_def Let_def split: prod.splits option.splits)

lemma AddArc_finish_keeps:
  "set (allErrors (outputs (fst created)))
   \<subseteq> set (allErrors (outputs (snd (AddArc_finish env arcType parent incl s1 s2 created))))"
proof -
  obtain i0 newNodeOpt e where c: "created = (i0, newNodeOpt, e)" by (cases created)
  show ?thesis
    unfolding c AddArc_finish_def Let_def
    by (cases newNodeOpt; cases e)
       (auto simp add: allErrors_indexer_RecordError simp del: recorded.simps)
qed

lemma AddArc_keeps:
  "set (allErrors (outputs indexer))
   \<subseteq> set (allErrors (outputs (snd (AddArc env arcType parent origin childSite mapExpr
                                      arcSiblingNum namespaceDepth direct incl skipDup s1 s2
                                      indexer))))"
proof -
  have l: "set (allErrors (outputs indexer))
           \<subseteq> set (allErrors (outputs (snd (AddArc_finish env arcType parent b s1 s2
                  (AddArc_leaf env indexer parent childSite newArc d)))))" for newArc d b
    by (rule subset_trans [OF AddArc_leaf_keeps AddArc_finish_keeps])
  have t: "set (allErrors (outputs indexer))
           \<subseteq> set (allErrors (outputs (snd (AddArc_finish env arcType parent b s1 s2
                  (AddArc_subtree env indexer parent childSite newArc d sd)))))" for newArc d sd b
    by (rule subset_trans [OF AddArc_subtree_keeps AddArc_finish_keeps])
  show ?thesis
    unfolding AddArc_def Let_def
    by (simp add: l t allErrors_indexer_RecordError split: option.splits del: recorded.simps)
qed

text \<open>
  Claim C6, at an internal reference. The claim, like the comment where the error is
  recorded in \<open>_EvalRefOrPayloadArcs\<close>, has the arc to the absolute root path added as a
  placeholder whenever the target layer lacks a default prim. For an internal reference
  without a prim path, in a layer without a default prim, \<open>_AddArc\<close> is called for the site
  \<open>/\<close> of the layer stack of the node itself; that path is a prefix of the path of the node,
  the cycle check rejects the arc, and the graph keeps its single node: the
  \<open>UnresolvedPrimPath\<close> error is followed by an \<open>ArcCycle\<close> error and there is no placeholder.
\<close>

theorem EvalRefOrPayloadArc_internal_reference_no_placeholder:
  "IsEmpty (GetPrimPath (fst exampleInternalReference))
   \<and> GetDefaultPrimPath exampleEnv exampleLayer = None
   \<and> nodes (indexGraph (EvalRefOrPayloadArc exampleEnv PcpArcTypeReference 0 0
                          exampleInternalReference exampleIndexer)) = [exampleRootNode]
   \<and> map errorType (allErrors (outputs (EvalRefOrPayloadArc exampleEnv PcpArcTypeReference 0 0
                                           exampleInternalReference exampleIndexer)))
     = [PcpErrorType_UnresolvedPrimPath, PcpErrorType_ArcCycle]"
  by (simp add: EvalRefOrPayloadArc_def ResolveRefOrPayloadTarget_def exampleInternalReference_def
      IsEmpty_def GetDefaultPrimPath_def exampleEnv_def exampleLayer_def identityLayerOffset_def
      Let_def AddArc'_def AddArc_def IsNull_def CreateMapExpressionForArc_def
      CheckForCycle_def IsImpliedClassBasedArc_def PcpIsClassBasedArc_def
      FindAncestorCycleInParentGraph.simps HasAncestorCycle_def HasPrefix_def
      AbsoluteRootPath_def GetSite_def GetLayerStack_def GetPath_def
      exampleIndexer_def exampleOutputs_def exampleGraph_def exampleRootNode_def exampleSite_def
      exampleLayerStack_def exampleInputs_def indexGraph_def indexer_RecordError_def
      RecordError_def IsRootPrimPath_def)

text \<open>
  Where \<open>_AddArc\<close> accepts the arc, the placeholder is what the comment says: the error for
  the missing default prim is among the errors afterwards, the graph is the one \<open>_AddArc\<close>
  returned, and every node of the sub-tree of the new node, which lies at the absolute root
  path, is inert.
\<close>

lemma EvalRefOrPayloadArc_default_prim_placeholder:
  assumes res: "ResolveRefOrPayloadTarget env ARC_TYPE node (fst arcAndInfo) (snd arcAndInfo)
                  indexer
                = Inr (targetLayer, targetLayerStack, layerOffset, indexer1)"
    and empty: "GetPrimPath (fst arcAndInfo) = EmptyPath"
    and nodef: "GetDefaultPrimPath env targetLayer = None"
    and err: "err = \<lparr>errorType = PcpErrorType_UnresolvedPrimPath,
                      err_rootSite = Some (GetSite (indexGraph indexer1)
                                             (GetRootNode (indexGraph indexer1))),
                      details = UnresolvedPrimPathDetails (GetSite (indexGraph indexer1) node)
                                  None ARC_TYPE\<rparr>"
    and m: "mapExpr0 = CreateMapExpressionForArc (AbsolutePath AbsoluteRootPath)
                         (indexGraph indexer1) node (inputs indexer1) layerOffset"
    and add: "AddArc' env ARC_TYPE node node
                \<lparr>layerStack = targetLayerStack, path = AbsoluteRootPath\<rparr>
                (if GetAssetPath (fst arcAndInfo) = '''' then AddRootIdentity mapExpr0
                 else mapExpr0)
                (int arcNum) False True False (indexer_RecordError indexer1 err)
              = (Some newNode, indexer3)"
    and at: "GetPath (indexGraph indexer3) newNode = AbsoluteRootPath"
    and valid: "newNode < length (nodes (indexGraph indexer3))"
    and fin: "indexer' = EvalRefOrPayloadArc env ARC_TYPE node arcNum arcAndInfo indexer"
  shows "err \<in> set (allErrors (outputs indexer'))
         \<and> indexGraph indexer' = indexGraph indexer3
         \<and> (\<forall>k \<in> set (GatherNodesRecursively (indexGraph indexer') newNode).
               IsInert (indexGraph indexer') k)"
proof -
  have nr: "\<not> IsRootPrimPath AbsoluteRootPath"
    by (simp add: IsRootPrimPath_def AbsoluteRootPath_def)
  have ev: "indexer' = indexer3 \<or> (\<exists>e. indexer' = indexer_RecordError indexer3 e)"
  proof (cases "GetAssetPath (fst arcAndInfo) = []")
    case True
    with add show ?thesis
      unfolding fin EvalRefOrPayloadArc_def
      by (simp add: res empty nodef IsEmpty_def nr Let_def err m) blast
  next
    case False
    with add show ?thesis
      unfolding fin EvalRefOrPayloadArc_def
      by (simp add: res empty nodef IsEmpty_def nr Let_def err m) blast
  qed
  have g: "indexGraph indexer' = indexGraph indexer3"
    using ev by auto
  let ?call = "AddArc env ARC_TYPE node node
                \<lparr>layerStack = targetLayerStack, path = AbsoluteRootPath\<rparr>
                (if GetAssetPath (fst arcAndInfo) = '''' then AddRootIdentity mapExpr0
                 else mapExpr0)
                (int arcNum)
                (PcpNode_GetNonVariantPathElementCount
                   (GetPath (indexGraph (indexer_RecordError indexer1 err)) node))
                False True False False False (indexer_RecordError indexer1 err)"
  from add have a: "?call = (Some newNode, indexer3)"
    by (simp only: AddArc'_def)
  have "\<not> isCapacityError err" by (simp add: err isCapacityError_def)
  from indexer_RecordError_recorded [OF this]
  have r: "err \<in> set (allErrors (outputs (indexer_RecordError indexer1 err)))" .
  have "set (allErrors (outputs (indexer_RecordError indexer1 err)))
        \<subseteq> set (allErrors (outputs (snd ?call)))"
    by (rule AddArc_keeps)
  then have "set (allErrors (outputs (indexer_RecordError indexer1 err)))
             \<subseteq> set (allErrors (outputs indexer3))"
    by (simp only: a snd_conv)
  with r have "err \<in> set (allErrors (outputs indexer3))" by blast
  with ev indexer_RecordError_keeps [of indexer3]
  have e: "err \<in> set (allErrors (outputs indexer'))" by auto
  from AddArc_placeholder_inert [OF a at valid] e g show ?thesis by simp
qed

lemma example_placeholder_target:
  "ResolveRefOrPayloadTarget exampleOpenEnv PcpArcTypeReference 0 (fst exampleExternalReference)
     (snd exampleExternalReference) exampleIndexer
   = Inr (exampleTargetLayer, exampleTargetLayerStack, identityLayerOffset, exampleIndexer)"
  "GetPrimPath (fst exampleExternalReference) = EmptyPath"
  "GetDefaultPrimPath exampleOpenEnv exampleTargetLayer = None"
  by (simp_all add: ResolveRefOrPayloadTarget_def exampleExternalReference_def exampleOpenEnv_def
      exampleEnv_def IsEmpty_def identityLayerOffset_def Let_def exampleTargetLayerStack_def
      exampleIndexer_def exampleOutputs_def GetDefaultPrimPath_def exampleTargetLayer_def)

lemma example_placeholder_call:
  "(case examplePlaceholderCall of (newNode, indexer) \<Rightarrow> (newNode, nodes (indexGraph indexer)))
   = (Some 1,
      [exampleRootNode\<lparr>childIndices := [1]\<rparr>,
       \<lparr>node_arcType = PcpArcTypeReference,
        node_site = \<lparr>layerStack = exampleTargetLayerStack, path = AbsoluteRootPath\<rparr>,
        parentIndex = Some 0, originIndex = Some 0, childIndices = [],
        nodeMapToParent =
          Compose (RelocatesAtPath exampleLayerStack [PrimChild ''P''])
            (Constant [(AbsolutePath AbsoluteRootPath, [PrimChild ''P''])] identityLayerOffset),
        inert = True, culled = False, restricted = False, hasSpecs = False,
        hasSymmetry = False, permission = SdfPermissionPublic\<rparr>])"
  by (simp add: examplePlaceholderCall_def examplePlaceholderError_def
      AddArc'_def AddArc_def IsNull_def CreateMapExpressionForArc_def
      CheckForCycle_def IsImpliedClassBasedArc_def PcpIsClassBasedArc_def
      FindAncestorCycleInParentGraph.simps HasAncestorCycle_def
      exampleExternalReference_def exampleTargetLayerStack_def exampleTargetLayer_def
      AddArc_subtree_def AddArc_finish_def Append_def SaltedEarth_def
      exampleOpenEnv_def exampleEnv_def exampleInsertChild_def
      indexGraph_def setIndexGraph_def indexer_RecordError_def RecordError_def
      exampleIndexer_def exampleOutputs_def exampleGraph_def exampleInputs_def
      exampleRootNode_def exampleSite_def exampleLayerStack_def exampleLayer_def
      Let_def GetPermission_def GetPath_def GetSite_def GetRootNode_def GetParentNode_def
      GetLayerStack_def StripAllVariantSelections_def isVariantSelectionElem_def
      AbsoluteRootPath_def AddCulledDependencies_def identityLayerOffset_def
      InertSubtree_def GatherNodesRecursively.simps Pcp_GetChildrenRange_def SetInert_def
      IsInert_def)

lemma example_placeholder_arc:
  "fst examplePlaceholderCall = Some 1"
  "GetPath (indexGraph (snd examplePlaceholderCall)) 1 = AbsoluteRootPath"
  "1 < length (nodes (indexGraph (snd examplePlaceholderCall)))"
  "IsInert (indexGraph (snd examplePlaceholderCall)) 1"
proof -
  obtain n x where c: "examplePlaceholderCall = (n, x)" by (cases examplePlaceholderCall)
  from example_placeholder_call [unfolded c prod.case]
  have n: "n = Some 1"
    and x: "nodes (indexGraph x)
            = [exampleRootNode\<lparr>childIndices := [1]\<rparr>,
               \<lparr>node_arcType = PcpArcTypeReference,
                node_site = \<lparr>layerStack = exampleTargetLayerStack, path = AbsoluteRootPath\<rparr>,
                parentIndex = Some 0, originIndex = Some 0, childIndices = [],
                nodeMapToParent =
                  Compose (RelocatesAtPath exampleLayerStack [PrimChild ''P''])
                    (Constant [(AbsolutePath AbsoluteRootPath, [PrimChild ''P''])]
                       identityLayerOffset),
                inert = True, culled = False, restricted = False, hasSpecs = False,
                hasSymmetry = False, permission = SdfPermissionPublic\<rparr>]"
    by simp_all
  show "fst examplePlaceholderCall = Some 1" by (simp add: c n)
  show "GetPath (indexGraph (snd examplePlaceholderCall)) 1 = AbsoluteRootPath"
    by (simp add: c x GetPath_def)
  show "1 < length (nodes (indexGraph (snd examplePlaceholderCall)))" by (simp add: c x)
  show "IsInert (indexGraph (snd examplePlaceholderCall)) 1" by (simp add: c x IsInert_def)
qed

lemma EvalRefOrPayloadArc_default_prim_placeholder_example:
  "GetPrimPath (fst exampleExternalReference) = EmptyPath
   \<and> GetDefaultPrimPath exampleOpenEnv exampleTargetLayer = None
   \<and> fst examplePlaceholderCall = Some 1
   \<and> examplePlaceholderError
       \<in> set (allErrors (outputs (EvalRefOrPayloadArc exampleOpenEnv PcpArcTypeReference 0 0
                                     exampleExternalReference exampleIndexer)))
   \<and> IsInert (indexGraph (EvalRefOrPayloadArc exampleOpenEnv PcpArcTypeReference 0 0
                              exampleExternalReference exampleIndexer)) 1"
proof -
  have "examplePlaceholderCall = (Some 1, snd examplePlaceholderCall)"
    using example_placeholder_arc(1) by (simp add: prod_eq_iff)
  note add = this [unfolded examplePlaceholderCall_def]
  note t = EvalRefOrPayloadArc_default_prim_placeholder
             [OF example_placeholder_target examplePlaceholderError_def refl add
                 example_placeholder_arc(2,3) [unfolded examplePlaceholderCall_def] refl]
  from t have e: "examplePlaceholderError
       \<in> set (allErrors (outputs (EvalRefOrPayloadArc exampleOpenEnv PcpArcTypeReference 0 0
                                     exampleExternalReference exampleIndexer)))"
    by (rule conjunct1)
  from t GatherNodesRecursively_self [of 1]
  have i: "IsInert (indexGraph (EvalRefOrPayloadArc exampleOpenEnv PcpArcTypeReference 0 0
                              exampleExternalReference exampleIndexer)) 1"
    by blast
  from example_placeholder_target(2,3) example_placeholder_arc(1) e i show ?thesis
    by (intro conjI)
qed

end
